theory Spec2Isabelle
  imports Complex_Main
begin

section \<open>Python values and errors\<close>

text \<open>
  The model follows \<^verbatim>\<open>src/pynwb/form/backends/hdf5/h5tools.py\<close> (class
  \<^verbatim>\<open>HDF5IO\<close>) and \<^verbatim>\<open>src/pynwb/ecephys.py\<close> (class
  \<^verbatim>\<open>FeatureExtraction\<close>). Every exception the source can raise is a value of
  \<open>error\<close>; a function that can raise returns \<open>error + 'a\<close> with \<open>Inl\<close> the
  exception.
\<close>

datatype error =
    ValueError string
  | NameError string
  | KeyError string
  | IndexError string
  | TypeError string
  | AttributeError string
  | OSError string
  | RecursionError
  | Exception string error

text \<open>
  The result of Python's \<^verbatim>\<open>type(x)\<close> on a scalar, and the sample data handed to
  the type resolver: a string, a scalar without \<^verbatim>\<open>__len__\<close>, or a sized sequence
  (list, tuple or array) indexed from 0. A scalar can also be an h5py reference or an
  object of the builder or domain layer (a reference target).
\<close>

datatype pytype =
  Py_int | Py_float | Py_bool | Py_NoneType | Py_Reference | Py_RegionReference | Py_object

text \<open>
  A selection (numpy index) of a chunk or of a region: an integer, a slice
  \<^verbatim>\<open>start:stop:step\<close> with optional parts, a boolean mask or a list of integer
  indices (both are a \<^verbatim>\<open>list\<close> or \<^verbatim>\<open>np.ndarray\<close> to
  \<^verbatim>\<open>isinstance\<close>), a tuple of selections, or \<^verbatim>\<open>Ellipsis\<close> (an index object
  of none of these classes).
\<close>

datatype selection =
    SelInt int
  | SelSlice "int option" "int option" "int option"
  | SelMask "bool list"
  | SelFancy "int list"
  | SelTuple "selection list"
  | SelEllipsis

text \<open>
  A path inside a file is the list of its components below the root group (the source
  joins them with \<^verbatim>\<open>"/"\<close>; names are taken to hold no \<^verbatim>\<open>"/"\<close>).
  An h5py reference holds the path of the object it was taken from, a region reference
  also the selection.
\<close>

type_synonym h5path = "string list"

datatype h5ref = ObjectReference h5path | RegionReference h5path selection

text \<open>
  What the source reaches through a pointer to a \<^verbatim>\<open>Builder\<close>: its name, its
  source and its parent (\<^verbatim>\<open>None\<close> at the top). A reference target is a
  \<^verbatim>\<open>Container\<close> (an object of the domain layer, here a number), a
  \<^verbatim>\<open>Builder\<close>, or a \<^verbatim>\<open>LinkBuilder\<close> with the builder it points to.
\<close>

datatype bref = BRef (ref_name: string) (ref_source: "string option") (ref_parent: "bref option")

datatype target = TContainer nat | TBuilder bref | TLinkBuilder bref

datatype pydata =
    PyStr string
  | PyInt int
  | PyFloat real
  | PyBool bool
  | PyNone
  | PyRef h5ref
  | PyObj target
  | PySeq "pydata list"

section \<open>Dtype resolution\<close>

text \<open>
  The concrete storage types: the values of the table \<^verbatim>\<open>__dtypes\<close> (numpy scalar
  types and h5py special dtypes), the compound type \<^verbatim>\<open>np.dtype([(name, t), ...])\<close>
  with the field types as they are handed to numpy (\<open>None\<close> for a field whose tag is
  not in the table), and a Python class returned by \<^verbatim>\<open>get_type\<close>.
\<close>

datatype h5dtype =
    Np_float32 | Np_float64
  | Np_int64 | Np_int32 | Np_int16 | Np_int8
  | Np_uint32 | Np_uint16 | Np_uint8
  | Vlen_text | Vlen_bytes
  | Ref_object | Ref_region
  | Np_compound "(string \<times> h5dtype option) list"
  | Py_class pytype

text \<open>
  A type descriptor: a string tag, a reference specification (a dict, read at key
  \<^verbatim>\<open>'reftype'\<close>), or a list of named fields (each a dict with keys
  \<^verbatim>\<open>'name'\<close> and \<^verbatim>\<open>'dtype'\<close>). The absent descriptor \<^verbatim>\<open>None\<close> is
  \<open>DNone\<close>.
\<close>

datatype dtype_desc =
    DNone
  | DTag string
  | DRefSpec string
  | DFields "(string \<times> dtype_desc) list"

definition dtypes_table :: "(string \<times> h5dtype) list" where
  "dtypes_table =
    [(''float'', Np_float32),
     (''float32'', Np_float32),
     (''double'', Np_float64),
     (''float64'', Np_float64),
     (''long'', Np_int64),
     (''int64'', Np_int64),
     (''int'', Np_int32),
     (''int32'', Np_int32),
     (''int16'', Np_int16),
     (''int8'', Np_int8),
     (''text'', Vlen_text),
     (''utf'', Vlen_text),
     (''utf8'', Vlen_text),
     (''utf-8'', Vlen_text),
     (''ascii'', Vlen_bytes),
     (''str'', Vlen_bytes),
     (''uint32'', Np_uint32),
     (''uint16'', Np_uint16),
     (''int16'', Np_int16),
     (''uint8'', Np_uint8),
     (''ref'', Ref_object),
     (''reference'', Ref_object),
     (''object'', Ref_object),
     (''region'', Ref_region)]"

text \<open>\<^verbatim>\<open>cls.__dtypes.get(tag)\<close>: \<open>None\<close> for a tag that is not a key.\<close>

definition dtypes_get :: "string \<Rightarrow> h5dtype option" where
  "dtypes_get tag = map_of dtypes_table tag"

text \<open>\<^verbatim>\<open>get_type\<close>: the type of the first scalar reached through first elements.\<close>

fun get_type :: "pydata \<Rightarrow> error + h5dtype" where
  "get_type (PyStr s) = Inr Vlen_text"
| "get_type (PyInt i) = Inr (Py_class Py_int)"
| "get_type (PyFloat x) = Inr (Py_class Py_float)"
| "get_type (PyBool b) = Inr (Py_class Py_bool)"
| "get_type PyNone = Inr (Py_class Py_NoneType)"
| "get_type (PyRef (ObjectReference p)) = Inr (Py_class Py_Reference)"
| "get_type (PyRef (RegionReference p sel)) = Inr (Py_class Py_RegionReference)"
| "get_type (PyObj t) = Inr (Py_class Py_object)"
| "get_type (PySeq []) = Inl (ValueError ''cannot determine type for empty data'')"
| "get_type (PySeq (x # xs)) = get_type x"

fun resolve_dtype_helper :: "dtype_desc \<Rightarrow> h5dtype option" where
  "resolve_dtype_helper DNone = None"
| "resolve_dtype_helper (DTag s) = dtypes_get s"
| "resolve_dtype_helper (DRefSpec r) = dtypes_get r"
| "resolve_dtype_helper (DFields xs) =
     Some (Np_compound (map (\<lambda>x. (fst x, resolve_dtype_helper (snd x))) xs))"

text \<open>
  \<^verbatim>\<open>__resolve_dtype__\<close>. When \<^verbatim>\<open>get_type\<close> raises, the handler formats its
  message from \<^verbatim>\<open>name\<close> and \<^verbatim>\<open>parent.name\<close>, which are bound neither in the
  method nor in the module: evaluating the format raises \<^verbatim>\<open>NameError\<close> before
  \<^verbatim>\<open>raise_from\<close> is reached.
\<close>

definition resolve_dtype :: "dtype_desc \<Rightarrow> pydata \<Rightarrow> error + h5dtype" where
  "resolve_dtype dtype data =
     (case resolve_dtype_helper dtype of
        Some t \<Rightarrow> Inr t
      | None \<Rightarrow>
          (case get_type data of
             Inr t \<Rightarrow> Inr t
           | Inl exc \<Rightarrow> Inl (NameError ''name'')))"

section \<open>The stored dataset\<close>

text \<open>
  The h5py \<^verbatim>\<open>Dataset\<close> as the source uses it: attributes, element type, extent
  (\<^verbatim>\<open>shape\<close>), the largest extent it may be resized to (\<^verbatim>\<open>maxshape\<close>; absent
  for a dataset that cannot be resized, an absent entry for an unlimited dimension), and
  the cells written so far, by index vector. h5py is outside the repository: the
  operations below state the behaviour of \<^verbatim>\<open>resize\<close> and of item assignment that
  the model relies on.
\<close>

record h5dataset =
  ds_attrs :: "(string \<times> pydata) list"
  ds_dtype :: "h5dtype option"
  ds_shape :: "nat list"
  ds_maxshape :: "nat option list option"
  ds_cells :: "nat list \<Rightarrow> pydata option"

definition in_extent :: "nat list \<Rightarrow> nat list \<Rightarrow> bool" where
  "in_extent shape idx = list_all2 (\<lambda>i n. i < n) idx shape"

definition fits_maxshape :: "nat list \<Rightarrow> nat option list \<Rightarrow> bool" where
  "fits_maxshape shape ms =
     list_all2 (\<lambda>n m. case m of None \<Rightarrow> True | Some k \<Rightarrow> n \<le> k) shape ms"

text \<open>\<^verbatim>\<open>dset.resize(new_shape)\<close>: only a resizable dataset, within its maximum.\<close>

definition h5_resize :: "nat list \<Rightarrow> h5dataset \<Rightarrow> (error + unit) \<times> h5dataset" where
  "h5_resize new_shape d =
     (case ds_maxshape d of
        None \<Rightarrow> (Inl (TypeError ''Only chunked datasets can be resized''), d)
      | Some ms \<Rightarrow>
          if length new_shape \<noteq> length (ds_shape d) then
            (Inl (TypeError ''New shape length must match old shape''), d)
          else if \<not> fits_maxshape new_shape ms then
            (Inl (ValueError ''Unable to set extend dataset (dimension cannot exceed the existing maximal size)''), d)
          else
            (Inr (),
             d\<lparr>ds_shape := new_shape,
               ds_cells := (\<lambda>idx. if in_extent new_shape idx then ds_cells d idx else None)\<rparr>))"

text \<open>The positions one index object selects along a dimension of extent \<open>n\<close>.\<close>

definition clip_index :: "nat \<Rightarrow> int \<Rightarrow> nat" where
  "clip_index n i = (let j = (if i < 0 then i + int n else i) in nat (min (int n) (max 0 j)))"

fun dim_positions :: "nat \<Rightarrow> selection \<Rightarrow> error + nat list" where
  "dim_positions n (SelInt i) =
     (let j = (if i < 0 then i + int n else i)
      in if 0 \<le> j \<and> j < int n then Inr [nat j]
         else Inl (ValueError ''Index out of range''))"
| "dim_positions n (SelSlice start stop step) =
     (let st = (case step of None \<Rightarrow> 1 | Some k \<Rightarrow> k)
      in if st < 1 then Inl (ValueError ''Step must be >= 1'')
         else
           (let lo = (case start of None \<Rightarrow> 0 | Some a \<Rightarrow> clip_index n a);
                hi = (case stop of None \<Rightarrow> n | Some b \<Rightarrow> clip_index n b)
            in Inr (filter (\<lambda>i. (i - lo) mod nat st = 0) [lo..<hi])))"
| "dim_positions n (SelMask bs) =
     (if length bs \<noteq> n then Inl (TypeError ''Boolean indexing array has incompatible shape'')
      else Inr (filter (\<lambda>i. bs ! i) [0..<n]))"
| "dim_positions n (SelFancy js) =
     (if \<not> list_all (\<lambda>j. 0 \<le> j \<and> j < int n) js then Inl (ValueError ''Index out of range'')
      else if \<not> sorted_wrt (<) js then Inl (TypeError ''Indexing elements must be in increasing order'')
      else Inr (map nat js))"
| "dim_positions n (SelTuple ss) = Inl (TypeError ''Illegal index'')"
| "dim_positions n SelEllipsis = Inr [0..<n]"

text \<open>The first error of a list of results, or all the values.\<close>

fun collect :: "(error + 'a) list \<Rightarrow> error + 'a list" where
  "collect [] = Inr []"
| "collect (Inl e # rs) = Inl e"
| "collect (Inr a # rs) = (case collect rs of Inl e \<Rightarrow> Inl e | Inr as \<Rightarrow> Inr (a # as))"

text \<open>
  The index objects of a selection, one for each dimension: a tuple gives them in
  order, with \<^verbatim>\<open>Ellipsis\<close> standing for the dimensions the tuple leaves out; any
  other selection indexes the first dimension; the dimensions left are taken whole.
\<close>

fun expand_ellipsis :: "nat \<Rightarrow> selection list \<Rightarrow> selection list" where
  "expand_ellipsis rank [] = []"
| "expand_ellipsis rank (SelEllipsis # ss) =
     replicate (rank - length ss) (SelSlice None None None) @ ss"
| "expand_ellipsis rank (s # ss) = s # expand_ellipsis (rank - 1) ss"

definition dim_selections :: "nat \<Rightarrow> selection \<Rightarrow> selection list" where
  "dim_selections rank sel =
     (let ss = expand_ellipsis rank (case sel of SelTuple ts \<Rightarrow> ts | s \<Rightarrow> [s])
      in ss @ replicate (rank - length ss) (SelSlice None None None))"

fun cartesian :: "nat list list \<Rightarrow> nat list list" where
  "cartesian [] = [[]]"
| "cartesian (ps # rest) = concat (map (\<lambda>i. map (\<lambda>r. i # r) (cartesian rest)) ps)"

definition sel_positions :: "nat list \<Rightarrow> selection \<Rightarrow> error + nat list list" where
  "sel_positions shape sel =
     (let ss = dim_selections (length shape) sel
      in if length ss \<noteq> length shape then Inl (TypeError ''Argument sequence too long'')
         else (case collect (map (\<lambda>(n, s). dim_positions n s) (zip shape ss)) of
                 Inl e \<Rightarrow> Inl e
               | Inr ps \<Rightarrow> Inr (cartesian ps)))"

text \<open>
  The elements of nested sequences down to a depth, in row-major order. An assignment
  takes them to the depth of the selected block: one level for each dimension that is
  not indexed by an integer.
\<close>

fun flatten :: "nat \<Rightarrow> pydata \<Rightarrow> pydata list" where
  "flatten 0 x = [x]"
| "flatten (Suc k) (PySeq xs) = concat (map (flatten k) xs)"
| "flatten (Suc k) x = [x]"

fun is_SelInt :: "selection \<Rightarrow> bool" where
  "is_SelInt (SelInt i) = True"
| "is_SelInt s = False"

definition block_rank :: "nat \<Rightarrow> selection \<Rightarrow> nat" where
  "block_rank rank sel = length (filter (\<lambda>s. \<not> is_SelInt s) (dim_selections rank sel))"

text \<open>
  \<^verbatim>\<open>dset[selection] = data\<close>: the elements of the data go to the selected cells in
  row-major order when there are as many elements as cells; a scalar or a value of one
  element is broadcast, every selected cell taking it. h5py also repeats a block along
  the leading dimensions of a selection by slices; the source does not rely on it, and
  such a value is refused here.
\<close>

definition h5_setitem :: "selection \<Rightarrow> pydata \<Rightarrow> h5dataset \<Rightarrow> (error + unit) \<times> h5dataset" where
  "h5_setitem sel data d =
     (case sel_positions (ds_shape d) sel of
        Inl e \<Rightarrow> (Inl e, d)
      | Inr ps \<Rightarrow>
          (let vs = flatten (block_rank (length (ds_shape d)) sel) data
           in if length vs = length ps then
                (Inr (), d\<lparr>ds_cells := fold (\<lambda>pv c. c(fst pv \<mapsto> snd pv)) (zip ps vs) (ds_cells d)\<rparr>)
              else if length vs = 1 then
                (Inr (), d\<lparr>ds_cells := fold (\<lambda>pv c. c(fst pv \<mapsto> snd pv))
                                           (zip ps (replicate (length ps) (hd vs))) (ds_cells d)\<rparr>)
              else
                (Inl (TypeError ''Can't broadcast data to the selection''), d)))"

text \<open>
  \<^verbatim>\<open>create_dataset(name, data=data, shape=None, dtype=dtype)\<close>: the extent is the
  shape of the data, the cells are its elements.
\<close>

fun np_shape :: "pydata \<Rightarrow> nat list" where
  "np_shape (PySeq []) = [0]"
| "np_shape (PySeq (x # xs)) = Suc (length xs) # np_shape x"
| "np_shape x = []"

definition dataset_of_data :: "h5dtype option \<Rightarrow> pydata \<Rightarrow> h5dataset" where
  "dataset_of_data dt data =
     (let shape = np_shape data
      in \<lparr>ds_attrs = [], ds_dtype = dt, ds_shape = shape, ds_maxshape = None,
          ds_cells = fold (\<lambda>pv c. c(fst pv \<mapsto> snd pv))
                       (zip (cartesian (map (\<lambda>n. [0..<n]) shape)) (flatten (length shape) data))
                       (\<lambda>idx. None)\<rparr>)"

definition empty_dataset ::
  "h5dtype option \<Rightarrow> nat list \<Rightarrow> nat option list option \<Rightarrow> h5dataset" where
  "empty_dataset dt shape ms =
     \<lparr>ds_attrs = [], ds_dtype = dt, ds_shape = shape, ds_maxshape = ms, ds_cells = (\<lambda>idx. None)\<rparr>"

section \<open>Chunked writing\<close>

text \<open>
  The result of \<^verbatim>\<open>__selection_max_bounds__\<close>: \<^verbatim>\<open>None\<close>, an integer, or a tuple
  of results.
\<close>

datatype bound = BNone | BInt int | BTuple "bound list"

text \<open>\<^verbatim>\<open>np.nonzero(xs)[0]\<close>: the positions of the entries that are not zero (not false).\<close>

definition np_nonzero :: "bool list \<Rightarrow> nat list" where
  "np_nonzero xs = filter (\<lambda>i. xs ! i) [0..<length xs]"

definition last_nonzero_bound :: "bool list \<Rightarrow> error + bound" where
  "last_nonzero_bound xs =
     (case np_nonzero xs of
        [] \<Rightarrow> Inl (IndexError ''index -1 is out of bounds for axis 0 with size 0'')
      | nz \<Rightarrow> Inr (BInt (int (last nz) + 1)))"

fun selection_max_bounds :: "selection \<Rightarrow> error + bound" where
  "selection_max_bounds (SelInt i) = Inr (BInt (i + 1))"
| "selection_max_bounds (SelSlice start stop step) =
     Inr (case stop of None \<Rightarrow> BNone | Some b \<Rightarrow> BInt b)"
| "selection_max_bounds (SelMask bs) = last_nonzero_bound bs"
| "selection_max_bounds (SelFancy js) = last_nonzero_bound (map (\<lambda>j. j \<noteq> 0) js)"
| "selection_max_bounds (SelTuple ss) =
     (case collect (map selection_max_bounds ss) of
        Inl e \<Rightarrow> Inl e
      | Inr bs \<Rightarrow> Inr (BTuple bs))"
| "selection_max_bounds SelEllipsis = Inr BNone"

text \<open>
  The list comprehension \<^verbatim>\<open>expand_dims\<close>, together with the shape it leads to:
  going through the bounds with their positions, a bound \<^verbatim>\<open>None\<close> keeps the extent;
  an integer bound is compared with \<^verbatim>\<open>dset.shape[i]\<close> (\<^verbatim>\<open>IndexError\<close> past the
  rank) and replaces it when larger; a tuple cannot be compared with an integer.
  \<open>grow_shape\<close> returns whether some dimension expands, and the new shape.
\<close>

fun grow_shape :: "nat \<Rightarrow> bound list \<Rightarrow> nat list \<Rightarrow> error + (bool \<times> nat list)" where
  "grow_shape i [] shape = Inr (False, shape)"
| "grow_shape i (BNone # vs) shape = grow_shape (i + 1) vs shape"
| "grow_shape i (BInt v # vs) shape =
     (if length shape \<le> i then Inl (IndexError ''tuple index out of range'')
      else if v > int (shape ! i) then
        (case grow_shape (i + 1) vs shape of
           Inl e \<Rightarrow> Inl e
         | Inr (g, sh) \<Rightarrow> Inr (True, sh[i := nat v]))
      else grow_shape (i + 1) vs shape)"
| "grow_shape i (BTuple bs # vs) shape =
     (if length shape \<le> i then Inl (IndexError ''tuple index out of range'')
      else Inl (TypeError ''> not supported between instances of tuple and int''))"

text \<open>
  A \<^verbatim>\<open>DataChunk\<close> and a \<^verbatim>\<open>DataChunkIterator\<close> (classes of
  \<^verbatim>\<open>data_utils\<close>, used through these attributes only). The iterator is taken to
  yield finitely many chunks.
\<close>

record data_chunk =
  chunk_selection :: selection
  chunk_data :: pydata

record data_chunk_iterator =
  recommended_chunk_shape :: "nat list option"
  recommended_data_shape :: "nat list"
  dci_dtype :: "h5dtype option"
  dci_max_shape :: "nat option list option"
  dci_chunks :: "data_chunk list"

text \<open>One turn of the loop of \<^verbatim>\<open>__chunked_iter_fill__\<close>.\<close>

definition fill_chunk :: "data_chunk \<Rightarrow> h5dataset \<Rightarrow> (error + unit) \<times> h5dataset" where
  "fill_chunk chunk_i dset =
     (case selection_max_bounds (chunk_selection chunk_i) of
        Inl e \<Rightarrow> (Inl e, dset)
      | Inr mb \<Rightarrow>
          (let max_bounds = (case mb of BTuple bs \<Rightarrow> bs | b \<Rightarrow> [b])
           in case grow_shape 0 max_bounds (ds_shape dset) of
                Inl e \<Rightarrow> (Inl e, dset)
              | Inr (expand, new_shape) \<Rightarrow>
                  (if expand then
                     (case h5_resize new_shape dset of
                        (Inl e, dset') \<Rightarrow> (Inl e, dset')
                      | (Inr u, dset') \<Rightarrow> h5_setitem (chunk_selection chunk_i) (chunk_data chunk_i) dset')
                   else h5_setitem (chunk_selection chunk_i) (chunk_data chunk_i) dset)))"

fun fill_chunks :: "data_chunk list \<Rightarrow> h5dataset \<Rightarrow> (error + unit) \<times> h5dataset" where
  "fill_chunks [] dset = (Inr (), dset)"
| "fill_chunks (c # cs) dset =
     (case fill_chunk c dset of
        (Inl e, dset') \<Rightarrow> (Inl e, dset')
      | (Inr u, dset') \<Rightarrow> fill_chunks cs dset')"

section \<open>The file store\<close>

text \<open>
  The HDF5 files as h5py shows them: a file is a root group; a group has attributes and
  named members, each a hard link to a group or dataset of its own, a soft link (a path
  in the same file) or an external link (a file name and a path). Members are kept in
  the order of their creation.
\<close>

datatype h5node =
    H5Group "(string \<times> pydata) list" "(string \<times> h5member) list"
  | H5Dataset h5dataset
and h5member =
    HardLink h5node
  | SoftLink h5path
  | ExternalLink string h5path

text \<open>
  \<^verbatim>\<open>d[k] = v\<close> on a Python dict kept as an association list: the value is replaced
  in place when the key is there, and added at the end otherwise.
\<close>

fun dict_set :: "'k \<Rightarrow> 'v \<Rightarrow> ('k \<times> 'v) list \<Rightarrow> ('k \<times> 'v) list" where
  "dict_set k v [] = [(k, v)]"
| "dict_set k v ((k', v') # kvs) =
     (if k' = k then (k, v) # kvs else (k', v') # dict_set k v kvs)"

text \<open>
  Path lookup from a root group, as HDF5 does it: a soft or external link on the way is
  followed from the root of the file it names; HDF5 gives up after a fixed number of
  link traversals (\<open>nlinks\<close>). The result is the file, the path and the node reached.
\<close>

function h5_walk ::
  "nat \<Rightarrow> (string \<Rightarrow> h5node option) \<Rightarrow> string \<Rightarrow> h5path \<Rightarrow> h5node \<Rightarrow> h5path
     \<Rightarrow> (string \<times> h5path \<times> h5node) option" where
  "h5_walk fuel files fname cur node [] = Some (fname, cur, node)"
| "h5_walk fuel files fname cur (H5Dataset d) (k # ks) = None"
| "h5_walk fuel files fname cur (H5Group attrs members) (k # ks) =
     (case map_of members k of
        None \<Rightarrow> None
      | Some (HardLink n) \<Rightarrow> h5_walk fuel files fname (cur @ [k]) n ks
      | Some (SoftLink p) \<Rightarrow>
          (case fuel of
             0 \<Rightarrow> None
           | Suc f \<Rightarrow>
               (case files fname of
                  None \<Rightarrow> None
                | Some r \<Rightarrow> h5_walk f files fname [] r (p @ ks)))
      | Some (ExternalLink fname2 p) \<Rightarrow>
          (case fuel of
             0 \<Rightarrow> None
           | Suc f \<Rightarrow>
               (case files fname2 of
                  None \<Rightarrow> None
                | Some r \<Rightarrow> h5_walk f files fname2 [] r (p @ ks))))"
  by pat_completeness auto
termination
  by (relation "measures [\<lambda>(fuel, files, fname, cur, node, ks). fuel,
                          \<lambda>(fuel, files, fname, cur, node, ks). length ks]") auto

definition nlinks :: nat where
  "nlinks = 16"

definition h5_resolve ::
  "(string \<Rightarrow> h5node option) \<Rightarrow> string \<Rightarrow> h5path \<Rightarrow> (string \<times> h5path \<times> h5node) option" where
  "h5_resolve files fname p =
     (case files fname of
        None \<Rightarrow> None
      | Some r \<Rightarrow> h5_walk nlinks files fname [] r p)"

text \<open>
  Changing the node at a path made of hard links only (the name of an object the
  source holds a handle to).
\<close>

fun h5_modify :: "h5path \<Rightarrow> (h5node \<Rightarrow> error + h5node) \<Rightarrow> h5node \<Rightarrow> error + h5node" where
  "h5_modify [] f node = f node"
| "h5_modify (k # ks) f (H5Dataset d) = Inl (KeyError k)"
| "h5_modify (k # ks) f (H5Group attrs members) =
     (case map_of members k of
        Some (HardLink n) \<Rightarrow>
          (case h5_modify ks f n of
             Inl e \<Rightarrow> Inl e
           | Inr n' \<Rightarrow> Inr (H5Group attrs (dict_set k (HardLink n') members)))
      | _ \<Rightarrow> Inl (KeyError k))"

text \<open>The three changes the source makes: a new member, an attribute, a dataset's content.\<close>

definition add_member :: "string \<Rightarrow> h5member \<Rightarrow> h5node \<Rightarrow> error + h5node" where
  "add_member name m node =
     (case node of
        H5Dataset d \<Rightarrow> Inl (TypeError ''not a group'')
      | H5Group attrs members \<Rightarrow>
          (if name \<in> fst ` set members
           then Inl (ValueError (''Unable to create link (name already exists): '' @ name))
           else Inr (H5Group attrs (members @ [(name, m)]))))"

definition set_attr :: "string \<Rightarrow> pydata \<Rightarrow> h5node \<Rightarrow> error + h5node" where
  "set_attr key v node =
     (case node of
        H5Dataset d \<Rightarrow> Inr (H5Dataset (d\<lparr>ds_attrs := dict_set key v (ds_attrs d)\<rparr>))
      | H5Group attrs members \<Rightarrow> Inr (H5Group (dict_set key v attrs) members))"

section \<open>Builders\<close>

text \<open>
  Modelled from the spec: the classes \<^verbatim>\<open>GroupBuilder\<close>, \<^verbatim>\<open>DatasetBuilder\<close>,
  \<^verbatim>\<open>RegionBuilder\<close> and \<^verbatim>\<open>LinkBuilder\<close> of the module \<^verbatim>\<open>build\<close>, which
  is not among the sources. A builder has a name, attributes, a source and a parent; a
  group owns sub-groups, datasets and links by name; a dataset has data, a type
  descriptor and a maximum shape; a region builder has the referenced builder and a
  region; a link has a name and a target builder. The first field is the identity of
  the Python object.

  The data of a dataset is one of the kinds \<^verbatim>\<open>write_dataset\<close> tells apart by
  \<^verbatim>\<open>isinstance\<close>: a string, a \<^verbatim>\<open>DataChunkIterator\<close>, an h5py dataset (its file
  and name), a builder, an iterable that is not an in-memory array (given by the
  \<^verbatim>\<open>DataChunkIterator\<close> that wraps it with \<^verbatim>\<open>buffer_size=100\<close>), a sized
  sequence, or a scalar. The type read back from a file is a numpy type, not a
  descriptor; a region is given by a selection, and read back as the stored reference.
\<close>

datatype dsdata =
    DataStr string
  | DataChunks data_chunk_iterator
  | DataH5 string h5path
  | DataBuilder target
  | DataIterable data_chunk_iterator
  | DataArray "pydata list"
  | DataScalar pydata

datatype builder_dtype = Descriptor dtype_desc | NumpyDtype "h5dtype option"

datatype region = RegionSel selection | RegionRef h5ref

datatype builder =
    GroupBuilder nat string "(string \<times> pydata) list"
      "(string \<times> builder) list" "(string \<times> builder) list" "(string \<times> builder) list"
      "string option" "bref option"
  | DatasetBuilder nat string "(string \<times> pydata) list" dsdata builder_dtype
      "nat option list option" "string option" "bref option"
  | RegionBuilder nat string "(string \<times> pydata) list" builder region
      "string option" "bref option"
  | LinkBuilder string builder "string option"

fun b_name :: "builder \<Rightarrow> string" where
  "b_name (GroupBuilder i n a gs ds ls s p) = n"
| "b_name (DatasetBuilder i n a d t m s p) = n"
| "b_name (RegionBuilder i n a b r s p) = n"
| "b_name (LinkBuilder n b s) = n"

fun b_source :: "builder \<Rightarrow> string option" where
  "b_source (GroupBuilder i n a gs ds ls s p) = s"
| "b_source (DatasetBuilder i n a d t m s p) = s"
| "b_source (RegionBuilder i n a b r s p) = s"
| "b_source (LinkBuilder n b s) = s"

fun b_parent :: "builder \<Rightarrow> bref option" where
  "b_parent (GroupBuilder i n a gs ds ls s p) = p"
| "b_parent (DatasetBuilder i n a d t m s p) = p"
| "b_parent (RegionBuilder i n a b r s p) = p"
| "b_parent (LinkBuilder n b s) = None"

text \<open>The builder as a link or a reference points to it.\<close>

definition ref_of :: "builder \<Rightarrow> bref" where
  "ref_of b = BRef (b_name b) (b_source b) (b_parent b)"

definition ROOT_NAME :: string where
  "ROOT_NAME = ''root''"

text \<open>
  \<^verbatim>\<open>__get_path\<close>: the names from the builder upwards, until there is no parent or a
  builder named \<^verbatim>\<open>'root'\<close> is met, reversed.
\<close>

fun path_names :: "bref option \<Rightarrow> string list" where
  "path_names None = []"
| "path_names (Some (BRef n s p)) = (if n = ROOT_NAME then [] else n # path_names p)"

definition get_path :: "bref \<Rightarrow> h5path" where
  "get_path b = rev (path_names (Some b))"

section \<open>The state of an \<^verbatim>\<open>HDF5IO\<close> object and of the files\<close>

text \<open>
  An h5py \<^verbatim>\<open>File\<close> object (its file name, and whether it was opened for writing)
  and a handle to a group or dataset (\<^verbatim>\<open>.file\<close> and \<^verbatim>\<open>.name\<close>).
\<close>

record h5file =
  filename :: string
  writable :: bool

record h5obj =
  obj_file :: h5file
  obj_name :: h5path

text \<open>
  The actions of the reference queue. Each is a closure \<^verbatim>\<open>_filler\<close> of
  \<^verbatim>\<open>write_dataset\<close>, given by the variables it closes over: for a compound
  dataset the parent, name, rows, reference columns, resolved type and attributes; for
  a region or object reference the parent, name, target, region (absent when the
  builder has no attribute \<^verbatim>\<open>region\<close>), type and attributes.
\<close>

datatype deferred =
    Filler_rows h5obj string dsdata "nat list" "h5dtype" "(string \<times> pydata) list"
  | Filler_region h5obj string target "region option" h5dtype "(string \<times> pydata) list"
  | Filler_object h5obj string target h5dtype "(string \<times> pydata) list"

text \<open>
  The calls that change a file, and the call of a queued action, in the order in which
  they happen.
\<close>

datatype event =
    Ev_create_group string h5path
  | Ev_create_dataset string h5path
  | Ev_write_data string h5path
  | Ev_set_link string h5path
  | Ev_set_attr string h5path string
  | Ev_call deferred

text \<open>
  The fields of \<^verbatim>\<open>HDF5IO\<close> (\<^verbatim>\<open>__path\<close>, \<^verbatim>\<open>__mode\<close>, \<^verbatim>\<open>manager\<close> as the
  function from containers to the builders it builds, \<^verbatim>\<open>__built\<close>, \<^verbatim>\<open>__file\<close>,
  \<^verbatim>\<open>__read\<close>, \<^verbatim>\<open>__ref_queue\<close>) and the world around it: the files by name, the
  file names with a \<^verbatim>\<open>File\<close> object that is open (one entry for each), the events so
  far, and the next object identity.
\<close>

record hdf5io =
  io_path :: string
  io_mode :: string
  io_manager :: "nat \<Rightarrow> bref"
  io_built :: "(string \<times> (h5path \<times> builder) list) list"
  io_file :: "h5file option"
  io_read :: "(string \<times> builder) list"
  io_ref_queue :: "deferred list"
  files :: "string \<Rightarrow> h5node option"
  open_handles :: "string list"
  trace :: "event list"
  next_oid :: nat

text \<open>
  A method is a function from the state to a result and a state: the state is kept
  on an error too, as a raised exception leaves what was done before it.
\<close>

type_synonym 'a io = "hdf5io \<Rightarrow> (error + 'a) \<times> hdf5io"

definition io_return :: "'a \<Rightarrow> 'a io" where
  "io_return a st = (Inr a, st)"

definition io_raise :: "error \<Rightarrow> 'a io" where
  "io_raise e st = (Inl e, st)"

definition io_bind :: "'a io \<Rightarrow> ('a \<Rightarrow> 'b io) \<Rightarrow> 'b io" where
  "io_bind m f st = (case m st of (Inl e, st') \<Rightarrow> (Inl e, st') | (Inr a, st') \<Rightarrow> f a st')"

definition io_lift :: "error + 'a \<Rightarrow> 'a io" where
  "io_lift r st = (r, st)"

text \<open>\<^verbatim>\<open>try: m except Exception as exc: raise_from(Exception(msg), exc)\<close>\<close>

definition io_reraise :: "string \<Rightarrow> 'a io \<Rightarrow> 'a io" where
  "io_reraise msg m st =
     (case m st of (Inl exc, st') \<Rightarrow> (Inl (Exception msg exc), st') | (Inr a, st') \<Rightarrow> (Inr a, st'))"

fun io_foreach :: "'a list \<Rightarrow> ('a \<Rightarrow> unit io) \<Rightarrow> unit io" where
  "io_foreach [] f = io_return ()"
| "io_foreach (x # xs) f = io_bind (f x) (\<lambda>u. io_foreach xs f)"

fun io_fold :: "'a list \<Rightarrow> 'b \<Rightarrow> ('a \<Rightarrow> 'b \<Rightarrow> 'b io) \<Rightarrow> 'b io" where
  "io_fold [] acc f = io_return acc"
| "io_fold (x # xs) acc f = io_bind (f x acc) (\<lambda>acc'. io_fold xs acc' f)"

lemma io_foreach_cong [fundef_cong]:
  "xs = ys \<Longrightarrow> (\<And>x. x \<in> set ys \<Longrightarrow> f x = g x) \<Longrightarrow> io_foreach xs f = io_foreach ys g"
  by (induction ys arbitrary: xs) auto

subsection \<open>The calls on h5py objects\<close>

text \<open>
  \<^verbatim>\<open>File(path, mode)\<close>: \<^verbatim>\<open>r\<close> and \<^verbatim>\<open>r+\<close> need the file, \<^verbatim>\<open>w\<close> makes an
  empty one, \<^verbatim>\<open>w-\<close> and \<^verbatim>\<open>x\<close> refuse an existing one, \<^verbatim>\<open>a\<close> makes one when
  there is none. The new \<^verbatim>\<open>File\<close> object is open.
\<close>

definition h5_File :: "string \<Rightarrow> string \<Rightarrow> h5file io" where
  "h5_File path mode st =
     (let exists = (files st path \<noteq> None);
          created = st\<lparr>files := (files st)(path \<mapsto> H5Group [] []),
                       open_handles := open_handles st @ [path]\<rparr>;
          opened = st\<lparr>open_handles := open_handles st @ [path]\<rparr>
      in if mode = ''r'' then
           (if exists then (Inr \<lparr>filename = path, writable = False\<rparr>, opened)
            else (Inl (OSError ''Unable to open file (no such file)''), st))
         else if mode = ''r+'' then
           (if exists then (Inr \<lparr>filename = path, writable = True\<rparr>, opened)
            else (Inl (OSError ''Unable to open file (no such file)''), st))
         else if mode = ''w'' then (Inr \<lparr>filename = path, writable = True\<rparr>, created)
         else if mode = ''w-'' \<or> mode = ''x'' then
           (if exists then (Inl (OSError ''Unable to create file (file exists)''), st)
            else (Inr \<lparr>filename = path, writable = True\<rparr>, created))
         else if mode = ''a'' then
           (if exists then (Inr \<lparr>filename = path, writable = True\<rparr>, opened)
            else (Inr \<lparr>filename = path, writable = True\<rparr>, created))
         else (Inl (ValueError ''Invalid mode''), st))"

text \<open>\<^verbatim>\<open>f.close()\<close>: one open \<^verbatim>\<open>File\<close> object of that name less.\<close>

definition h5_close :: "h5file \<Rightarrow> unit io" where
  "h5_close f st = (Inr (), st\<lparr>open_handles := remove1 (filename f) (open_handles st)\<rparr>)"

text \<open>
  A change of the node a handle names, with the event it makes. It fails on a file
  opened for reading only, and leaves the file as it was when the change fails.
\<close>

definition h5_change :: "h5obj \<Rightarrow> (h5node \<Rightarrow> error + h5node) \<Rightarrow> event \<Rightarrow> unit io" where
  "h5_change obj f ev st =
     (if \<not> writable (obj_file obj) then
        (Inl (ValueError ''No write intent on file''), st)
      else
        (case files st (filename (obj_file obj)) of
           None \<Rightarrow> (Inl (ValueError ''Invalid location identifier''), st)
         | Some rt \<Rightarrow>
             (case h5_modify (obj_name obj) f rt of
                Inl e \<Rightarrow> (Inl e, st)
              | Inr rt' \<Rightarrow>
                  (Inr (), st\<lparr>files := (files st)(filename (obj_file obj) \<mapsto> rt'),
                             trace := trace st @ [ev]\<rparr>))))"

definition child :: "h5obj \<Rightarrow> string \<Rightarrow> h5obj" where
  "child parent name = parent\<lparr>obj_name := obj_name parent @ [name]\<rparr>"

definition h5_create_group :: "h5obj \<Rightarrow> string \<Rightarrow> h5obj io" where
  "h5_create_group parent name =
     io_bind
       (h5_change parent (add_member name (HardLink (H5Group [] [])))
          (Ev_create_group (filename (obj_file parent)) (obj_name parent @ [name])))
       (\<lambda>u. io_return (child parent name))"

definition h5_create_dataset :: "h5obj \<Rightarrow> string \<Rightarrow> h5dataset \<Rightarrow> h5obj io" where
  "h5_create_dataset parent name d =
     (if (case ds_maxshape d of None \<Rightarrow> False | Some ms \<Rightarrow> \<not> fits_maxshape (ds_shape d) ms) then
        io_raise (ValueError ''Chunk shape must not be greater than data shape'')
      else
        io_bind
          (h5_change parent (add_member name (HardLink (H5Dataset d)))
             (Ev_create_dataset (filename (obj_file parent)) (obj_name parent @ [name])))
          (\<lambda>u. io_return (child parent name)))"

text \<open>\<^verbatim>\<open>parent[name] = link_obj\<close>\<close>

definition h5_set_link :: "h5obj \<Rightarrow> string \<Rightarrow> h5member \<Rightarrow> unit io" where
  "h5_set_link parent name link_obj =
     h5_change parent (add_member name link_obj)
       (Ev_set_link (filename (obj_file parent)) (obj_name parent @ [name]))"

text \<open>\<^verbatim>\<open>obj.attrs[key] = value\<close>\<close>

definition h5_set_attr :: "h5obj \<Rightarrow> string \<Rightarrow> pydata \<Rightarrow> unit io" where
  "h5_set_attr obj key v =
     h5_change obj (set_attr key v) (Ev_set_attr (filename (obj_file obj)) (obj_name obj) key)"

text \<open>
  A call on a dataset handle that changes the dataset (\<^verbatim>\<open>resize\<close>, item assignment,
  the loop over chunks): what was written before an error stays written.
\<close>

definition h5_on_dataset :: "h5obj \<Rightarrow> (h5dataset \<Rightarrow> (error + unit) \<times> h5dataset) \<Rightarrow> unit io" where
  "h5_on_dataset dset f st =
     (case h5_resolve (files st) (filename (obj_file dset)) (obj_name dset) of
        Some (fname, p, H5Dataset d) \<Rightarrow>
          (case f d of
             (r, d') \<Rightarrow>
               (case h5_change dset (\<lambda>n. Inr (H5Dataset d'))
                       (Ev_write_data (filename (obj_file dset)) (obj_name dset)) st of
                  (Inl e, st') \<Rightarrow> (Inl e, st')
                | (Inr u, st') \<Rightarrow> (r, st')))
      | _ \<Rightarrow> (Inl (ValueError ''Not a dataset''), st))"

section \<open>Writing\<close>

definition io_open :: "unit io" where
  "io_open st =
     (case h5_File (io_path st) (io_mode st) st of
        (Inl e, st') \<Rightarrow> (Inl e, st')
      | (Inr f, st') \<Rightarrow> (Inr (), st'\<lparr>io_file := Some f\<rparr>))"

definition io_close :: "unit io" where
  "io_close st =
     (case io_file st of
        None \<Rightarrow> (Inl (AttributeError ''NoneType object has no attribute close''), st)
      | Some f \<Rightarrow> h5_close f st)"

text \<open>The file object as a handle to its root group.\<close>

definition root_of :: "h5file \<Rightarrow> h5obj" where
  "root_of f = \<lparr>obj_file = f, obj_name = []\<rparr>"

definition io_the_file :: "h5obj io" where
  "io_the_file st =
     (case io_file st of
        None \<Rightarrow> (Inl (AttributeError ''NoneType object has no attribute''), st)
      | Some f \<Rightarrow> (Inr (root_of f), st))"

fun path_str :: "h5path \<Rightarrow> string" where
  "path_str [] = ''/''"
| "path_str [n] = ''/'' @ n"
| "path_str (n # ns) = ''/'' @ n @ path_str ns"

subsection \<open>Attributes\<close>

text \<open>
  \<^verbatim>\<open>set_attributes\<close>: a non-empty list whose first element is a string becomes an
  array of fixed-length strings, which needs the length of every element.
\<close>

fun has_len :: "pydata \<Rightarrow> bool" where
  "has_len (PyStr s) = True"
| "has_len (PySeq xs) = True"
| "has_len x = False"

fun attr_value :: "pydata \<Rightarrow> error + pydata" where
  "attr_value (PySeq (PyStr s # rest)) =
     (if list_all has_len rest then Inr (PySeq (PyStr s # rest))
      else Inl (TypeError ''object has no len()''))"
| "attr_value v = Inr v"

definition set_attributes :: "h5obj \<Rightarrow> (string \<times> pydata) list \<Rightarrow> unit io" where
  "set_attributes obj attributes =
     io_foreach attributes
       (\<lambda>kv. io_bind (io_lift (attr_value (snd kv))) (\<lambda>v. h5_set_attr obj (fst kv) v))"

subsection \<open>Links\<close>

definition write_link :: "h5obj \<Rightarrow> builder \<Rightarrow> h5member io" where
  "write_link parent b =
     (case b of
        LinkBuilder name target_builder src \<Rightarrow>
          (let path = get_path (ref_of target_builder)
           in if Some (filename (obj_file parent)) = b_source target_builder then
                io_bind (h5_set_link parent name (SoftLink path)) (\<lambda>u. io_return (SoftLink path))
              else
                (case b_source target_builder of
                   Some tsrc \<Rightarrow>
                     io_bind (h5_set_link parent name (ExternalLink tsrc path))
                       (\<lambda>u. io_return (ExternalLink tsrc path))
                 | None \<Rightarrow>
                     io_raise (ValueError (''cannot create external link to '' @ path_str path))))
      | _ \<Rightarrow> io_raise (TypeError ''incorrect type for builder: expected LinkBuilder''))"

subsection \<open>References\<close>

text \<open>
  \<^verbatim>\<open>dset.regionref[region]\<close>: the selection must fit the dataset; a region given by
  a region reference selects what that reference selects.
\<close>

definition h5_regionref :: "h5path \<Rightarrow> h5dataset \<Rightarrow> region \<Rightarrow> error + h5ref" where
  "h5_regionref p d r =
     (case r of
        RegionSel sel \<Rightarrow>
          (case sel_positions (ds_shape d) sel of
             Inl e \<Rightarrow> Inl e
           | Inr ps \<Rightarrow> Inr (RegionReference p sel))
      | RegionRef (RegionReference q sel) \<Rightarrow>
          (case sel_positions (ds_shape d) sel of
             Inl e \<Rightarrow> Inl e
           | Inr ps \<Rightarrow> Inr (RegionReference p sel))
      | RegionRef (ObjectReference q) \<Rightarrow> Inl (TypeError ''Illegal index''))"

text \<open>
  \<^verbatim>\<open>__get_ref\<close>. A container is built by the manager; a builder is its own; of a
  link builder the attribute \<^verbatim>\<open>target_builder\<close> is read, which a \<^verbatim>\<open>LinkBuilder\<close>
  (name, builder, source) does not have; for any other value the local variable
  \<^verbatim>\<open>builder\<close> is unbound. \<^verbatim>\<open>self.__file[path]\<close> raises \<^verbatim>\<open>KeyError\<close> when
  nothing is at the path.
\<close>

fun ref_builder :: "hdf5io \<Rightarrow> target \<Rightarrow> error + bref" where
  "ref_builder st (TContainer c) = Inr (io_manager st c)"
| "ref_builder st (TBuilder b) = Inr b"
| "ref_builder st (TLinkBuilder b) =
     Inl (AttributeError ''LinkBuilder object has no attribute target_builder'')"

definition get_ref :: "pydata \<Rightarrow> region option \<Rightarrow> h5ref io" where
  "get_ref container region st =
     (case container of
        PyObj t \<Rightarrow>
          (case ref_builder st t of
             Inl e \<Rightarrow> (Inl e, st)
           | Inr builder \<Rightarrow>
               (let path = get_path builder
                in case io_file st of
                     None \<Rightarrow> (Inl (TypeError ''NoneType object is not subscriptable''), st)
                   | Some f \<Rightarrow>
                       (case h5_resolve (files st) (filename f) path of
                          None \<Rightarrow> (Inl (KeyError (path_str path)), st)
                        | Some (fname, p, node) \<Rightarrow>
                            (case region of
                               None \<Rightarrow> (Inr (ObjectReference p), st)
                             | Some r \<Rightarrow>
                                 (case node of
                                    H5Group attrs members \<Rightarrow>
                                      (Inl (ValueError ''cannot create region reference without Dataset''), st)
                                  | H5Dataset d \<Rightarrow> (h5_regionref p d r, st))))))
      | _ \<Rightarrow> (Inl (NameError ''local variable builder referenced before assignment''), st))"

definition queue_ref :: "deferred \<Rightarrow> unit io" where
  "queue_ref func st = (Inr (), st\<lparr>io_ref_queue := io_ref_queue st @ [func]\<rparr>)"

text \<open>\<^verbatim>\<open>list(item)\<close> for a row of a compound dataset.\<close>

fun py_list :: "pydata \<Rightarrow> error + pydata list" where
  "py_list (PySeq xs) = Inr xs"
| "py_list (PyStr s) = Inr (map (\<lambda>c. PyStr [c]) s)"
| "py_list x = Inl (TypeError ''object is not iterable'')"

text \<open>
  Iterating over the data of a dataset. Rows are taken from a sized sequence or a
  string; data of the other kinds is not followed row by row.
\<close>

fun py_iter :: "dsdata \<Rightarrow> error + pydata list" where
  "py_iter (DataArray xs) = Inr xs"
| "py_iter (DataStr s) = Inr (map (\<lambda>c. PyStr [c]) s)"
| "py_iter d = Inl (TypeError ''object is not iterable'')"

text \<open>The three closures \<^verbatim>\<open>_filler\<close> of \<^verbatim>\<open>write_dataset\<close>, when they are called.\<close>

definition fill_item :: "nat list \<Rightarrow> pydata \<Rightarrow> pydata io" where
  "fill_item refs item =
     io_bind (io_lift (py_list item))
       (\<lambda>fields.
          io_bind
            (io_fold refs fields
               (\<lambda>i new_item.
                  if i < length fields then
                    io_bind (get_ref (fields ! i) None)
                      (\<lambda>r. io_return (new_item[i := PyRef r]))
                  else io_raise (IndexError ''list index out of range'')))
            (\<lambda>new_item. io_return (PySeq new_item)))"

fun run_filler :: "deferred \<Rightarrow> unit io" where
  "run_filler (Filler_rows parent name data refs dt attributes) =
     io_bind (io_lift (py_iter data))
       (\<lambda>items.
          io_bind
            (io_fold items []
               (\<lambda>item ret. io_bind (fill_item refs item) (\<lambda>new_item. io_return (ret @ [new_item]))))
            (\<lambda>ret.
               io_bind (h5_create_dataset parent name (empty_dataset (Some dt) [length ret] None))
                 (\<lambda>dset.
                    io_bind (h5_on_dataset dset (h5_setitem (SelSlice None None None) (PySeq ret)))
                      (\<lambda>u. set_attributes dset attributes))))"
| "run_filler (Filler_region parent name t region dt attributes) =
     (case region of
        None \<Rightarrow> io_raise (AttributeError ''DatasetBuilder object has no attribute region'')
      | Some r \<Rightarrow>
          io_bind (get_ref (PyObj t) (Some r))
            (\<lambda>ref.
               io_bind (h5_create_dataset parent name (dataset_of_data (Some dt) (PyRef ref)))
                 (\<lambda>dset. set_attributes dset attributes)))"
| "run_filler (Filler_object parent name t dt attributes) =
     io_bind (get_ref (PyObj t) None)
       (\<lambda>ref.
          io_bind (h5_create_dataset parent name (dataset_of_data (Some dt) (PyRef ref)))
            (\<lambda>dset. set_attributes dset attributes))"

subsection \<open>The reference queue\<close>

text \<open>
  The calls above change the files and add events, and nothing else of the state: in
  particular a queued action leaves the queue alone, so the loop of \<^verbatim>\<open>__add_refs\<close>
  ends.
\<close>

definition store_only :: "'a io \<Rightarrow> bool" where
  "store_only m \<longleftrightarrow>
     (\<forall>st. snd (m st) = st\<lparr>files := files (snd (m st)), trace := trace (snd (m st))\<rparr>)"

lemma store_onlyI:
  "(\<And>st. snd (m st) = st\<lparr>files := files (snd (m st)), trace := trace (snd (m st))\<rparr>) \<Longrightarrow> store_only m"
  by (simp add: store_only_def)

lemma store_only_return [intro!, simp]: "store_only (io_return a)"
  by (simp add: store_only_def io_return_def)

lemma store_only_raise [intro!, simp]: "store_only (io_raise e)"
  by (simp add: store_only_def io_raise_def)

lemma store_only_lift [intro!, simp]: "store_only (io_lift r)"
  by (simp add: store_only_def io_lift_def)

lemma store_only_bind [intro!]:
  assumes "store_only m" "\<And>a. store_only (f a)"
  shows "store_only (io_bind m f)"
proof (rule store_onlyI)
  fix st
  obtain r st1 where m: "m st = (r, st1)" by (cases "m st")
  have 1: "st1 = st\<lparr>files := files st1, trace := trace st1\<rparr>"
    using assms(1) m unfolding store_only_def by (metis snd_conv)
  show "snd (io_bind m f st) = st\<lparr>files := files (snd (io_bind m f st)), trace := trace (snd (io_bind m f st))\<rparr>"
  proof (cases r)
    case (Inl e)
    then show ?thesis using m 1 by (simp add: io_bind_def)
  next
    case (Inr a)
    have 2: "snd (f a st1) = st1\<lparr>files := files (snd (f a st1)), trace := trace (snd (f a st1))\<rparr>"
      using assms(2)[of a] unfolding store_only_def by blast
    have "snd (f a st1) = st\<lparr>files := files (snd (f a st1)), trace := trace (snd (f a st1))\<rparr>"
      by (subst 2, subst 1) simp
    then show ?thesis using m Inr by (simp add: io_bind_def)
  qed
qed

lemma store_only_reraise [intro!]:
  "store_only m \<Longrightarrow> store_only (io_reraise msg m)"
  unfolding store_only_def io_reraise_def
  by (auto split: prod.splits sum.splits) (metis snd_conv)+

lemma store_only_foreach [intro!]:
  "(\<And>x. x \<in> set xs \<Longrightarrow> store_only (f x)) \<Longrightarrow> store_only (io_foreach xs f)"
  by (induction xs) auto

lemma store_only_fold [intro!]:
  "(\<And>x acc. store_only (f x acc)) \<Longrightarrow> store_only (io_fold xs acc f)"
  by (induction xs arbitrary: acc) auto

lemma store_only_change [intro!, simp]: "store_only (h5_change obj f ev)"
  by (auto simp: store_only_def h5_change_def split: option.splits sum.splits)

lemma on_dataset_state:
  "snd (h5_on_dataset dset f st) = st \<or>
   (\<exists>g ev. snd (h5_on_dataset dset f st) = snd (h5_change dset g ev st))"
  unfolding h5_on_dataset_def
  by (auto split: option.splits sum.splits prod.splits h5node.splits) (metis snd_conv)+

lemma store_only_on_dataset [intro!, simp]: "store_only (h5_on_dataset dset f)"
proof (rule store_onlyI)
  fix st
  from on_dataset_state[of dset f st]
  show "snd (h5_on_dataset dset f st) =
         st\<lparr>files := files (snd (h5_on_dataset dset f st)), trace := trace (snd (h5_on_dataset dset f st))\<rparr>"
  proof
    assume "snd (h5_on_dataset dset f st) = st"
    then show ?thesis by simp
  next
    assume "\<exists>g ev. snd (h5_on_dataset dset f st) = snd (h5_change dset g ev st)"
    then obtain g ev where e: "snd (h5_on_dataset dset f st) = snd (h5_change dset g ev st)" by blast
    have "snd (h5_change dset g ev st) = st\<lparr>files := files (snd (h5_change dset g ev st)), trace := trace (snd (h5_change dset g ev st))\<rparr>"
      using store_only_change[of dset g ev] unfolding store_only_def by blast
    then show ?thesis using e by simp
  qed
qed

lemma store_only_create_group [intro!, simp]: "store_only (h5_create_group parent name)"
  unfolding h5_create_group_def by auto

lemma store_only_create_dataset [intro!, simp]: "store_only (h5_create_dataset parent name d)"
  unfolding h5_create_dataset_def by auto

lemma store_only_set_link [intro!, simp]: "store_only (h5_set_link parent name l)"
  unfolding h5_set_link_def by auto

lemma store_only_set_attr [intro!, simp]: "store_only (h5_set_attr obj k v)"
  unfolding h5_set_attr_def by auto

lemma store_only_set_attributes [intro!, simp]: "store_only (set_attributes obj attrs)"
  unfolding set_attributes_def by auto

lemma get_ref_state: "snd (get_ref c r st) = st"
  by (simp add: get_ref_def Let_def
      split: pydata.splits option.splits prod.splits h5node.splits sum.splits)

lemma store_only_get_ref [intro!, simp]: "store_only (get_ref c r)"
  by (simp add: store_only_def get_ref_state)

lemma store_only_fill_item [intro!, simp]: "store_only (fill_item refs item)"
  unfolding fill_item_def by auto

lemma store_only_run_filler [intro!, simp]: "store_only (run_filler d)"
  by (cases d) (auto split: option.splits)

lemma store_only_queue:
  assumes "store_only m" "m st = (r, st')"
  shows "io_ref_queue st' = io_ref_queue st"
proof -
  have "snd (m st) = st\<lparr>files := files (snd (m st)), trace := trace (snd (m st))\<rparr>"
    using assms(1) unfolding store_only_def by blast
  then have "st' = st\<lparr>files := files st', trace := trace st'\<rparr>"
    using assms(2) by simp
  then have "io_ref_queue st' = io_ref_queue (st\<lparr>files := files st', trace := trace st'\<rparr>)"
    by simp
  then show ?thesis by simp
qed

text \<open>
  \<^verbatim>\<open>__add_refs\<close>: while the queue is not empty, pop its last action and call it.
\<close>

function add_refs :: "unit io" where
  "add_refs st =
     (if length (io_ref_queue st) > 0 then
        (case run_filler (last (io_ref_queue st))
                (st\<lparr>io_ref_queue := butlast (io_ref_queue st),
                    trace := trace st @ [Ev_call (last (io_ref_queue st))]\<rparr>) of
           (Inl e, st') \<Rightarrow> (Inl e, st')
         | (Inr u, st') \<Rightarrow> add_refs st')
      else (Inr (), st))"
  by pat_completeness auto
termination
  apply (relation "measure (\<lambda>st. length (io_ref_queue st))")
  subgoal by simp
  subgoal for st x st' u
    using store_only_queue[OF store_only_run_filler, of "last (io_ref_queue st)" _ "Inr u" st']
    by simp
  done

declare add_refs.simps [simp del]

subsection \<open>Datasets\<close>

text \<open>
  Modelled from the spec: the constants \<^verbatim>\<open>OBJECT_REF_TYPE\<close> and
  \<^verbatim>\<open>REGION_REF_TYPE\<close> of \<^verbatim>\<open>DatasetBuilder\<close> (module \<^verbatim>\<open>build\<close>), the tags of
  the object reference and of the region reference, and \<^verbatim>\<open>get_shape\<close> (module
  \<^verbatim>\<open>data_utils\<close>), which measures nested sequences by successive length lookups
  along first elements until an element without a length is reached (a string is taken
  as such an element).
\<close>

definition OBJECT_REF_TYPE :: string where
  "OBJECT_REF_TYPE = ''object''"

definition REGION_REF_TYPE :: string where
  "REGION_REF_TYPE = ''region''"

fun get_shape :: "pydata \<Rightarrow> nat list" where
  "get_shape (PySeq []) = [0]"
| "get_shape (PySeq (x # xs)) = Suc (length xs) # get_shape x"
| "get_shape x = []"

text \<open>\<^verbatim>\<open>__is_ref\<close> on the type of a field of a compound descriptor.\<close>

fun is_ref :: "dtype_desc \<Rightarrow> bool" where
  "is_ref (DRefSpec r) = True"
| "is_ref (DTag s) = (s = OBJECT_REF_TYPE \<or> s = REGION_REF_TYPE)"
| "is_ref d = False"

text \<open>
  The type of a builder read from a file is a numpy type, which
  \<^verbatim>\<open>__resolve_dtype_helper__\<close> tries to iterate over, and which is no key of the
  table.
\<close>

definition resolve_builder_dtype :: "builder_dtype \<Rightarrow> pydata \<Rightarrow> error + h5dtype" where
  "resolve_builder_dtype dt data =
     (case dt of
        Descriptor d \<Rightarrow> resolve_dtype d data
      | NumpyDtype t \<Rightarrow> Inl (TypeError ''numpy.dtype object is not iterable''))"

text \<open>\<^verbatim>\<open>self.__dtypes[dtype]\<close>\<close>

definition dtypes_index :: "builder_dtype \<Rightarrow> error + h5dtype" where
  "dtypes_index dt =
     (case dt of
        Descriptor (DTag s) \<Rightarrow> (case dtypes_get s of Some t \<Rightarrow> Inr t | None \<Rightarrow> Inl (KeyError s))
      | Descriptor DNone \<Rightarrow> Inl (KeyError ''None'')
      | Descriptor (DRefSpec r) \<Rightarrow> Inl (TypeError ''unhashable type: dict'')
      | Descriptor (DFields fs) \<Rightarrow> Inl (TypeError ''unhashable type: list'')
      | NumpyDtype t \<Rightarrow> Inl (KeyError ''dtype''))"

text \<open>
  \<^verbatim>\<open>isinstance(dtype, np.dtype)\<close>: the special types of h5py and the compound type
  are numpy dtype objects, the scalar types of the table and Python classes are not.
\<close>

fun is_np_dtype :: "h5dtype \<Rightarrow> bool" where
  "is_np_dtype Vlen_text = True"
| "is_np_dtype Vlen_bytes = True"
| "is_np_dtype Ref_object = True"
| "is_np_dtype Ref_region = True"
| "is_np_dtype (Np_compound fs) = True"
| "is_np_dtype t = False"

text \<open>The data of a dataset as the sample the type resolver looks at.\<close>

fun sample_of :: "dsdata \<Rightarrow> pydata" where
  "sample_of (DataStr s) = PyStr s"
| "sample_of (DataArray xs) = PySeq xs"
| "sample_of (DataScalar v) = v"
| "sample_of (DataBuilder t) = PyObj t"
| "sample_of d = PyNone"

definition scalar_fill :: "h5obj \<Rightarrow> string \<Rightarrow> pydata \<Rightarrow> builder_dtype \<Rightarrow> h5obj io" where
  "scalar_fill parent name data dt =
     io_bind (io_lift (resolve_builder_dtype dt data))
       (\<lambda>dtype.
          io_reraise (''Could not create scalar dataset '' @ name @ '' in '' @ path_str (obj_name parent))
            (h5_create_dataset parent name (dataset_of_data (Some dtype) data)))"

definition chunked_iter_fill :: "h5obj \<Rightarrow> string \<Rightarrow> data_chunk_iterator \<Rightarrow> h5obj io" where
  "chunked_iter_fill parent name data =
     io_bind
       (io_reraise (''Could not create dataset '' @ name @ '' in '' @ path_str (obj_name parent))
          (h5_create_dataset parent name
             (empty_dataset (dci_dtype data) (recommended_data_shape data) (dci_max_shape data))))
       (\<lambda>dset.
          io_bind (h5_on_dataset dset (fill_chunks (dci_chunks data)))
            (\<lambda>u. io_return dset))"

definition list_fill :: "h5obj \<Rightarrow> string \<Rightarrow> dsdata \<Rightarrow> builder_dtype \<Rightarrow> h5obj io" where
  "list_fill parent name data dtype_spec =
     io_bind (io_lift (resolve_builder_dtype dtype_spec (sample_of data)))
       (\<lambda>dtype.
          case data of
            DataArray xs \<Rightarrow>
              (let data_shape = (if is_np_dtype dtype then [length xs] else get_shape (PySeq xs))
               in io_bind
                    (io_reraise (''Could not create dataset '' @ name @ '' in '' @ path_str (obj_name parent))
                       (h5_create_dataset parent name (empty_dataset (Some dtype) data_shape None)))
                    (\<lambda>dset.
                       io_bind
                         (if length xs > data_shape ! 0
                          then h5_on_dataset dset (h5_resize (data_shape[0 := length xs]))
                          else io_return ())
                         (\<lambda>u.
                            io_bind (h5_on_dataset dset (h5_setitem (SelSlice None None None) (PySeq xs)))
                              (\<lambda>u. io_return dset))))
          | _ \<Rightarrow> io_raise (TypeError ''object has no len()''))"

text \<open>
  What \<^verbatim>\<open>write_dataset\<close> reads from its builder: name, data, attributes, type and,
  for a region builder, the region. Modelled from the spec: a region builder is a
  dataset builder whose data is the referenced builder and whose type is the region
  reference tag.
\<close>

fun dataset_view ::
  "builder \<Rightarrow> (string \<times> dsdata \<times> (string \<times> pydata) list \<times> builder_dtype \<times> region option) option" where
  "dataset_view (DatasetBuilder i n a d t m s p) = Some (n, d, a, t, None)"
| "dataset_view (RegionBuilder i n a b r s p) =
     Some (n, DataBuilder (TBuilder (ref_of b)), a, Descriptor (DTag REGION_REF_TYPE), Some r)"
| "dataset_view b = None"

text \<open>
  The second part of \<^verbatim>\<open>write_dataset\<close>: the dispatch on the kind of data when the
  type is not a list. A container is no builder and has no length: it is written as a
  scalar.
\<close>

definition write_plain ::
  "h5obj \<Rightarrow> string \<Rightarrow> dsdata \<Rightarrow> (string \<times> pydata) list \<Rightarrow> builder_dtype \<Rightarrow> region option
     \<Rightarrow> h5obj option io" where
  "write_plain parent name data attributes dtype region =
     (let finish = (\<lambda>dset. io_bind (set_attributes dset attributes) (\<lambda>u. io_return (Some dset)))
      in case data of
           DataStr s \<Rightarrow> io_bind (scalar_fill parent name (PyStr s) (Descriptor DNone)) finish
         | DataChunks it \<Rightarrow> io_bind (chunked_iter_fill parent name it) finish
         | DataH5 fname dname \<Rightarrow>
             io_bind
               (h5_set_link parent name
                  (if fname \<noteq> filename (obj_file parent) then ExternalLink fname dname
                   else SoftLink dname))
               (\<lambda>u. io_return None)
         | DataBuilder (TContainer c) \<Rightarrow>
             io_bind (scalar_fill parent name (PyObj (TContainer c)) dtype) finish
         | DataBuilder t \<Rightarrow>
             io_bind (io_lift (dtypes_index dtype))
               (\<lambda>dt.
                  if dtype = Descriptor (DTag ''region'') then
                    io_bind (queue_ref (Filler_region parent name t region dt attributes))
                      (\<lambda>u. io_return None)
                  else
                    io_bind (queue_ref (Filler_object parent name t dt attributes))
                      (\<lambda>u. io_return None))
         | DataIterable it \<Rightarrow> io_bind (chunked_iter_fill parent name it) finish
         | DataArray xs \<Rightarrow> io_bind (list_fill parent name data dtype) finish
         | DataScalar v \<Rightarrow> io_bind (scalar_fill parent name v dtype) finish)"

definition write_dataset :: "h5obj \<Rightarrow> builder \<Rightarrow> h5obj option io" where
  "write_dataset parent b =
     (case dataset_view b of
        None \<Rightarrow> io_raise (TypeError ''incorrect type for builder: expected DatasetBuilder'')
      | Some (name, data, attributes, dtype, region) \<Rightarrow>
          (case dtype of
             Descriptor (DFields fs) \<Rightarrow>
               (let refs = filter (\<lambda>i. is_ref (snd (fs ! i))) [0..<length fs]
                in if length refs > 0 then
                     io_bind (io_lift (resolve_dtype (DFields fs) (sample_of data)))
                       (\<lambda>dt.
                          io_bind (queue_ref (Filler_rows parent name data refs dt attributes))
                            (\<lambda>u. io_return None))
                   else
                     io_bind (list_fill parent name data dtype)
                       (\<lambda>dset. io_bind (set_attributes dset attributes) (\<lambda>u. io_return (Some dset))))
           | _ \<Rightarrow> write_plain parent name data attributes dtype region))"

subsection \<open>Groups and the whole tree\<close>

lemma size_member:
  "x \<in> set xs \<Longrightarrow> size (snd x) < Suc (size_list (size_prod (\<lambda>n. 0) size) xs)"
  by (induction xs) (auto simp: less_Suc_eq trans_less_add2)

fun write_group :: "h5obj \<Rightarrow> builder \<Rightarrow> h5obj io" where
  "write_group parent (GroupBuilder i name attributes groups datasets links src par) =
     io_bind (h5_create_group parent name)
       (\<lambda>group.
          io_bind
            (io_foreach groups (\<lambda>sub. io_bind (write_group group (snd sub)) (\<lambda>g. io_return ())))
            (\<lambda>u.
               io_bind
                 (io_foreach datasets
                    (\<lambda>sub. io_bind (write_dataset group (snd sub)) (\<lambda>d. io_return ())))
                 (\<lambda>u.
                    io_bind
                      (io_foreach links
                         (\<lambda>sub. io_bind (write_link group (snd sub)) (\<lambda>l. io_return ())))
                      (\<lambda>u. io_bind (set_attributes group attributes) (\<lambda>u. io_return group)))))"
| "write_group parent b = io_raise (TypeError ''incorrect type for builder: expected GroupBuilder'')"

text \<open>
  \<^verbatim>\<open>write_builder\<close>: open the file, write the groups and the datasets of the root
  builder and its attributes, then add the references.
\<close>

definition write_builder :: "builder \<Rightarrow> unit io" where
  "write_builder f_builder =
     (case f_builder of
        GroupBuilder i name attributes groups datasets links src par \<Rightarrow>
          io_bind io_open
            (\<lambda>u. io_bind io_the_file
               (\<lambda>file.
                  io_bind
                    (io_foreach groups
                       (\<lambda>sub. io_bind (write_group file (snd sub)) (\<lambda>g. io_return ())))
                    (\<lambda>u.
                       io_bind
                         (io_foreach datasets
                            (\<lambda>sub. io_bind (write_dataset file (snd sub)) (\<lambda>d. io_return ())))
                         (\<lambda>u. io_bind (set_attributes file attributes) (\<lambda>u. add_refs)))))
      | _ \<Rightarrow> io_raise (TypeError ''incorrect type for builder: expected GroupBuilder''))"

section \<open>Reading\<close>

text \<open>
  \<^verbatim>\<open>__get_built\<close> and \<^verbatim>\<open>__set_built\<close> on the nested dict \<^verbatim>\<open>__built\<close>; the
  latter is two \<^verbatim>\<open>setdefault\<close> calls, which keep what is there.
\<close>

definition get_built :: "string \<Rightarrow> h5path \<Rightarrow> builder option io" where
  "get_built fpath path st =
     (case map_of (io_built st) fpath of
        None \<Rightarrow> (Inr None, st)
      | Some fdict \<Rightarrow> (if fdict = [] then (Inr None, st) else (Inr (map_of fdict path), st)))"

definition set_built :: "string \<Rightarrow> h5path \<Rightarrow> builder \<Rightarrow> unit io" where
  "set_built fpath path b st =
     (let built = (case map_of (io_built st) fpath of
                     None \<Rightarrow> io_built st @ [(fpath, [])]
                   | Some fdict \<Rightarrow> io_built st);
          fdict = (case map_of built fpath of None \<Rightarrow> [] | Some d \<Rightarrow> d)
      in (Inr (),
          st\<lparr>io_built :=
               (case map_of fdict path of
                  None \<Rightarrow> dict_set fpath (fdict @ [(path, b)]) built
                | Some old \<Rightarrow> built)\<rparr>))"

text \<open>A new Python object takes the next identity.\<close>

definition new_oid :: "nat io" where
  "new_oid st = (Inr (next_oid st), st\<lparr>next_oid := Suc (next_oid st)\<rparr>)"

definition self_path :: "string io" where
  "self_path st = (Inr (io_path st), st)"

text \<open>\<^verbatim>\<open>os.path.basename\<close> of the name of an object.\<close>

definition basename :: "h5path \<Rightarrow> string" where
  "basename p = (if p = [] then [] else last p)"

text \<open>
  The node behind a handle; \<^verbatim>\<open>h5obj.get(k)\<close>, which follows links and is
  \<^verbatim>\<open>None\<close> when nothing is reached; \<^verbatim>\<open>h5obj.get(k, getlink=True)\<close>; and
  \<^verbatim>\<open>h5obj.file[ref]\<close> for a reference.
\<close>

definition node_at :: "h5obj \<Rightarrow> h5node io" where
  "node_at obj st =
     (case h5_resolve (files st) (filename (obj_file obj)) (obj_name obj) of
        None \<Rightarrow> (Inl (KeyError (path_str (obj_name obj))), st)
      | Some (fname, p, node) \<Rightarrow> (Inr node, st))"

definition h5_get :: "h5obj \<Rightarrow> string \<Rightarrow> (h5obj \<times> h5node) option io" where
  "h5_get obj k st =
     (case h5_resolve (files st) (filename (obj_file obj)) (obj_name obj @ [k]) of
        None \<Rightarrow> (Inr None, st)
      | Some (fname, p, node) \<Rightarrow>
          (Inr (Some (\<lparr>obj_file = (obj_file obj)\<lparr>filename := fname\<rparr>, obj_name = p\<rparr>, node)), st))"

definition h5_deref :: "h5obj \<Rightarrow> h5path \<Rightarrow> (h5obj \<times> h5node) io" where
  "h5_deref obj p st =
     (case h5_resolve (files st) (filename (obj_file obj)) p of
        None \<Rightarrow> (Inl (ValueError ''Unable to dereference object''), st)
      | Some (fname, q, node) \<Rightarrow>
          (Inr (\<lparr>obj_file = (obj_file obj)\<lparr>filename := fname\<rparr>, obj_name = q\<rparr>, node), st))"

text \<open>
  \<^verbatim>\<open>h5obj[()]\<close> of a scalar dataset and \<^verbatim>\<open>list(h5obj[()])\<close> of a one-dimensional
  one; a cell never written reads as \<^verbatim>\<open>None\<close> here. \<^verbatim>\<open>h5obj.maxshape\<close> of a
  dataset that cannot be resized is its shape. The types equal to
  \<^verbatim>\<open>np.dtype('O')\<close> are the special types of h5py.
\<close>

definition cell :: "h5dataset \<Rightarrow> nat list \<Rightarrow> pydata" where
  "cell d idx = (case ds_cells d idx of None \<Rightarrow> PyNone | Some v \<Rightarrow> v)"

definition h5_maxshape :: "h5dataset \<Rightarrow> nat option list option" where
  "h5_maxshape d = (case ds_maxshape d of None \<Rightarrow> Some (map Some (ds_shape d)) | Some ms \<Rightarrow> Some ms)"

fun is_object_dtype :: "h5dtype option \<Rightarrow> bool" where
  "is_object_dtype (Some Vlen_text) = True"
| "is_object_dtype (Some Vlen_bytes) = True"
| "is_object_dtype (Some Ref_object) = True"
| "is_object_dtype (Some Ref_region) = True"
| "is_object_dtype t = False"

text \<open>The kind of data a scalar read from a file is to \<^verbatim>\<open>write_dataset\<close>.\<close>

fun data_of_scalar :: "pydata \<Rightarrow> dsdata" where
  "data_of_scalar (PyStr s) = DataStr s"
| "data_of_scalar v = DataScalar v"

text \<open>
  \<^verbatim>\<open>__read_dataset\<close>. Python bounds the depth of recursion: the first argument is
  the depth left, and \<^verbatim>\<open>RecursionError\<close> is raised when it is used up. The
  constructors of the builders are called with no parent.
\<close>

fun read_dataset :: "nat \<Rightarrow> h5obj \<Rightarrow> h5node \<Rightarrow> string option \<Rightarrow> builder io" where
  "read_dataset 0 h5o node name = io_raise RecursionError"
| "read_dataset (Suc depth) h5o (H5Group attrs members) name =
     io_raise (AttributeError ''Group object has no attribute dtype'')"
| "read_dataset (Suc depth) h5o (H5Dataset d) name =
     (let nm = (case name of None \<Rightarrow> basename (obj_name h5o) | Some n \<Rightarrow> n)
      in io_bind self_path
           (\<lambda>src.
              if length (ds_shape d) = 0 then
                (case cell d [] of
                   PyRef (RegionReference p sel) \<Rightarrow>
                     io_bind (h5_deref h5o p)
                       (\<lambda>target.
                          io_bind (read_dataset depth (fst target) (snd target) None)
                            (\<lambda>target_builder.
                               io_bind
                                 (set_built (filename (obj_file (fst target))) (obj_name (fst target))
                                    target_builder)
                                 (\<lambda>u.
                                    io_bind new_oid
                                      (\<lambda>i. io_return
                                              (RegionBuilder i nm (ds_attrs d) target_builder
                                                 (RegionRef (RegionReference p sel)) (Some src) None)))))
                 | scalar \<Rightarrow>
                     io_bind new_oid
                       (\<lambda>i. io_return
                               (DatasetBuilder i nm (ds_attrs d) (data_of_scalar scalar)
                                  (NumpyDtype (ds_dtype d)) (h5_maxshape d) (Some src) None)))
              else if length (ds_shape d) = 1 \<and> is_object_dtype (ds_dtype d) then
                io_bind new_oid
                  (\<lambda>i. io_return
                          (DatasetBuilder i nm (ds_attrs d)
                             (DataArray (map (\<lambda>k. cell d [k]) [0..<ds_shape d ! 0]))
                             (NumpyDtype (ds_dtype d)) (h5_maxshape d) (Some src) None))
              else
                io_bind new_oid
                  (\<lambda>i. io_return
                          (DatasetBuilder i nm (ds_attrs d)
                             (DataH5 (filename (obj_file h5o)) (obj_name h5o))
                             (NumpyDtype (ds_dtype d)) (h5_maxshape d) (Some src) None))))"

text \<open>
  \<^verbatim>\<open>__read_group\<close>. The three dicts of \<^verbatim>\<open>kwargs\<close> go through the loop over the
  members; a link is filed under the last component of its target path, a group or
  dataset under the name of its builder.
\<close>

fun is_dataset :: "h5node \<Rightarrow> bool" where
  "is_dataset (H5Dataset d) = True"
| "is_dataset (H5Group attrs members) = False"

type_synonym kwargs =
  "(string \<times> builder) list \<times> (string \<times> builder) list \<times> (string \<times> builder) list"

fun read_group :: "nat \<Rightarrow> h5obj \<Rightarrow> h5node \<Rightarrow> string option \<Rightarrow> builder io" where
  "read_group 0 h5o node name = io_raise RecursionError"
| "read_group (Suc depth) h5o (H5Dataset d) name =
     io_raise (TypeError ''Dataset object is not iterable by name'')"
| "read_group (Suc depth) h5o (H5Group attrs members) name =
     (let nm = (case name of None \<Rightarrow> basename (obj_name h5o) | Some n \<Rightarrow> n)
      in io_bind
           (io_fold members ([], [], [])
              (\<lambda>member (kw :: kwargs).
                 io_bind (h5_get h5o (fst member))
                   (\<lambda>sub.
                      case snd member of
                        HardLink n \<Rightarrow>
                          (case sub of
                             None \<Rightarrow> io_raise (AttributeError ''NoneType object has no attribute file'')
                           | Some (sub_h5obj, sub_node) \<Rightarrow>
                               io_bind (get_built (filename (obj_file sub_h5obj)) (obj_name sub_h5obj))
                                 (\<lambda>cached.
                                    io_bind
                                      (case cached of
                                         Some b \<Rightarrow> io_return b
                                       | None \<Rightarrow>
                                           io_bind
                                             (if is_dataset sub_node
                                              then read_dataset depth sub_h5obj sub_node None
                                              else read_group depth sub_h5obj sub_node None)
                                             (\<lambda>b. io_bind
                                                    (set_built (filename (obj_file sub_h5obj))
                                                       (obj_name sub_h5obj) b)
                                                    (\<lambda>u. io_return b)))
                                      (\<lambda>b. io_return
                                              (if is_dataset sub_node
                                               then (fst kw, dict_set (b_name b) b (fst (snd kw)), snd (snd kw))
                                               else (dict_set (b_name b) b (fst kw), fst (snd kw), snd (snd kw))))))
                      | link \<Rightarrow>
                          (let target_path = (case link of SoftLink p \<Rightarrow> p | ExternalLink f p \<Rightarrow> p | HardLink n \<Rightarrow> []);
                               builder_name = basename target_path
                           in case sub of
                                None \<Rightarrow> io_raise (AttributeError ''NoneType object has no attribute file'')
                              | Some (sub_h5obj, sub_node) \<Rightarrow>
                                  io_bind (get_built (filename (obj_file sub_h5obj)) target_path)
                                    (\<lambda>cached.
                                       io_bind
                                         (case cached of
                                            Some b \<Rightarrow> io_return b
                                          | None \<Rightarrow>
                                              io_bind
                                                (if is_dataset sub_node
                                                 then read_dataset depth sub_h5obj sub_node (Some builder_name)
                                                 else read_group depth sub_h5obj sub_node (Some builder_name))
                                                (\<lambda>b. io_bind
                                                       (set_built (filename (obj_file sub_h5obj)) target_path b)
                                                       (\<lambda>u. io_return b)))
                                         (\<lambda>b. io_bind self_path
                                                 (\<lambda>src. io_return
                                                         (fst kw, fst (snd kw),
                                                          dict_set builder_name
                                                            (LinkBuilder (fst member) b (Some src))
                                                            (snd (snd kw))))))))))
           (\<lambda>kw.
              io_bind self_path
                (\<lambda>src.
                   io_bind new_oid
                     (\<lambda>i. io_return
                             (GroupBuilder i nm attrs (fst kw) (fst (snd kw)) (snd (snd kw))
                                (Some src) None)))))"

text \<open>
  \<^verbatim>\<open>read_builder\<close>. The dict \<^verbatim>\<open>__read\<close> is keyed by the file object, here by its
  name. \<open>recursion_limit\<close> is the depth Python allows.
\<close>

definition recursion_limit :: nat where
  "recursion_limit = 1000"

definition read_builder :: "builder io" where
  "read_builder =
     io_bind io_open
       (\<lambda>u. io_bind io_the_file
          (\<lambda>file st.
             case map_of (io_read st) (filename (obj_file file)) of
               Some f_builder \<Rightarrow> (Inr f_builder, st)
             | None \<Rightarrow>
                 io_bind (node_at file)
                   (\<lambda>node.
                      io_bind (read_group recursion_limit file node (Some ROOT_NAME))
                        (\<lambda>f_builder st'.
                           (Inr f_builder,
                            st'\<lparr>io_read := dict_set (filename (obj_file file)) f_builder (io_read st')\<rparr>)))
                   st))"

section \<open>Shape validation of \<^verbatim>\<open>FeatureExtraction\<close>\<close>

text \<open>
  Modelled from the spec: \<^verbatim>\<open>assertEqualShape\<close> of the module \<^verbatim>\<open>data_utils\<close>,
  which is not among the sources. It compares the extent of one axis of a first array
  with the extent of one axis of a second; its result says whether they agree, and
  its message names both arrays and both axes when they do not. An extent that is not
  determined (\<^verbatim>\<open>None\<close>) is ignored when \<^verbatim>\<open>ignore_undetermined\<close> is set. An
  array is given by its shape.
\<close>

record shape_validator_result =
  sv_result :: bool
  sv_message :: string

text \<open>A number in decimal digits.\<close>

fun digits :: "nat \<Rightarrow> string" where
  "digits n = (if n < 10 then [''0123456789'' ! n] else digits (n div 10) @ [''0123456789'' ! (n mod 10)])"

declare digits.simps [simp del]

definition assertEqualShape ::
  "nat option list \<Rightarrow> nat option list \<Rightarrow> nat \<Rightarrow> nat \<Rightarrow> string \<Rightarrow> string \<Rightarrow> bool
     \<Rightarrow> shape_validator_result" where
  "assertEqualShape shape1 shape2 axes1 axes2 name1 name2 ignore_undetermined =
     (let mismatch = \<lparr>sv_result = False,
                      sv_message = ''Axis '' @ digits axes1 @ '' of '' @ name1
                        @ '' did not match axis '' @ digits axes2 @ '' of '' @ name2\<rparr>;
          agree = \<lparr>sv_result = True, sv_message = ''All required axes matched''\<rparr>
      in if length shape1 \<le> axes1 \<or> length shape2 \<le> axes2 then mismatch
         else (case (shape1 ! axes1, shape2 ! axes2) of
                 (Some a, Some b) \<Rightarrow> if a = b then agree else mismatch
               | _ \<Rightarrow> if ignore_undetermined then agree else mismatch))"

text \<open>
  \<^verbatim>\<open>FeatureExtraction.__init__\<close>. The decorator \<^verbatim>\<open>docval\<close> has checked before
  that \<^verbatim>\<open>electrodes\<close>, \<^verbatim>\<open>description\<close> and \<^verbatim>\<open>times\<close> have one
  dimension and \<^verbatim>\<open>features\<close> three: the arguments are the extents. The three
  validators are computed first; the loop then collects the messages of all that
  failed, and \<^verbatim>\<open>ValueError\<close> is raised with the collected text.
\<close>

record feature_extraction =
  fe_name :: string
  fe_electrodes :: "nat option"
  fe_description :: "nat option"
  fe_times :: "nat option"
  fe_features :: "nat option \<times> nat option \<times> nat option"

definition shape_validators ::
  "nat option \<Rightarrow> nat option \<Rightarrow> nat option \<Rightarrow> nat option \<times> nat option \<times> nat option
     \<Rightarrow> shape_validator_result list" where
  "shape_validators electrodes description tms features =
     (let fshape = [fst features, fst (snd features), snd (snd features)]
      in [assertEqualShape fshape [tms] 0 0 ''feature_shape'' ''times'' True,
          assertEqualShape fshape [electrodes] 1 0 ''feature_shape'' ''electrodes'' True,
          assertEqualShape fshape [description] 2 0 ''feature_shape'' ''description'' True])"

definition FeatureExtraction_init ::
  "nat option \<Rightarrow> nat option \<Rightarrow> nat option \<Rightarrow> nat option \<times> nat option \<times> nat option \<Rightarrow> string
     \<Rightarrow> error + feature_extraction" where
  "FeatureExtraction_init electrodes description tms features name =
     (let acc = fold (\<lambda>sv (raise_error, error_msg).
                        (raise_error \<or> \<not> sv_result sv,
                         if \<not> sv_result sv then error_msg @ sv_message sv @ [CHR 0x0A] else error_msg))
                  (shape_validators electrodes description tms features) (False, [])
      in if fst acc then Inl (ValueError (snd acc))
         else Inr \<lparr>fe_name = name, fe_electrodes = electrodes, fe_description = description,
                   fe_times = tms, fe_features = features\<rparr>)"

section \<open>A new \<^verbatim>\<open>HDF5IO\<close> object\<close>

text \<open>
  \<^verbatim>\<open>HDF5IO.__init__\<close> with the files that exist: nothing built, no file object,
  nothing read, an empty reference queue.
\<close>

definition HDF5IO_init :: "string \<Rightarrow> (nat \<Rightarrow> bref) \<Rightarrow> string \<Rightarrow> (string \<Rightarrow> h5node option) \<Rightarrow> hdf5io" where
  "HDF5IO_init path manager mode disk =
     \<lparr>io_path = path, io_mode = mode, io_manager = manager, io_built = [], io_file = None,
      io_read = [], io_ref_queue = [], files = disk, open_handles = [], trace = [], next_oid = 0\<rparr>"

section \<open>Events of a write session\<close>

text \<open>The queued actions called in a list of events, in the order of the calls.\<close>

fun calls :: "event list \<Rightarrow> deferred list" where
  "calls [] = []"
| "calls (Ev_call d # es) = d # calls es"
| "calls (e # es) = calls es"

text \<open>
  The part of \<^verbatim>\<open>write_builder\<close> before the call of \<^verbatim>\<open>__add_refs\<close>: the file is
  opened, and the groups, the datasets and the attributes of the root are written.
\<close>

definition write_structure :: "builder \<Rightarrow> unit io" where
  "write_structure f_builder =
     (case f_builder of
        GroupBuilder i name attributes groups datasets links src par \<Rightarrow>
          io_bind io_open
            (\<lambda>u. io_bind io_the_file
               (\<lambda>file.
                  io_bind
                    (io_foreach groups
                       (\<lambda>sub. io_bind (write_group file (snd sub)) (\<lambda>g. io_return ())))
                    (\<lambda>u.
                       io_bind
                         (io_foreach datasets
                            (\<lambda>sub. io_bind (write_dataset file (snd sub)) (\<lambda>d. io_return ())))
                         (\<lambda>u. set_attributes file attributes))))
      | _ \<Rightarrow> io_raise (TypeError ''incorrect type for builder: expected GroupBuilder''))"

text \<open>
  A tree with a group and two datasets that hold an object reference to the group.
\<close>

definition two_refs :: builder where
  "two_refs =
     GroupBuilder 0 ''root'' []
       [(''g'', GroupBuilder 1 ''g'' [] [] [] [] None None)]
       [(''r1'', DatasetBuilder 2 ''r1'' []
                  (DataBuilder (TBuilder (BRef ''g'' None (Some (BRef ''root'' None None)))))
                  (Descriptor (DTag ''object'')) None None None),
        (''r2'', DatasetBuilder 3 ''r2'' []
                  (DataBuilder (TBuilder (BRef ''g'' None (Some (BRef ''root'' None None)))))
                  (Descriptor (DTag ''object'')) None None None)]
       [] None None"

section \<open>Trees for round trips\<close>

text \<open>
  A tree with a group, a dataset of three integers and a region of the first two of
  them, and the file it is written to.
\<close>

definition region_tree :: builder where
  "region_tree =
     GroupBuilder 0 ''root'' []
       [(''grp'', GroupBuilder 1 ''grp'' [] [] [] [] None (Some (BRef ''root'' None None)))]
       [(''pos'', DatasetBuilder 2 ''pos'' [] (DataArray [PyInt 1, PyInt 2, PyInt 3])
                    (Descriptor (DTag ''int32'')) None None (Some (BRef ''root'' None None))),
        (''sel'', RegionBuilder 3 ''sel'' []
                    (DatasetBuilder 2 ''pos'' [] (DataArray [PyInt 1, PyInt 2, PyInt 3])
                       (Descriptor (DTag ''int32'')) None None (Some (BRef ''root'' None None)))
                    (RegionSel (SelSlice (Some 0) (Some 2) None)) None
                    (Some (BRef ''root'' None None)))]
       [] None None"

definition region_file :: h5node where
  "region_file =
     H5Group []
       [(''grp'', HardLink (H5Group [] [])),
        (''pos'', HardLink (H5Dataset
                    \<lparr>ds_attrs = [], ds_dtype = Some Np_int32, ds_shape = [3], ds_maxshape = None,
                     ds_cells = [[0] \<mapsto> PyInt 1, [1] \<mapsto> PyInt 2, [2] \<mapsto> PyInt 3]\<rparr>)),
        (''sel'', HardLink (H5Dataset
                    \<lparr>ds_attrs = [], ds_dtype = Some Ref_region, ds_shape = [], ds_maxshape = None,
                     ds_cells = [[] \<mapsto> PyRef (RegionReference [''pos'']
                                                 (SelSlice (Some 0) (Some 2) None))]\<rparr>))]"

text \<open>
  A tree whose root has two groups and a link to the first of them, the same link
  being also in the second group.
\<close>

definition linked_tree :: builder where
  "linked_tree =
     GroupBuilder 0 ''root'' []
       [(''g'', GroupBuilder 1 ''g'' [] [] [] [] (Some ''a.h5'')
                  (Some (BRef ''root'' (Some ''a.h5'') None))),
        (''h'', GroupBuilder 2 ''h'' [] [] []
                  [(''l'', LinkBuilder ''l''
                             (GroupBuilder 1 ''g'' [] [] [] [] (Some ''a.h5'')
                                (Some (BRef ''root'' (Some ''a.h5'') None)))
                             (Some ''a.h5''))]
                  (Some ''a.h5'') (Some (BRef ''root'' (Some ''a.h5'') None)))]
       []
       [(''l'', LinkBuilder ''l''
                  (GroupBuilder 1 ''g'' [] [] [] [] (Some ''a.h5'')
                     (Some (BRef ''root'' (Some ''a.h5'') None)))
                  (Some ''a.h5''))]
       (Some ''a.h5'') None"

definition linked_file :: h5node where
  "linked_file =
     H5Group []
       [(''g'', HardLink (H5Group [] [])),
        (''h'', HardLink (H5Group [] [(''l'', SoftLink [''g''])]))]"

text \<open>An \<^verbatim>\<open>HDF5IO\<close> object that has opened the file of the region tree.\<close>

definition region_session :: hdf5io where
  "region_session =
     snd (io_open (HDF5IO_init ''a.h5'' (\<lambda>c. BRef [] None None) ''r+'' [''a.h5'' \<mapsto> region_file]))"

section \<open>The deferred actions of a tree\<close>

text \<open>
  The action \<^verbatim>\<open>write_dataset\<close> queues for a builder, if it queues one: for a
  compound type with a reference field the filler of the rows, and for data that is a
  builder the filler of the region reference or of the object reference; none when
  the type cannot be resolved, and none for any other dataset.
\<close>

definition dataset_deferred :: "h5obj \<Rightarrow> builder \<Rightarrow> deferred list" where
  "dataset_deferred parent b =
     (case dataset_view b of
        None \<Rightarrow> []
      | Some (name, data, attributes, dtype, region) \<Rightarrow>
          (case dtype of
             Descriptor (DFields fs) \<Rightarrow>
               (let refs = filter (\<lambda>i. is_ref (snd (fs ! i))) [0..<length fs]
                in if length refs > 0 then
                     (case resolve_dtype (DFields fs) (sample_of data) of
                        Inl e \<Rightarrow> []
                      | Inr dt \<Rightarrow> [Filler_rows parent name data refs dt attributes])
                   else [])
           | _ \<Rightarrow>
               (case data of
                  DataBuilder (TContainer c) \<Rightarrow> []
                | DataBuilder t \<Rightarrow>
                    (case dtypes_index dtype of
                       Inl e \<Rightarrow> []
                     | Inr dt \<Rightarrow>
                         [if dtype = Descriptor (DTag ''region'')
                          then Filler_region parent name t region dt attributes
                          else Filler_object parent name t dt attributes])
                | _ \<Rightarrow> [])))"

text \<open>
  The actions queued for a group, in the order in which \<^verbatim>\<open>write_group\<close> goes
  through it (the sub-groups, then the datasets), and for the root builder.
\<close>

fun group_deferred :: "h5obj \<Rightarrow> builder \<Rightarrow> deferred list" where
  "group_deferred parent (GroupBuilder i name attributes groups datasets links src par) =
     concat (map (\<lambda>sub. group_deferred (child parent name) (snd sub)) groups)
     @ concat (map (\<lambda>sub. dataset_deferred (child parent name) (snd sub)) datasets)"
| "group_deferred parent b = []"

definition root_deferred :: "h5obj \<Rightarrow> builder \<Rightarrow> deferred list" where
  "root_deferred file b =
     (case b of
        GroupBuilder i name attributes groups datasets links src par \<Rightarrow>
          concat (map (\<lambda>sub. group_deferred file (snd sub)) groups)
          @ concat (map (\<lambda>sub. dataset_deferred file (snd sub)) datasets)
      | _ \<Rightarrow> [])"

text \<open>
  Calling the actions of a list one after the other, each popped from the end of the
  queue before its call, until one fails.
\<close>

fun drain :: "deferred list \<Rightarrow> unit io" where
  "drain [] = io_return ()"
| "drain (d # ds) =
     io_bind
       (\<lambda>st. run_filler d (st\<lparr>io_ref_queue := butlast (io_ref_queue st),
                              trace := trace st @ [Ev_call d]\<rparr>))
       (\<lambda>u. drain ds)"

section \<open>Paths of hard links and grown files\<close>

text \<open>
  The node at a path made of hard links only, and the relation between a group and
  the group it has become when a member was added to it or to a group below it.
\<close>

fun hard_at :: "h5node \<Rightarrow> h5path \<Rightarrow> h5node option" where
  "hard_at node [] = Some node"
| "hard_at (H5Dataset d) (k # ks) = None"
| "hard_at (H5Group attrs members) (k # ks) =
     (case map_of members k of
        Some (HardLink n) \<Rightarrow> hard_at n ks
      | _ \<Rightarrow> None)"

inductive grown :: "h5node \<Rightarrow> h5node \<Rightarrow> bool" where
  grown_refl: "grown n n"
| grown_add: "k \<notin> fst ` set ms \<Longrightarrow> grown (H5Group a ms) (H5Group a (ms @ [(k, m)]))"
| grown_in: "map_of ms k = Some (HardLink n) \<Longrightarrow> grown n n' \<Longrightarrow>
     grown (H5Group a ms) (H5Group a (dict_set k (HardLink n') ms))"

section \<open>Properties of dtype resolution\<close>

text \<open>
  C2, as the source has it. A descriptor that \<^verbatim>\<open>__resolve_dtype_helper__\<close> maps to a
  type (a tag or reference kind of the table, or a list of fields) decides the result
  alone, whatever the data. When the helper gives \<^verbatim>\<open>None\<close> (no descriptor, or a
  tag that is not in the table) the data is looked at as for no descriptor: a string
  is variable-length text, a scalar has its own class, a sequence has the type of its
  first element, and an empty sequence makes the resolution fail. The data
  \<^verbatim>\<open>[1.5, 2.5]\<close> with no descriptor resolves to the class of floating-point numbers.
\<close>

theorem resolve_dtype_descriptor_priority:
  "resolve_dtype d data =
     (case resolve_dtype_helper d of
        Some t \<Rightarrow> Inr t
      | None \<Rightarrow> resolve_dtype DNone data)
   \<and> resolve_dtype_helper (DTag ''float64'') = Some Np_float64
   \<and> resolve_dtype_helper (DRefSpec ''region'') = Some Ref_region
   \<and> resolve_dtype_helper (DFields fs) =
       Some (Np_compound (map (\<lambda>x. (fst x, resolve_dtype_helper (snd x))) fs))
   \<and> resolve_dtype DNone (PyStr s) = Inr Vlen_text
   \<and> resolve_dtype DNone (PySeq (x # xs)) = resolve_dtype DNone x
   \<and> resolve_dtype DNone (PyInt i) = Inr (Py_class Py_int)
   \<and> resolve_dtype DNone (PyFloat r) = Inr (Py_class Py_float)
   \<and> resolve_dtype DNone (PyBool b) = Inr (Py_class Py_bool)
   \<and> isl (resolve_dtype DNone (PySeq []))
   \<and> resolve_dtype DNone (PySeq [PyFloat 1.5, PyFloat 2.5]) = Inr (Py_class Py_float)"
  by (simp add: resolve_dtype_def dtypes_get_def dtypes_table_def split: option.splits)

text \<open>
  C2 as stated fails: the tag \<^verbatim>\<open>uint64\<close> is a descriptor, is not in the table, and
  the result then depends on the data.
\<close>

theorem resolve_dtype_unknown_tag_inspects_data:
  "\<not> (\<forall>d data1 data2. d \<noteq> DNone \<longrightarrow> resolve_dtype d data1 = resolve_dtype d data2)"
proof
  assume a: "\<forall>d data1 data2. d \<noteq> DNone \<longrightarrow> resolve_dtype d data1 = resolve_dtype d data2"
  have "resolve_dtype (DTag ''uint64'') (PyStr ''a'') = resolve_dtype (DTag ''uint64'') (PySeq [])"
    using a by blast
  then show False
    by (simp add: resolve_dtype_def dtypes_get_def dtypes_table_def)
qed

section \<open>Properties of chunked writing\<close>

lemma grow_shape_length:
  "grow_shape k bs sh = Inr (g, sh') \<Longrightarrow> length sh' = length sh"
proof (induction k bs sh arbitrary: g sh' rule: grow_shape.induct)
  case (1 i shape)
  then show ?case by simp
next
  case (2 i vs shape)
  then show ?case by simp
next
  case (3 i v vs shape)
  show ?case
  proof (cases "int (shape ! i) < v")
    case True
    with 3(3) obtain g0 sh0 where r: "grow_shape (i + 1) vs shape = Inr (g0, sh0)" and s: "sh' = sh0[i := nat v]"
      by (simp split: if_splits sum.splits prod.splits)
    from 3(3) have kl: "\<not> length shape \<le> i" by (simp split: if_splits)
    show ?thesis using 3(1)[OF kl True r] s by simp
  next
    case False
    from 3(3) have kl: "\<not> length shape \<le> i" by (simp split: if_splits)
    with 3(3) False have r: "grow_shape (i + 1) vs shape = Inr (g, sh')"
      by simp
    have F: "\<not> int (shape ! i) < v" using False by simp
    show ?thesis using 3(2)[OF kl F r] by simp
  qed
next
  case (4 i bs vs shape)
  then show ?case by (simp split: if_splits)
qed


lemma grow_shape_nth:
  "grow_shape k bs sh = Inr (g, sh') \<Longrightarrow>
   sh' ! i =
     (if k \<le> i \<and> i < k + length bs
      then (case bs ! (i - k) of
              BInt v \<Rightarrow> if int (sh ! i) < v then nat v else sh ! i
            | _ \<Rightarrow> sh ! i)
      else sh ! i)"
proof (induction k bs sh arbitrary: g sh' rule: grow_shape.induct)
  case (1 k shape)
  then show ?case by simp
next
  case (2 k vs shape)
  from 2(2) have r: "grow_shape (k + 1) vs shape = Inr (g, sh')" by simp
  note ih = 2(1)[OF r]
  show ?case
  proof (cases "i = k")
    case True
    then show ?thesis using ih by simp
  next
    case False
    then show ?thesis using ih by (simp add: nth_Cons' Suc_diff_le) 
  qed
next
  case (3 k v vs shape)
  from 3(3) have kl: "\<not> length shape \<le> k" by (simp split: if_splits)
  show ?case
  proof (cases "int (shape ! k) < v")
    case True
    with 3(3) obtain g0 sh0 where r: "grow_shape (k + 1) vs shape = Inr (g0, sh0)" and s: "sh' = sh0[k := nat v]"
      by (simp split: if_splits sum.splits prod.splits)
    have l: "length sh0 = length shape" using r by (rule grow_shape_length)
    note ih = 3(1)[OF kl True r]
    show ?thesis
    proof (cases "i = k")
      case T: True
      then show ?thesis using s l kl True by simp
    next
      case False
      then have "sh' ! i = sh0 ! i" using s by simp
      then show ?thesis using ih False by (simp add: nth_Cons' Suc_diff_le)
    qed
  next
    case False
    with 3(3) kl have r: "grow_shape (k + 1) vs shape = Inr (g, sh')"
      by simp
    note ih = 3(2)[OF kl False r]
    show ?thesis
    proof (cases "i = k")
      case True
      then show ?thesis using ih False by simp
    next
      case F: False
      then show ?thesis using ih by (simp add: nth_Cons' Suc_diff_le)
    qed
  qed
next
  case (4 k bs vs shape)
  then show ?case by (simp split: if_splits)
qed

lemma grow_shape_no_expand:
  "grow_shape k bs sh = Inr (False, sh') \<Longrightarrow> sh' = sh"
proof (induction k bs sh arbitrary: sh' rule: grow_shape.induct)
  case (3 k v vs shape)
  from 3(3) have kl: "\<not> length shape \<le> k" by (simp split: if_splits)
  from 3(3) kl have F: "\<not> int (shape ! k) < v" by (auto split: if_splits sum.splits prod.splits)
  with 3(3) kl have r: "grow_shape (k + 1) vs shape = Inr (False, sh')" by simp
  show ?case using 3(2)[OF kl F r] .
qed (simp_all split: if_splits)


lemma h5_resize_ok:
  "h5_resize new d = (Inr u, d') \<Longrightarrow>
     d' = d\<lparr>ds_shape := new, ds_cells := (\<lambda>idx. if in_extent new idx then ds_cells d idx else None)\<rparr>"
  by (simp add: h5_resize_def split: option.splits if_splits)

lemma h5_resize_err:
  "h5_resize new d = (Inl e, d') \<Longrightarrow> d' = d"
  by (simp add: h5_resize_def split: option.splits if_splits)

lemma h5_setitem_shape:
  "h5_setitem sel data d = (r, d') \<Longrightarrow> ds_shape d' = ds_shape d"
  by (auto simp: h5_setitem_def Let_def split: sum.splits if_splits)

lemma h5_setitem_maxshape:
  "h5_setitem sel data d = (r, d') \<Longrightarrow> ds_maxshape d' = ds_maxshape d"
  by (auto simp: h5_setitem_def Let_def split: sum.splits if_splits)

lemma fill_chunk_cases:
  assumes "fill_chunk c d = (Inr u, d')"
  obtains mb g new d1 where
    "selection_max_bounds (chunk_selection c) = Inr mb"
    "grow_shape 0 (case mb of BTuple bs \<Rightarrow> bs | b \<Rightarrow> [b]) (ds_shape d) = Inr (g, new)"
    "ds_shape d1 = new"
    "if g then h5_resize new d = (Inr (), d1) else d1 = d"
    "h5_setitem (chunk_selection c) (chunk_data c) d1 = (Inr u, d')"
proof -
  from assms obtain mb where mb: "selection_max_bounds (chunk_selection c) = Inr mb"
    by (cases "selection_max_bounds (chunk_selection c)") (simp_all add: fill_chunk_def)
  let ?bs = "case mb of BTuple bs \<Rightarrow> bs | b \<Rightarrow> [b]"
  from assms mb obtain g new where gs: "grow_shape 0 ?bs (ds_shape d) = Inr (g, new)"
    by (cases "grow_shape 0 ?bs (ds_shape d)") (auto simp: fill_chunk_def Let_def)
  show thesis
  proof (cases g)
    case True
    with assms mb gs obtain d1 where r: "h5_resize new d = (Inr (), d1)"
      and w: "h5_setitem (chunk_selection c) (chunk_data c) d1 = (Inr u, d')"
      by (auto simp: fill_chunk_def Let_def split: prod.splits sum.splits)
    have "ds_shape d1 = new" using h5_resize_ok[OF r] by simp
    then show ?thesis using that[OF mb gs _ _ w] True r by simp
  next
    case False
    with assms mb gs have w: "h5_setitem (chunk_selection c) (chunk_data c) d = (Inr u, d')"
      by (simp add: fill_chunk_def Let_def)
    from gs False have "grow_shape 0 ?bs (ds_shape d) = Inr (False, new)" by simp
    then have "new = ds_shape d" by (rule grow_shape_no_expand)
    then show ?thesis using that[OF mb gs _ _ w] False by simp
  qed
qed

lemma fill_chunk_growth:
  assumes "fill_chunk c d = (Inr u, d')"
  shows "\<exists>mb d1. selection_max_bounds (chunk_selection c) = Inr mb
      \<and> length (ds_shape d') = length (ds_shape d)
      \<and> (\<forall>i. ds_shape d' ! i =
            (let bs = (case mb of BTuple bs \<Rightarrow> bs | b \<Rightarrow> [b])
             in if i < length bs
                then (case bs ! i of
                        BInt v \<Rightarrow> if int (ds_shape d ! i) < v then nat v else ds_shape d ! i
                      | _ \<Rightarrow> ds_shape d ! i)
                else ds_shape d ! i))
      \<and> ds_shape d1 = ds_shape d'
      \<and> h5_setitem (chunk_selection c) (chunk_data c) d1 = (Inr u, d')"
proof -
  from assms obtain mb g new d1 where
    mb: "selection_max_bounds (chunk_selection c) = Inr mb" and
    gs: "grow_shape 0 (case mb of BTuple bs \<Rightarrow> bs | b \<Rightarrow> [b]) (ds_shape d) = Inr (g, new)" and
    d1: "ds_shape d1 = new" and
    w: "h5_setitem (chunk_selection c) (chunk_data c) d1 = (Inr u, d')"
    by (rule fill_chunk_cases)
  have s: "ds_shape d' = new" using h5_setitem_shape[OF w] d1 by simp
  have l: "length new = length (ds_shape d)" using gs by (rule grow_shape_length)
  have n: "\<And>i. new ! i = (let bs = (case mb of BTuple bs \<Rightarrow> bs | b \<Rightarrow> [b])
             in if i < length bs
                then (case bs ! i of
                        BInt v \<Rightarrow> if int (ds_shape d ! i) < v then nat v else ds_shape d ! i
                      | _ \<Rightarrow> ds_shape d ! i)
                else ds_shape d ! i)"
    using grow_shape_nth[OF gs] by (simp add: Let_def)
  show ?thesis
    using mb s l n d1 w by blast
qed


lemma fold_upd_lookup:
  "distinct (map fst pvs) \<Longrightarrow>
   fold (\<lambda>pv c. c(fst pv \<mapsto> snd pv)) pvs c p =
     (case map_of pvs p of Some v \<Rightarrow> Some v | None \<Rightarrow> c p)"
proof (induction pvs arbitrary: c)
  case Nil
  then show ?case by simp
next
  case (Cons pv pvs)
  then have d: "distinct (map fst pvs)" and n: "fst pv \<notin> fst ` set pvs" by simp_all
  have m: "p = fst pv \<Longrightarrow> map_of pvs p = None"
    using n by (simp add: map_of_eq_None_iff)
  show ?case
    using Cons.IH[OF d, of "c(fst pv \<mapsto> snd pv)"] m
    by (auto split: option.splits)
qed

lemma clip_index_nat: "a \<le> n \<Longrightarrow> clip_index n (int a) = a"
  by (simp add: clip_index_def Let_def)

lemma sel_positions_slice_1d:
  "a \<le> n \<Longrightarrow> b \<le> n \<Longrightarrow>
   sel_positions [n] (SelSlice (Some (int a)) (Some (int b)) None) = Inr (map (\<lambda>i. [i]) [a..<b])"
  by (simp add: sel_positions_def dim_selections_def clip_index_nat)

lemma flatten_floats: "flatten (Suc 0) (PySeq (map PyFloat rs)) = map PyFloat rs"
  by (induction rs) simp_all

lemma map_of_zip_slice:
  "length vs = b - a \<Longrightarrow>
   map_of (zip (map (\<lambda>i. [i]) [a..<b]) vs) [i] =
     (if a \<le> i \<and> i < b then Some (vs ! (i - a)) else None)"
proof (cases "a \<le> i \<and> i < b")
  case True
  let ?ps = "map (\<lambda>i. [i::nat]) [a..<b]"
  assume l: "length vs = b - a"
  have d: "distinct ?ps" by (simp add: distinct_map inj_on_def)
  have k0: "i - a < b - a" using True by arith
  then have k: "i - a < length ?ps" by simp
  have "?ps ! (i - a) = [i]" using True k0 by simp
  moreover have "map_of (zip ?ps vs) (?ps ! (i - a)) = Some (vs ! (i - a))"
    using d k l by (intro map_of_zip_nth) simp_all
  ultimately show ?thesis using True by simp
next
  case False
  assume l: "length vs = b - a"
  have "[i] \<notin> set (map (\<lambda>i. [i]) [a..<b])" using False by auto
  then have "map_of (zip (map (\<lambda>i. [i]) [a..<b]) vs) [i] = None"
    using l by (simp add: map_of_zip_is_None)
  then show ?thesis using False by simp
qed

lemma h5_setitem_slice_1d:
  assumes "ds_shape d = [n]" "a \<le> n" "b \<le> n" "length rs = b - a"
  shows "\<exists>d'. h5_setitem (SelSlice (Some (int a)) (Some (int b)) None) (PySeq (map PyFloat rs)) d = (Inr (), d')
     \<and> ds_shape d' = [n] \<and> ds_maxshape d' = ds_maxshape d
     \<and> (\<forall>i. ds_cells d' [i] = (if a \<le> i \<and> i < b then Some (PyFloat (rs ! (i - a))) else ds_cells d [i]))"
proof -
  let ?ps = "map (\<lambda>i. [i::nat]) [a..<b]"
  let ?vs = "map PyFloat rs"
  have d: "distinct (map fst (zip ?ps ?vs))"
    using assms(4) by (simp add: distinct_map inj_on_def)
  have c: "\<And>i. fold (\<lambda>pv c. c(fst pv \<mapsto> snd pv)) (zip ?ps ?vs) (ds_cells d) [i]
       = (if a \<le> i \<and> i < b then Some (PyFloat (rs ! (i - a))) else ds_cells d [i])"
  proof -
    fix i
    have "a \<le> i \<and> i < b \<Longrightarrow> i - a < length rs" using assms(4) by arith
    then show "fold (\<lambda>pv c. c(fst pv \<mapsto> snd pv)) (zip ?ps ?vs) (ds_cells d) [i]
       = (if a \<le> i \<and> i < b then Some (PyFloat (rs ! (i - a))) else ds_cells d [i])"
      using assms(4) by (simp add: fold_upd_lookup[OF d] map_of_zip_slice)
  qed
  show ?thesis
    using assms c
    by (simp add: h5_setitem_def sel_positions_slice_1d flatten_floats block_rank_def dim_selections_def del: flatten.simps)
qed


text \<open>
  A one-dimensional unlimited dataset that holds exactly the numbers \<open>xs\<close>.
\<close>

definition holds1 :: "h5dataset \<Rightarrow> real list \<Rightarrow> bool" where
  "holds1 d xs \<longleftrightarrow> ds_shape d = [length xs] \<and> ds_maxshape d = Some [None]
      \<and> (\<forall>i<length xs. ds_cells d [i] = Some (PyFloat (xs ! i)))"

lemma fill_chunk_append:
  assumes "holds1 d xs"
  shows "\<exists>d'. fill_chunk \<lparr>chunk_selection = SelSlice (Some (int (length xs))) (Some (int (length xs + length rs))) None,
                           chunk_data = PySeq (map PyFloat rs)\<rparr> d = (Inr (), d')
      \<and> holds1 d' (xs @ rs)"
proof -
  let ?n = "length xs" let ?m = "length xs + length rs"
  let ?sel = "SelSlice (Some (int ?n)) (Some (int ?m)) None"
  from assms have sh: "ds_shape d = [?n]" and ms: "ds_maxshape d = Some [None]"
    and cs: "\<And>i. i < ?n \<Longrightarrow> ds_cells d [i] = Some (PyFloat (xs ! i))"
    by (simp_all add: holds1_def)
  define d1 where "d1 = (if rs = [] then d else
      d\<lparr>ds_shape := [?m], ds_cells := (\<lambda>idx. if in_extent [?m] idx then ds_cells d idx else None)\<rparr>)"
  have d1s: "ds_shape d1 = [?m]" and d1m: "ds_maxshape d1 = Some [None]"
    and d1c: "\<And>i. i < ?n \<Longrightarrow> ds_cells d1 [i] = Some (PyFloat (xs ! i))"
    using sh ms cs by (simp_all add: d1_def in_extent_def)
  have step: "fill_chunk \<lparr>chunk_selection = ?sel, chunk_data = PySeq (map PyFloat rs)\<rparr> d
      = h5_setitem ?sel (PySeq (map PyFloat rs)) d1"
    using sh ms
    by (simp add: fill_chunk_def d1_def h5_resize_def fits_maxshape_def nat_int_add)
  from h5_setitem_slice_1d[OF d1s, of ?n ?m rs]
  obtain d' where w: "h5_setitem ?sel (PySeq (map PyFloat rs)) d1 = (Inr (), d')"
    and s': "ds_shape d' = [?m]" and m': "ds_maxshape d' = ds_maxshape d1"
    and c': "\<And>i. ds_cells d' [i] = (if ?n \<le> i \<and> i < ?m then Some (PyFloat (rs ! (i - ?n))) else ds_cells d1 [i])"
    by auto
  have "holds1 d' (xs @ rs)"
    using s' m' d1m c' d1c by (auto simp: holds1_def nth_append)
  then show ?thesis using step w by simp
qed


lemma three_chunks:
  assumes "length rs1 = 50" "length rs2 = 70" "length rs3 = 17"
  shows "\<exists>d'. fill_chunks
          [\<lparr>chunk_selection = SelSlice (Some 0) (Some 50) None, chunk_data = PySeq (map PyFloat rs1)\<rparr>,
           \<lparr>chunk_selection = SelSlice (Some 50) (Some 120) None, chunk_data = PySeq (map PyFloat rs2)\<rparr>,
           \<lparr>chunk_selection = SelSlice (Some 120) (Some 137) None, chunk_data = PySeq (map PyFloat rs3)\<rparr>]
          (empty_dataset dt [0] (Some [None])) = (Inr (), d')
        \<and> ds_shape d' = [137]
        \<and> map (\<lambda>i. ds_cells d' [i]) [0..<137] = map (\<lambda>r. Some (PyFloat r)) (rs1 @ rs2 @ rs3)"
proof -
  have h0: "holds1 (empty_dataset dt [0] (Some [None])) []" by (simp add: holds1_def empty_dataset_def)
  from fill_chunk_append[OF h0, of rs1] assms(1)
  obtain d1 where f1: "fill_chunk \<lparr>chunk_selection = SelSlice (Some 0) (Some 50) None, chunk_data = PySeq (map PyFloat rs1)\<rparr> (empty_dataset dt [0] (Some [None])) = (Inr (), d1)"
    and h1: "holds1 d1 rs1" by auto
  from fill_chunk_append[OF h1, of rs2] assms(1,2)
  obtain d2 where f2: "fill_chunk \<lparr>chunk_selection = SelSlice (Some 50) (Some 120) None, chunk_data = PySeq (map PyFloat rs2)\<rparr> d1 = (Inr (), d2)"
    and h2: "holds1 d2 (rs1 @ rs2)" by auto
  from fill_chunk_append[OF h2, of rs3] assms
  obtain d3 where f3: "fill_chunk \<lparr>chunk_selection = SelSlice (Some 120) (Some 137) None, chunk_data = PySeq (map PyFloat rs3)\<rparr> d2 = (Inr (), d3)"
    and h3: "holds1 d3 (rs1 @ rs2 @ rs3)" by auto
  define ys where "ys = rs1 @ rs2 @ rs3"
  have l: "length ys = 137" using assms by (simp add: ys_def)
  have h: "holds1 d3 ys" using h3 by (simp add: ys_def)
  have s: "ds_shape d3 = [137]" using h l by (simp add: holds1_def)
  have "map (\<lambda>i. ds_cells d3 [i]) [0..<137] = map (\<lambda>r. Some (PyFloat r)) ys"
  proof (rule nth_equalityI)
    show "length (map (\<lambda>i. ds_cells d3 [i]) [0..<137]) = length (map (\<lambda>r. Some (PyFloat r)) ys)"
      using l by simp
  next
    fix i assume "i < length (map (\<lambda>i. ds_cells d3 [i]) [0..<137])"
    then have i: "i < 137" by simp
    then have "ds_cells d3 [i] = Some (PyFloat (ys ! i))"
      using h l by (simp add: holds1_def)
    then show "map (\<lambda>i. ds_cells d3 [i]) [0..<137] ! i = map (\<lambda>r. Some (PyFloat r)) ys ! i"
      using i l by simp
  qed
  then have c: "map (\<lambda>i. ds_cells d3 [i]) [0..<137] = map (\<lambda>r. Some (PyFloat r)) (rs1 @ rs2 @ rs3)"
    by (simp only: ys_def)
  show ?thesis using f1 f2 f3 s c by simp
qed


lemma collect_nth:
  "collect rs = Inr bs \<Longrightarrow> length bs = length rs \<and> (\<forall>i<length rs. rs ! i = Inr (bs ! i))"
proof (induction rs arbitrary: bs)
  case Nil
  then show ?case by simp
next
  case (Cons r rs)
  then obtain a as where r: "r = Inr a" and c: "collect rs = Inr as" and b: "bs = a # as"
    by (cases r; cases "collect rs") auto
  from Cons.IH[OF c] have l: "length as = length rs" and n: "\<And>i. i < length rs \<Longrightarrow> rs ! i = Inr (as ! i)"
    by simp_all
  show ?case using r b l n by (auto simp: nth_Cons')
qed

lemma last_nonzero:
  assumes "j < length bs" "bs ! j" "\<forall>i. j < i \<and> i < length bs \<longrightarrow> \<not> bs ! i"
  shows "last_nonzero_bound bs = Inr (BInt (int j + 1))"
proof -
  have u: "[0..<length bs] = [0..<j] @ [j] @ [Suc j..<length bs]"
  proof -
    have "[0..<length bs] = [0..<j] @ [j..<length bs]"
      using assms(1) upt_add_eq_append[of 0 j "length bs - j"] by simp
    moreover have "[j..<length bs] = j # [Suc j..<length bs]"
      using assms(1) by (simp add: upt_conv_Cons)
    ultimately show ?thesis by simp
  qed
  have "filter (\<lambda>i. bs ! i) [Suc j..<length bs] = []"
    using assms(3) by (auto simp: filter_empty_conv)
  then have "np_nonzero bs = filter (\<lambda>i. bs ! i) [0..<j] @ [j]"
    unfolding np_nonzero_def by (subst u) (simp add: assms(2))
  then have "np_nonzero bs \<noteq> []" and "last (np_nonzero bs) = j" by simp_all
  then show ?thesis
    by (cases "np_nonzero bs") (simp_all add: last_nonzero_bound_def)
qed

lemma fill_chunk_shape_cases:
  assumes "fill_chunk c d = (r, d')"
  shows "ds_shape d' = ds_shape d \<or>
     (\<exists>mb g new. selection_max_bounds (chunk_selection c) = Inr mb
        \<and> grow_shape 0 (case mb of BTuple bs \<Rightarrow> bs | b \<Rightarrow> [b]) (ds_shape d) = Inr (g, new)
        \<and> ds_shape d' = new)"
proof (cases "selection_max_bounds (chunk_selection c)")
  case (Inl e)
  then show ?thesis using assms by (simp add: fill_chunk_def)
next
  case (Inr mb)
  let ?bs = "case mb of BTuple bs \<Rightarrow> bs | b \<Rightarrow> [b]"
  show ?thesis
  proof (cases "grow_shape 0 ?bs (ds_shape d)")
    case (Inl e)
    then show ?thesis using assms Inr by (simp add: fill_chunk_def)
  next
    case R: (Inr gn)
    obtain g new where gn: "gn = (g, new)" by (cases gn)
    show ?thesis
    proof (cases g)
      case False
      then have "fill_chunk c d = h5_setitem (chunk_selection c) (chunk_data c) d"
        using Inr R gn by (simp add: fill_chunk_def)
      then show ?thesis using assms h5_setitem_shape by metis
    next
      case True
      obtain r1 d1 where rz: "h5_resize new d = (r1, d1)" by (cases "h5_resize new d")
      show ?thesis
      proof (cases r1)
        case (Inl e)
        then have "d1 = d" using rz h5_resize_err by blast
        moreover have "fill_chunk c d = (Inl e, d1)"
          using Inr R gn True rz Inl by (simp add: fill_chunk_def)
        ultimately show ?thesis using assms by simp
      next
        case I: (Inr u)
        then have s1: "ds_shape d1 = new" using rz h5_resize_ok[of new d u d1] by simp
        have "fill_chunk c d = h5_setitem (chunk_selection c) (chunk_data c) d1"
          using Inr R gn True rz I by (simp add: fill_chunk_def)
        then have "ds_shape d' = new" using assms h5_setitem_shape s1 by metis
        then show ?thesis using Inr R gn by simp
      qed
    qed
  qed
qed

text \<open>
  The bounds and the growth as the source computes them. The maximum bound of a
  selection is \<open>index + 1\<close> for an
  integer, the upper bound for a slice that has one, one past the position of the last
  true entry for a boolean mask, and the tuple of the bounds of its parts for a tuple.
  A list of integers is treated like a mask of its non-zero entries. When a chunk is
  written successfully, the extent of the dataset has become, in every dimension, the
  bound where the bound is an integer above the old extent and the old extent
  otherwise, and the values were assigned to a dataset that had this extent already.
  Chunks of 50, 70 and 17 numbers at the selections \<open>[0:50]\<close>, \<open>[50:120]\<close>,
  \<open>[120:137]\<close> on an empty unlimited dataset leave a dataset of extent 137 that
  holds the chunks one after the other.
\<close>

theorem chunked_fill_bounds_and_growth:
  "selection_max_bounds (SelInt k) = Inr (BInt (k + 1))
   \<and> selection_max_bounds (SelSlice start (Some stop) step) = Inr (BInt stop)
   \<and> (j < length bs \<and> bs ! j \<and> (\<forall>i. j < i \<and> i < length bs \<longrightarrow> \<not> bs ! i)
        \<longrightarrow> selection_max_bounds (SelMask bs) = Inr (BInt (int j + 1)))
   \<and> selection_max_bounds (SelFancy js) = selection_max_bounds (SelMask (map (\<lambda>j. j \<noteq> 0) js))
   \<and> (selection_max_bounds (SelTuple ss) = Inr mb
        \<longrightarrow> (\<exists>ms. mb = BTuple ms \<and> length ms = length ss
               \<and> (\<forall>i<length ss. selection_max_bounds (ss ! i) = Inr (ms ! i))))
   \<and> (fst (fill_chunk c d) = Inr ()
        \<longrightarrow> (\<exists>mb d1. selection_max_bounds (chunk_selection c) = Inr mb
               \<and> length (ds_shape (snd (fill_chunk c d))) = length (ds_shape d)
               \<and> (\<forall>i. ds_shape (snd (fill_chunk c d)) ! i =
                     (let vs = (case mb of BTuple ms \<Rightarrow> ms | b \<Rightarrow> [b])
                      in if i < length vs
                         then (case vs ! i of
                                 BInt v \<Rightarrow> if int (ds_shape d ! i) < v then nat v else ds_shape d ! i
                               | _ \<Rightarrow> ds_shape d ! i)
                         else ds_shape d ! i))
               \<and> ds_shape d1 = ds_shape (snd (fill_chunk c d))
               \<and> h5_setitem (chunk_selection c) (chunk_data c) d1 = fill_chunk c d))
   \<and> (length rs1 = 50 \<and> length rs2 = 70 \<and> length rs3 = 17
        \<longrightarrow> (\<exists>d'. fill_chunks
                    [\<lparr>chunk_selection = SelSlice (Some 0) (Some 50) None, chunk_data = PySeq (map PyFloat rs1)\<rparr>,
                     \<lparr>chunk_selection = SelSlice (Some 50) (Some 120) None, chunk_data = PySeq (map PyFloat rs2)\<rparr>,
                     \<lparr>chunk_selection = SelSlice (Some 120) (Some 137) None, chunk_data = PySeq (map PyFloat rs3)\<rparr>]
                    (empty_dataset dt [0] (Some [None])) = (Inr (), d')
                 \<and> ds_shape d' = [137]
                 \<and> map (\<lambda>i. ds_cells d' [i]) [0..<137] = map (\<lambda>r. Some (PyFloat r)) (rs1 @ rs2 @ rs3)))"
proof -
  have tuple: "selection_max_bounds (SelTuple ss) = Inr mb
        \<longrightarrow> (\<exists>ms. mb = BTuple ms \<and> length ms = length ss
               \<and> (\<forall>i<length ss. selection_max_bounds (ss ! i) = Inr (ms ! i)))"
  proof
    assume a: "selection_max_bounds (SelTuple ss) = Inr mb"
    then obtain ms where c: "collect (map selection_max_bounds ss) = Inr ms" and m: "mb = BTuple ms"
      by (cases "collect (map selection_max_bounds ss)") auto
    from collect_nth[OF c] m
    show "\<exists>ms. mb = BTuple ms \<and> length ms = length ss
               \<and> (\<forall>i<length ss. selection_max_bounds (ss ! i) = Inr (ms ! i))"
      by auto
  qed
  have growth: "fst (fill_chunk c d) = Inr ()
        \<longrightarrow> (\<exists>mb d1. selection_max_bounds (chunk_selection c) = Inr mb
               \<and> length (ds_shape (snd (fill_chunk c d))) = length (ds_shape d)
               \<and> (\<forall>i. ds_shape (snd (fill_chunk c d)) ! i =
                     (let vs = (case mb of BTuple ms \<Rightarrow> ms | b \<Rightarrow> [b])
                      in if i < length vs
                         then (case vs ! i of
                                 BInt v \<Rightarrow> if int (ds_shape d ! i) < v then nat v else ds_shape d ! i
                               | _ \<Rightarrow> ds_shape d ! i)
                         else ds_shape d ! i))
               \<and> ds_shape d1 = ds_shape (snd (fill_chunk c d))
               \<and> h5_setitem (chunk_selection c) (chunk_data c) d1 = fill_chunk c d)"
  proof
    assume "fst (fill_chunk c d) = Inr ()"
    then have eq: "fill_chunk c d = (Inr (), snd (fill_chunk c d))"
      by (metis prod.collapse)
    from fill_chunk_growth[OF eq] obtain mb d1 where
      1: "selection_max_bounds (chunk_selection c) = Inr mb" and
      2: "length (ds_shape (snd (fill_chunk c d))) = length (ds_shape d)" and
      3: "\<forall>i. ds_shape (snd (fill_chunk c d)) ! i =
                     (let vs = (case mb of BTuple ms \<Rightarrow> ms | b \<Rightarrow> [b])
                      in if i < length vs
                         then (case vs ! i of
                                 BInt v \<Rightarrow> if int (ds_shape d ! i) < v then nat v else ds_shape d ! i
                               | _ \<Rightarrow> ds_shape d ! i)
                         else ds_shape d ! i)" and
      4: "ds_shape d1 = ds_shape (snd (fill_chunk c d))" and
      5: "h5_setitem (chunk_selection c) (chunk_data c) d1 = (Inr (), snd (fill_chunk c d))"
      by blast
    from 5 eq have 6: "h5_setitem (chunk_selection c) (chunk_data c) d1 = fill_chunk c d" by simp
    from 1 2 3 4 6
    show "\<exists>mb d1. selection_max_bounds (chunk_selection c) = Inr mb
               \<and> length (ds_shape (snd (fill_chunk c d))) = length (ds_shape d)
               \<and> (\<forall>i. ds_shape (snd (fill_chunk c d)) ! i =
                     (let vs = (case mb of BTuple ms \<Rightarrow> ms | b \<Rightarrow> [b])
                      in if i < length vs
                         then (case vs ! i of
                                 BInt v \<Rightarrow> if int (ds_shape d ! i) < v then nat v else ds_shape d ! i
                               | _ \<Rightarrow> ds_shape d ! i)
                         else ds_shape d ! i))
               \<and> ds_shape d1 = ds_shape (snd (fill_chunk c d))
               \<and> h5_setitem (chunk_selection c) (chunk_data c) d1 = fill_chunk c d"
      by blast
  qed
  have b1: "selection_max_bounds (SelInt k) = Inr (BInt (k + 1))" by simp
  have b2: "selection_max_bounds (SelSlice start (Some stop) step) = Inr (BInt stop)" by simp
  have b3: "j < length bs \<and> bs ! j \<and> (\<forall>i. j < i \<and> i < length bs \<longrightarrow> \<not> bs ! i)
        \<longrightarrow> selection_max_bounds (SelMask bs) = Inr (BInt (int j + 1))"
    using last_nonzero[of j bs] by simp
  have b4: "selection_max_bounds (SelFancy js) = selection_max_bounds (SelMask (map (\<lambda>j. j \<noteq> 0) js))"
    by simp
  have ex: "length rs1 = 50 \<and> length rs2 = 70 \<and> length rs3 = 17
        \<longrightarrow> (\<exists>d'. fill_chunks
                    [\<lparr>chunk_selection = SelSlice (Some 0) (Some 50) None, chunk_data = PySeq (map PyFloat rs1)\<rparr>,
                     \<lparr>chunk_selection = SelSlice (Some 50) (Some 120) None, chunk_data = PySeq (map PyFloat rs2)\<rparr>,
                     \<lparr>chunk_selection = SelSlice (Some 120) (Some 137) None, chunk_data = PySeq (map PyFloat rs3)\<rparr>]
                    (empty_dataset dt [0] (Some [None])) = (Inr (), d')
                 \<and> ds_shape d' = [137]
                 \<and> map (\<lambda>i. ds_cells d' [i]) [0..<137] = map (\<lambda>r. Some (PyFloat r)) (rs1 @ rs2 @ rs3))"
    using three_chunks[of rs1 rs2 rs3 dt] by blast
  from b1 b2 b3 b4 tuple growth ex show ?thesis
    by (intro conjI)
qed

text \<open>The hypotheses hold at concrete selections, chunks and datasets.\<close>

theorem chunked_fill_bounds_and_growth_witness:
  "selection_max_bounds (SelMask [True, False, True, False]) = Inr (BInt 3)
   \<and> (\<exists>ms. BTuple [BInt 4, BInt 7] = BTuple ms \<and> length ms = 2
         \<and> selection_max_bounds (SelInt 3) = Inr (ms ! 0)
         \<and> selection_max_bounds (SelSlice None (Some 7) None) = Inr (ms ! 1))
   \<and> ds_shape (snd (fill_chunk \<lparr>chunk_selection = SelSlice (Some 0) (Some 2) None,
                                  chunk_data = PySeq [PyFloat 1, PyFloat 2]\<rparr>
                      (empty_dataset None [0] (Some [None])))) ! 0 = 2
   \<and> (\<exists>d'. fill_chunks
            [\<lparr>chunk_selection = SelSlice (Some 0) (Some 50) None, chunk_data = PySeq (map PyFloat (replicate 50 1))\<rparr>,
             \<lparr>chunk_selection = SelSlice (Some 50) (Some 120) None, chunk_data = PySeq (map PyFloat (replicate 70 2))\<rparr>,
             \<lparr>chunk_selection = SelSlice (Some 120) (Some 137) None, chunk_data = PySeq (map PyFloat (replicate 17 3))\<rparr>]
            (empty_dataset None [0] (Some [None])) = (Inr (), d')
         \<and> ds_shape d' = [137]
         \<and> map (\<lambda>i. ds_cells d' [i]) [0..<137]
             = map (\<lambda>r. Some (PyFloat r)) (replicate 50 1 @ replicate 70 2 @ replicate 17 3))"
proof -
  let ?c = "\<lparr>chunk_selection = SelSlice (Some 0) (Some 2) None, chunk_data = PySeq [PyFloat 1, PyFloat 2]\<rparr>"
  let ?d = "empty_dataset None [0] (Some [None])"
  note t = chunked_fill_bounds_and_growth[of 3 None 7 None 2 "[True, False, True, False]" "[0, 5]"
      "[SelInt 3, SelSlice None (Some 7) None]" "BTuple [BInt 4, BInt 7]" ?c ?d
      "replicate 50 1" "replicate 70 2" "replicate 17 3" None]
  have m: "(2::nat) < length [True, False, True, False] \<and> [True, False, True, False] ! 2
      \<and> (\<forall>i. 2 < i \<and> i < length [True, False, True, False] \<longrightarrow> \<not> [True, False, True, False] ! i)"
    by (auto simp: nth_Cons' less_Suc_eq)
  have tp: "selection_max_bounds (SelTuple [SelInt 3, SelSlice None (Some 7) None]) = Inr (BTuple [BInt 4, BInt 7])"
    by simp
  have ok: "fst (fill_chunk ?c ?d) = Inr ()"
    by (simp add: fill_chunk_def empty_dataset_def h5_resize_def fits_maxshape_def h5_setitem_def
        sel_positions_def dim_selections_def block_rank_def clip_index_def)
  have l: "length (replicate 50 (1::real)) = 50 \<and> length (replicate 70 (2::real)) = 70 \<and> length (replicate 17 (3::real)) = 17"
    by simp
  from t have t3: "(2::nat) < length [True, False, True, False] \<and> [True, False, True, False] ! 2
      \<and> (\<forall>i. 2 < i \<and> i < length [True, False, True, False] \<longrightarrow> \<not> [True, False, True, False] ! i)
      \<longrightarrow> selection_max_bounds (SelMask [True, False, True, False]) = Inr (BInt (int 2 + 1))"
    by (elim conjE)
  from t3 m have 1: "selection_max_bounds (SelMask [True, False, True, False]) = Inr (BInt 3)"
    by simp
  from t have t5: "selection_max_bounds (SelTuple [SelInt 3, SelSlice None (Some 7) None]) = Inr (BTuple [BInt 4, BInt 7])
        \<longrightarrow> (\<exists>ms. BTuple [BInt 4, BInt 7] = BTuple ms \<and> length ms = length [SelInt 3, SelSlice None (Some 7) None]
               \<and> (\<forall>i<length [SelInt 3, SelSlice None (Some 7) None]. selection_max_bounds ([SelInt 3, SelSlice None (Some 7) None] ! i) = Inr (ms ! i)))"
    by (elim conjE)
  from t5 tp have 2: "\<exists>ms. BTuple [BInt 4, BInt 7] = BTuple ms \<and> length ms = 2
         \<and> selection_max_bounds (SelInt 3) = Inr (ms ! 0)
         \<and> selection_max_bounds (SelSlice None (Some 7) None) = Inr (ms ! 1)"
    by simp
  from t have t6: "fst (fill_chunk ?c ?d) = Inr ()
        \<longrightarrow> (\<exists>mb d1. selection_max_bounds (chunk_selection ?c) = Inr mb
               \<and> length (ds_shape (snd (fill_chunk ?c ?d))) = length (ds_shape ?d)
               \<and> (\<forall>i. ds_shape (snd (fill_chunk ?c ?d)) ! i =
                     (let vs = (case mb of BTuple ms \<Rightarrow> ms | b \<Rightarrow> [b])
                      in if i < length vs
                         then (case vs ! i of
                                 BInt v \<Rightarrow> if int (ds_shape ?d ! i) < v then nat v else ds_shape ?d ! i
                               | _ \<Rightarrow> ds_shape ?d ! i)
                         else ds_shape ?d ! i))
               \<and> ds_shape d1 = ds_shape (snd (fill_chunk ?c ?d))
               \<and> h5_setitem (chunk_selection ?c) (chunk_data ?c) d1 = fill_chunk ?c ?d)"
    by (elim conjE)
  from t6 ok obtain mb where mb: "selection_max_bounds (chunk_selection ?c) = Inr mb"
     and sh: "\<And>i. ds_shape (snd (fill_chunk ?c ?d)) ! i =
                     (let vs = (case mb of BTuple ms \<Rightarrow> ms | b \<Rightarrow> [b])
                      in if i < length vs
                         then (case vs ! i of
                                 BInt v \<Rightarrow> if int (ds_shape ?d ! i) < v then nat v else ds_shape ?d ! i
                               | _ \<Rightarrow> ds_shape ?d ! i)
                         else ds_shape ?d ! i)"
    by blast
  from mb have "mb = BInt 2" by simp
  with sh[of 0] have 3: "ds_shape (snd (fill_chunk ?c ?d)) ! 0 = 2"
    by (simp add: empty_dataset_def)
  from t have t7: "length (replicate 50 (1::real)) = 50 \<and> length (replicate 70 (2::real)) = 70 \<and> length (replicate 17 (3::real)) = 17
     \<longrightarrow> (\<exists>d'. fill_chunks
            [\<lparr>chunk_selection = SelSlice (Some 0) (Some 50) None, chunk_data = PySeq (map PyFloat (replicate 50 1))\<rparr>,
             \<lparr>chunk_selection = SelSlice (Some 50) (Some 120) None, chunk_data = PySeq (map PyFloat (replicate 70 2))\<rparr>,
             \<lparr>chunk_selection = SelSlice (Some 120) (Some 137) None, chunk_data = PySeq (map PyFloat (replicate 17 3))\<rparr>]
            (empty_dataset None [0] (Some [None])) = (Inr (), d')
         \<and> ds_shape d' = [137]
         \<and> map (\<lambda>i. ds_cells d' [i]) [0..<137]
             = map (\<lambda>r. Some (PyFloat r)) (replicate 50 1 @ replicate 70 2 @ replicate 17 3))"
    by (elim conjE)
  from t7 l have 4: "\<exists>d'. fill_chunks
            [\<lparr>chunk_selection = SelSlice (Some 0) (Some 50) None, chunk_data = PySeq (map PyFloat (replicate 50 1))\<rparr>,
             \<lparr>chunk_selection = SelSlice (Some 50) (Some 120) None, chunk_data = PySeq (map PyFloat (replicate 70 2))\<rparr>,
             \<lparr>chunk_selection = SelSlice (Some 120) (Some 137) None, chunk_data = PySeq (map PyFloat (replicate 17 3))\<rparr>]
            (empty_dataset None [0] (Some [None])) = (Inr (), d')
         \<and> ds_shape d' = [137]
         \<and> map (\<lambda>i. ds_cells d' [i]) [0..<137]
             = map (\<lambda>r. Some (PyFloat r)) (replicate 50 1 @ replicate 70 2 @ replicate 17 3)"
    by blast
  from 1 2 3 4 show ?thesis by blast
qed

text \<open>
  C3, at a chunk selected by the list of integer indices \<open>[0, 5]\<close>, written to an
  empty unlimited dataset. The list selects the positions 0 and 5 (of a dataset of
  extent 6), so the least extent that fits the selection is 6; the bound computed is
  2, one past the position, within the list, of its last non-zero entry. The dataset
  is grown to the extent 2, and the assignment of the chunk fails, the index 5 being
  out of range.
\<close>

theorem index_list_bound_too_small:
  "selection_max_bounds (SelFancy [0, 5]) = Inr (BInt 2)
   \<and> dim_positions 6 (SelFancy [0, 5]) = Inr [0, 5]
   \<and> fst (fill_chunk \<lparr>chunk_selection = SelFancy [0, 5], chunk_data = PySeq [PyFloat 1, PyFloat 2]\<rparr>
             (empty_dataset None [0] (Some [None])))
      = Inl (ValueError ''Index out of range'')
   \<and> ds_shape (snd (fill_chunk
                      \<lparr>chunk_selection = SelFancy [0, 5], chunk_data = PySeq [PyFloat 1, PyFloat 2]\<rparr>
                      (empty_dataset None [0] (Some [None]))))
      = [2]"
  by (simp add: last_nonzero_bound_def np_nonzero_def fill_chunk_def empty_dataset_def h5_resize_def
        fits_maxshape_def h5_setitem_def sel_positions_def dim_selections_def)



section \<open>Properties of the shape validation\<close>

lemma validators_fold:
  "fold (\<lambda>sv (raise_error, error_msg).
            (raise_error \<or> \<not> sv_result sv,
             if \<not> sv_result sv then error_msg @ sv_message sv @ [CHR 0x0A] else error_msg))
     svs (r, m)
   = (r \<or> \<not> list_all sv_result svs,
      m @ concat (map (\<lambda>sv. sv_message sv @ [CHR 0x0A]) (filter (\<lambda>sv. \<not> sv_result sv) svs)))"
  by (induction svs arbitrary: r m) auto

lemma d0: "digits 0 = ''0''" "digits (Suc 0) = ''1''" "digits 2 = ''2''"
  by (simp_all add: digits.simps)

text \<open>
  C8. Features of shape (10, 5, 3) with 10 times, 5 electrodes and 3 descriptions are
  accepted. With 9 times the constructor raises \<^verbatim>\<open>ValueError\<close> with a message
  that names \<^verbatim>\<open>times\<close> and axis 0. With 9 times and 4 electrodes the one message
  names both. In general the constructor succeeds when all three validators agree, and
  otherwise raises one error whose message is the messages of all failed validators,
  each followed by a line break.
\<close>

theorem feature_extraction_shape_validation:
  "FeatureExtraction_init (Some 5) (Some 3) (Some 10) (Some 10, Some 5, Some 3) name
     = Inr \<lparr>fe_name = name, fe_electrodes = Some 5, fe_description = Some 3,
            fe_times = Some 10, fe_features = (Some 10, Some 5, Some 3)\<rparr>
   \<and> FeatureExtraction_init (Some 5) (Some 3) (Some 9) (Some 10, Some 5, Some 3) name
     = Inl (ValueError (''Axis 0 of feature_shape did not match axis 0 of times'' @ [CHR 0x0A]))
   \<and> FeatureExtraction_init (Some 4) (Some 3) (Some 9) (Some 10, Some 5, Some 3) name
     = Inl (ValueError (''Axis 0 of feature_shape did not match axis 0 of times'' @ [CHR 0x0A]
                        @ ''Axis 1 of feature_shape did not match axis 0 of electrodes'' @ [CHR 0x0A]))
   \<and> FeatureExtraction_init e d t f name
     = (let svs = shape_validators e d t f
        in if list_all sv_result svs
           then Inr \<lparr>fe_name = name, fe_electrodes = e, fe_description = d, fe_times = t, fe_features = f\<rparr>
           else Inl (ValueError (concat (map (\<lambda>sv. sv_message sv @ [CHR 0x0A])
                                           (filter (\<lambda>sv. \<not> sv_result sv) svs)))))"
proof -
  have g: "FeatureExtraction_init e d t f name
     = (let svs = shape_validators e d t f
        in if list_all sv_result svs
           then Inr \<lparr>fe_name = name, fe_electrodes = e, fe_description = d, fe_times = t, fe_features = f\<rparr>
           else Inl (ValueError (concat (map (\<lambda>sv. sv_message sv @ [CHR 0x0A])
                                           (filter (\<lambda>sv. \<not> sv_result sv) svs)))))" for e d t f
    unfolding FeatureExtraction_init_def by (simp add: validators_fold Let_def)
  show ?thesis
    apply (intro conjI)
    subgoal by (simp add: g shape_validators_def assertEqualShape_def d0)
    subgoal by (simp add: g shape_validators_def assertEqualShape_def d0)
    subgoal by (simp add: g shape_validators_def assertEqualShape_def d0)
    subgoal by (rule g)
    done
qed

section \<open>Properties of writing links\<close>

lemma h5_modify_add_member_error:
  "h5_modify p (add_member n m) node = Inl e \<Longrightarrow>
     (\<exists>k. e = KeyError k) \<or> e = TypeError ''not a group''
       \<or> e = ValueError (''Unable to create link (name already exists): '' @ n)"
proof (induction p "add_member n m" node rule: h5_modify.induct)
  case (1 node)
  then show ?case by (auto simp: add_member_def split: h5node.splits if_splits)
next
  case (2 k ks d)
  then show ?case by auto
next
  case (3 k ks attrs members)
  then show ?case
    by (auto split: option.splits h5member.splits sum.splits)
qed

lemma h5_set_link_error:
  assumes "h5_set_link parent n l st = (Inl e, st')"
  shows "e \<noteq> ValueError (''cannot create external link to '' @ x)"
proof -
  from assms have "e = ValueError ''No write intent on file'' \<or> e = ValueError ''Invalid location identifier''
     \<or> (\<exists>rt. h5_modify (obj_name parent) (add_member n l) rt = Inl e)"
    by (auto simp: h5_set_link_def h5_change_def split: if_splits option.splits sum.splits)
  then show ?thesis
    using h5_modify_add_member_error[of "obj_name parent" n l _ e] by auto
qed

lemma h5_set_link_effect:
  assumes "h5_set_link parent n l st = (Inr u, st')"
  shows "\<exists>rt rt'. files st (filename (obj_file parent)) = Some rt
       \<and> h5_modify (obj_name parent) (add_member n l) rt = Inr rt'
       \<and> files st' = (files st)(filename (obj_file parent) \<mapsto> rt')"
  using assms
  by (auto simp: h5_set_link_def h5_change_def split: if_splits option.splits sum.splits)





section \<open>Properties of a write session\<close>

text \<open>
  A method preserves a relation when the state it leaves is related to the state it
  was called in. Two relations are followed through the methods: in a structural step
  the events added hold no call of a queued action and the queue only grows; under
  the other the file object and the open handles stay what they are.
\<close>

definition preserves :: "(hdf5io \<Rightarrow> hdf5io \<Rightarrow> bool) \<Rightarrow> 'a io \<Rightarrow> bool" where
  "preserves R m \<longleftrightarrow> (\<forall>st. R st (snd (m st)))"

definition structural_step :: "hdf5io \<Rightarrow> hdf5io \<Rightarrow> bool" where
  "structural_step st st' \<longleftrightarrow>
     (\<exists>evs. trace st' = trace st @ evs \<and> calls evs = [])
     \<and> (\<exists>new. io_ref_queue st' = io_ref_queue st @ new)"

definition same_handle :: "hdf5io \<Rightarrow> hdf5io \<Rightarrow> bool" where
  "same_handle st st' \<longleftrightarrow> io_file st' = io_file st \<and> open_handles st' = open_handles st"

lemma calls_append: "calls (xs @ ys) = calls xs @ calls ys"
  by (induction xs rule: calls.induct) simp_all

lemma reflp_structural: "reflp structural_step"
  by (simp add: reflp_def structural_step_def)

lemma transp_structural: "transp structural_step"
  unfolding transp_def structural_step_def
  by (auto simp: calls_append)

lemma reflp_same_handle: "reflp same_handle"
  by (simp add: reflp_def same_handle_def)

lemma transp_same_handle: "transp same_handle"
  by (simp add: transp_def same_handle_def)

lemma preservesD: "preserves R m \<Longrightarrow> m st = (r, st') \<Longrightarrow> R st st'"
  unfolding preserves_def by (metis snd_conv)

lemma preserves_return: "reflp R \<Longrightarrow> preserves R (io_return a)"
  by (simp add: preserves_def io_return_def reflp_def)

lemma preserves_raise: "reflp R \<Longrightarrow> preserves R (io_raise e)"
  by (simp add: preserves_def io_raise_def reflp_def)

lemma preserves_lift: "reflp R \<Longrightarrow> preserves R (io_lift r)"
  by (simp add: preserves_def io_lift_def reflp_def)

lemma preserves_bind:
  assumes "transp R" "preserves R m" "\<And>a. preserves R (f a)"
  shows "preserves R (io_bind m f)"
  unfolding preserves_def
proof
  fix st
  obtain r st1 where m: "m st = (r, st1)" by (cases "m st")
  have 1: "R st st1" using assms(2) m by (rule preservesD)
  show "R st (snd (io_bind m f st))"
  proof (cases r)
    case (Inl e)
    then show ?thesis using m 1 by (simp add: io_bind_def)
  next
    case (Inr a)
    have "R st1 (snd (f a st1))" using assms(3)[of a] unfolding preserves_def by blast
    then have "R st (snd (f a st1))" using 1 assms(1) by (meson transpE)
    then show ?thesis using m Inr by (simp add: io_bind_def)
  qed
qed

lemma preserves_reraise:
  "preserves R m \<Longrightarrow> preserves R (io_reraise msg m)"
  unfolding preserves_def io_reraise_def
  by (auto split: prod.splits sum.splits) (metis snd_conv)+

lemma preserves_foreach:
  "reflp R \<Longrightarrow> transp R \<Longrightarrow> (\<And>x. x \<in> set xs \<Longrightarrow> preserves R (f x)) \<Longrightarrow> preserves R (io_foreach xs f)"
  by (induction xs) (auto intro: preserves_return preserves_bind)

lemma preserves_fold:
  "reflp R \<Longrightarrow> transp R \<Longrightarrow> (\<And>x acc. x \<in> set xs \<Longrightarrow> preserves R (f x acc)) \<Longrightarrow> preserves R (io_fold xs acc f)"
  by (induction xs arbitrary: acc) (auto intro: preserves_return preserves_bind)

lemma preserves_write_group:
  assumes r: "reflp R" and t: "transp R"
    and cg: "\<And>parent name. preserves R (h5_create_group parent name)"
    and wd: "\<And>parent b. preserves R (write_dataset parent b)"
    and wl: "\<And>parent b. preserves R (write_link parent b)"
    and sa: "\<And>obj attrs. preserves R (set_attributes obj attrs)"
  shows "preserves R (write_group parent b)"
proof (induction parent b rule: write_group.induct)
  case (1 parent i name attributes groups datasets links src par)
  show ?case
    unfolding write_group.simps
    by (intro preserves_bind[OF t] preserves_foreach[OF r t] preserves_return[OF r] cg wd wl sa "1.IH")
qed (simp_all add: preserves_raise[OF r])

lemma store_only_same_handle: "store_only m \<Longrightarrow> preserves same_handle m"
proof -
  assume s: "store_only m"
  show ?thesis
    unfolding preserves_def same_handle_def
  proof
    fix st
    have e: "snd (m st) = st\<lparr>files := files (snd (m st)), trace := trace (snd (m st))\<rparr>"
      using s unfolding store_only_def by blast
    have "io_file (snd (m st)) = io_file (st\<lparr>files := files (snd (m st)), trace := trace (snd (m st))\<rparr>)"
      and "open_handles (snd (m st)) = open_handles (st\<lparr>files := files (snd (m st)), trace := trace (snd (m st))\<rparr>)"
      using e by simp_all
    then show "io_file (snd (m st)) = io_file st \<and> open_handles (snd (m st)) = open_handles st"
      by simp
  qed
qed

definition write_invariant :: "(hdf5io \<Rightarrow> hdf5io \<Rightarrow> bool) \<Rightarrow> bool" where
  "write_invariant R \<longleftrightarrow>
     reflp R \<and> transp R
     \<and> (\<forall>obj f ev. calls [ev] = [] \<longrightarrow> preserves R (h5_change obj f ev))
     \<and> (\<forall>d. preserves R (queue_ref d))"

lemma wi_refl: "write_invariant R \<Longrightarrow> reflp R"
  and wi_trans: "write_invariant R \<Longrightarrow> transp R"
  and wi_change: "write_invariant R \<Longrightarrow> calls [ev] = [] \<Longrightarrow> preserves R (h5_change obj f ev)"
  and wi_queue: "write_invariant R \<Longrightarrow> preserves R (queue_ref d)"
  by (simp_all add: write_invariant_def)

lemma preserves_unchanged:
  "reflp R \<Longrightarrow> (\<And>st. snd (m st) = st) \<Longrightarrow> preserves R m"
  by (simp add: preserves_def reflp_def)

lemmas wi_intros =
  preserves_bind[OF wi_trans] preserves_return[OF wi_refl] preserves_raise[OF wi_refl]
  preserves_lift[OF wi_refl] preserves_foreach[OF wi_refl wi_trans]
  preserves_fold[OF wi_refl wi_trans] preserves_reraise

lemma wi_create_group:
  "write_invariant R \<Longrightarrow> preserves R (h5_create_group parent name)"
  unfolding h5_create_group_def
  by (intro wi_intros wi_change) simp_all

lemma wi_create_dataset:
  "write_invariant R \<Longrightarrow> preserves R (h5_create_dataset parent name d)"
  unfolding h5_create_dataset_def
  by (auto intro!: wi_intros wi_change)

lemma wi_set_link:
  "write_invariant R \<Longrightarrow> preserves R (h5_set_link parent name l)"
  unfolding h5_set_link_def
  by (intro wi_change) simp_all

lemma wi_set_attr:
  "write_invariant R \<Longrightarrow> preserves R (h5_set_attr obj k v)"
  unfolding h5_set_attr_def
  by (intro wi_change) simp_all

lemma wi_set_attributes:
  "write_invariant R \<Longrightarrow> preserves R (set_attributes obj attrs)"
  unfolding set_attributes_def
  by (intro wi_intros wi_set_attr)

lemma on_dataset_state':
  "snd (h5_on_dataset dset f st) = st \<or>
   (\<exists>g. snd (h5_on_dataset dset f st)
      = snd (h5_change dset g (Ev_write_data (filename (obj_file dset)) (obj_name dset)) st))"
  unfolding h5_on_dataset_def
  by (auto split: option.splits sum.splits prod.splits h5node.splits) (metis snd_conv)+

lemma wi_on_dataset:
  assumes "write_invariant R"
  shows "preserves R (h5_on_dataset dset f)"
  unfolding preserves_def
proof
  fix st
  from on_dataset_state'[of dset f st]
  show "R st (snd (h5_on_dataset dset f st))"
  proof
    assume "snd (h5_on_dataset dset f st) = st"
    then show ?thesis using wi_refl[OF assms] by (simp add: reflp_def)
  next
    assume "\<exists>g. snd (h5_on_dataset dset f st)
      = snd (h5_change dset g (Ev_write_data (filename (obj_file dset)) (obj_name dset)) st)"
    then obtain g where e: "snd (h5_on_dataset dset f st)
      = snd (h5_change dset g (Ev_write_data (filename (obj_file dset)) (obj_name dset)) st)" by blast
    have "preserves R (h5_change dset g (Ev_write_data (filename (obj_file dset)) (obj_name dset)))"
      by (rule wi_change[OF assms]) simp
    then show ?thesis using e unfolding preserves_def by simp
  qed
qed

lemma wi_write_link:
  "write_invariant R \<Longrightarrow> preserves R (write_link parent b)"
  unfolding write_link_def
  by (cases b) (auto simp: Let_def intro!: wi_intros wi_set_link split: option.splits)

lemma wi_scalar_fill:
  "write_invariant R \<Longrightarrow> preserves R (scalar_fill parent name data dt)"
  unfolding scalar_fill_def
  by (intro wi_intros wi_create_dataset)

lemma wi_chunked_iter_fill:
  "write_invariant R \<Longrightarrow> preserves R (chunked_iter_fill parent name data)"
  unfolding chunked_iter_fill_def
  by (intro wi_intros wi_create_dataset wi_on_dataset)

lemma wi_list_fill:
  "write_invariant R \<Longrightarrow> preserves R (list_fill parent name data dt)"
  unfolding list_fill_def
  by (cases data) (auto simp: Let_def intro!: wi_intros wi_create_dataset wi_on_dataset)

lemma wi_write_plain:
  "write_invariant R \<Longrightarrow> preserves R (write_plain parent name data attributes dtype region)"
  unfolding write_plain_def Let_def
  by (cases data)
     (auto intro!: wi_intros wi_scalar_fill wi_chunked_iter_fill wi_list_fill wi_set_link
        wi_set_attributes wi_queue split: target.splits)

lemma wi_write_dataset:
  "write_invariant R \<Longrightarrow> preserves R (write_dataset parent b)"
  unfolding write_dataset_def Let_def
  by (auto intro!: wi_intros wi_write_plain wi_list_fill wi_set_attributes wi_queue
      split: option.splits builder_dtype.splits dtype_desc.splits prod.splits)

lemma wi_write_group:
  "write_invariant R \<Longrightarrow> preserves R (write_group parent b)"
  by (intro preserves_write_group wi_refl wi_trans wi_create_group wi_write_dataset
      wi_write_link wi_set_attributes)

lemma wi_get_ref: "write_invariant R \<Longrightarrow> preserves R (get_ref c r)"
  by (intro preserves_unchanged wi_refl get_ref_state)

lemma wi_fill_item: "write_invariant R \<Longrightarrow> preserves R (fill_item refs item)"
  unfolding fill_item_def
  by (auto intro!: wi_intros wi_get_ref)

lemma wi_run_filler: "write_invariant R \<Longrightarrow> preserves R (run_filler d)"
  by (cases d)
     (auto intro!: wi_intros wi_get_ref wi_fill_item wi_create_dataset wi_on_dataset
        wi_set_attributes split: option.splits)

lemma h5_change_state:
  "snd (h5_change obj f ev st) = st \<or>
   (\<exists>fs. snd (h5_change obj f ev st) = st\<lparr>files := fs, trace := trace st @ [ev]\<rparr>)"
  by (auto simp: h5_change_def split: option.splits sum.splits)

lemma wi_structural: "write_invariant structural_step"
  unfolding write_invariant_def
proof (intro conjI allI impI)
  show "reflp structural_step" by (rule reflp_structural)
  show "transp structural_step" by (rule transp_structural)
next
  fix obj f ev assume c: "calls [ev] = []"
  show "preserves structural_step (h5_change obj f ev)"
    unfolding preserves_def
  proof
    fix st
    from h5_change_state[of obj f ev st]
    show "structural_step st (snd (h5_change obj f ev st))"
      using c by (auto simp: structural_step_def)
  qed
next
  fix d
  show "preserves structural_step (queue_ref d)"
    by (simp add: preserves_def structural_step_def queue_ref_def)
qed

lemma wi_same_handle: "write_invariant same_handle"
  unfolding write_invariant_def
proof (intro conjI allI impI)
  show "reflp same_handle" by (rule reflp_same_handle)
  show "transp same_handle" by (rule transp_same_handle)
next
  fix obj f ev
  show "preserves same_handle (h5_change obj f ev)"
    by (rule store_only_same_handle) simp
next
  fix d
  show "preserves same_handle (queue_ref d)"
    by (simp add: preserves_def same_handle_def queue_ref_def)
qed

lemma io_open_structural: "preserves structural_step io_open"
  by (auto simp: preserves_def structural_step_def io_open_def h5_File_def Let_def split: prod.splits sum.splits if_splits)

lemma io_the_file_state: "snd (io_the_file st) = st"
  by (simp add: io_the_file_def split: option.splits)

lemma preserves_the_file: "reflp R \<Longrightarrow> preserves R io_the_file"
  by (rule preserves_unchanged) (simp_all add: io_the_file_state)

lemma write_structure_structural: "preserves structural_step (write_structure b)"
proof (cases b)
  case (GroupBuilder i name attributes groups datasets links src par)
  show ?thesis
    unfolding write_structure_def GroupBuilder builder.case
    by (intro preserves_bind[OF transp_structural] preserves_foreach[OF reflp_structural transp_structural]
        preserves_return[OF reflp_structural] io_open_structural preserves_the_file[OF reflp_structural]
        wi_write_group[OF wi_structural] wi_write_dataset[OF wi_structural]
        wi_set_attributes[OF wi_structural])
qed (simp_all add: write_structure_def preserves_raise[OF reflp_structural])

lemma write_builder_split:
  "write_builder b = io_bind (write_structure b) (\<lambda>u. add_refs)"
proof (cases b)
  case (GroupBuilder i name attributes groups datasets links src par)
  have assoc: "\<And>(m :: 'a io) (f :: 'a \<Rightarrow> 'b io) (g :: 'b \<Rightarrow> 'c io).
      io_bind (io_bind m f) g = io_bind m (\<lambda>a. io_bind (f a) g)"
    by (rule ext) (simp add: io_bind_def split: prod.splits sum.splits)
  show ?thesis
    unfolding write_builder_def write_structure_def GroupBuilder
    by (simp add: assoc)
qed (simp_all add: write_builder_def write_structure_def io_bind_def io_raise_def fun_eq_iff)

lemma run_filler_step:
  assumes "run_filler d st = (r, st')"
  shows "io_ref_queue st' = io_ref_queue st \<and> (\<exists>evs. trace st' = trace st @ evs \<and> calls evs = [])"
proof -
  have "structural_step st st'"
    using wi_run_filler[OF wi_structural] assms by (rule preservesD)
  moreover have "io_ref_queue st' = io_ref_queue st"
    using store_only_queue[OF store_only_run_filler assms] .
  ultimately show ?thesis by (simp add: structural_step_def)
qed

lemma add_refs_drains:
  "add_refs st = (r, st') \<Longrightarrow>
     \<exists>evs. trace st' = trace st @ evs
       \<and> (evs \<noteq> [] \<longrightarrow> hd evs = Ev_call (last (io_ref_queue st)))
       \<and> (\<exists>k. calls evs = take k (rev (io_ref_queue st)))
       \<and> (r = Inr () \<longrightarrow> calls evs = rev (io_ref_queue st) \<and> io_ref_queue st' = [])"
proof (induction st arbitrary: r st' rule: add_refs.induct)
  case (1 st)
  let ?q = "io_ref_queue st"
  show ?case
  proof (cases "0 < length ?q")
    case False
    then have "add_refs st = (Inr (), st)" by (simp add: add_refs.simps)
    with 1(2) False show ?thesis by auto
  next
    case True
    let ?st1 = "st\<lparr>io_ref_queue := butlast ?q, trace := trace st @ [Ev_call (last ?q)]\<rparr>"
    obtain r1 st2 where f: "run_filler (last ?q) ?st1 = (r1, st2)"
      by (cases "run_filler (last ?q) ?st1")
    from run_filler_step[OF f] obtain evf where
      q2: "io_ref_queue st2 = butlast ?q" and
      t2: "trace st2 = trace st @ [Ev_call (last ?q)] @ evf" and
      cf: "calls evf = []" by auto
    have rq: "rev ?q = last ?q # rev (butlast ?q)"
      using True by (metis append_butlast_last_id length_greater_0_conv rev.simps(2) rev_eq_Cons_iff rev_rev_ident)
    have tk: "\<And>k. take (Suc k) (rev ?q) = last ?q # take k (rev (butlast ?q))"
      by (subst rq) simp
    show ?thesis
    proof (cases r1)
      case (Inl e)
      then have "add_refs st = (Inl e, st2)" using True f by (simp add: add_refs.simps)
      with 1(2) have r: "r = Inl e" and s: "st' = st2" by simp_all
      have "calls ([Ev_call (last ?q)] @ evf) = take (Suc 0) (rev ?q)"
        using cf by (simp add: tk)
      then show ?thesis using r s t2 by (intro exI[of _ "[Ev_call (last ?q)] @ evf"]) auto
    next
      case (Inr u)
      then have a: "add_refs st = add_refs st2" using True f by (simp add: add_refs.simps)
      with 1(2) have a2: "add_refs st2 = (r, st')" by simp
      from 1(1)[OF True f[symmetric] Inr a2] obtain evs where
        t: "trace st' = trace st2 @ evs" and
        k: "\<exists>k. calls evs = take k (rev (io_ref_queue st2))" and
        ok: "r = Inr () \<longrightarrow> calls evs = rev (io_ref_queue st2) \<and> io_ref_queue st' = []"
        by blast
      from k obtain k where k': "calls evs = take k (rev (butlast ?q))" using q2 by auto
      have c: "calls ([Ev_call (last ?q)] @ evf @ evs) = take (Suc k) (rev ?q)"
        using cf k' by (simp add: calls_append tk)
      have c2: "r = Inr () \<longrightarrow> calls ([Ev_call (last ?q)] @ evf @ evs) = rev ?q \<and> io_ref_queue st' = []"
      proof
        assume "r = Inr ()"
        with ok q2 have "calls evs = rev (butlast ?q)" and e: "io_ref_queue st' = []" by simp_all
        then have "calls ([Ev_call (last ?q)] @ evf @ evs) = last ?q # rev (butlast ?q)"
          using cf by (simp add: calls_append)
        also have "\<dots> = rev ?q" by (rule rq[symmetric])
        finally show "calls ([Ev_call (last ?q)] @ evf @ evs) = rev ?q \<and> io_ref_queue st' = []"
          using e by simp
      qed
      have "trace st' = trace st @ ([Ev_call (last ?q)] @ evf @ evs)" using t t2 by simp
      then show ?thesis using c c2
        by (intro exI[of _ "[Ev_call (last ?q)] @ evf @ evs"]) auto
    qed
  qed
qed

subsection \<open>What the main pass queues\<close>

text \<open>
  A method queues the actions \<open>ds\<close> when every call that returns has added them,
  and nothing else, to the end of the queue.
\<close>

definition queues :: "'a io \<Rightarrow> deferred list \<Rightarrow> bool" where
  "queues m ds \<longleftrightarrow> (\<forall>st a st'. m st = (Inr a, st') \<longrightarrow> io_ref_queue st' = io_ref_queue st @ ds)"

lemma queuesD: "queues m ds \<Longrightarrow> m st = (Inr a, st') \<Longrightarrow> io_ref_queue st' = io_ref_queue st @ ds"
  by (simp add: queues_def)

lemma queues_store_only: "store_only m \<Longrightarrow> queues m []"
  unfolding queues_def using store_only_queue by fastforce

lemma queues_return: "queues (io_return a) []"
  by (simp add: queues_def io_return_def)

lemma queues_bind:
  assumes "queues m ds" "\<And>st a st'. m st = (Inr a, st') \<Longrightarrow> queues (f a) es"
  shows "queues (io_bind m f) (ds @ es)"
  unfolding queues_def
proof (intro allI impI)
  fix st b st' assume a: "io_bind m f st = (Inr b, st')"
  obtain r st1 where m: "m st = (r, st1)" by (cases "m st")
  from a m obtain a1 where r: "r = Inr a1" and f: "f a1 st1 = (Inr b, st')"
    by (cases r) (simp_all add: io_bind_def)
  have "io_ref_queue st1 = io_ref_queue st @ ds" using assms(1) m r by (simp add: queues_def)
  moreover have "io_ref_queue st' = io_ref_queue st1 @ es"
    using assms(2)[of st a1 st1] m r f by (simp add: queues_def)
  ultimately show "io_ref_queue st' = io_ref_queue st @ ds @ es" by simp
qed

lemma queues_foreach:
  "(\<And>x. x \<in> set xs \<Longrightarrow> queues (f x) (g x)) \<Longrightarrow> queues (io_foreach xs f) (concat (map g xs))"
proof (induction xs)
  case Nil
  then show ?case by (simp add: queues_return)
next
  case (Cons x xs)
  have "queues (io_bind (f x) (\<lambda>u. io_foreach xs f)) (g x @ concat (map g xs))"
    by (rule queues_bind) (simp_all add: Cons)
  then show ?case by simp
qed

lemma store_only_scalar_fill [intro!, simp]: "store_only (scalar_fill parent name data dt)"
  unfolding scalar_fill_def by auto

lemma store_only_chunked_iter_fill [intro!, simp]: "store_only (chunked_iter_fill parent name data)"
  unfolding chunked_iter_fill_def by auto

lemma store_only_list_fill [intro!, simp]: "store_only (list_fill parent name data dt)"
  unfolding list_fill_def by (cases data) (auto simp: Let_def)

lemma store_only_write_link [intro!, simp]: "store_only (write_link parent b)"
  unfolding write_link_def by (cases b) (auto simp: Let_def split: option.splits)

lemma write_dataset_deferred:
  assumes "dataset_deferred parent b \<noteq> []"
  shows "write_dataset parent b st
           = (Inr None, st\<lparr>io_ref_queue := io_ref_queue st @ dataset_deferred parent b\<rparr>)"
  using assms
  by (auto simp: write_dataset_def write_plain_def dataset_deferred_def Let_def io_bind_def
        io_lift_def io_return_def queue_ref_def
      split: option.splits prod.splits builder_dtype.splits dtype_desc.splits sum.splits
        dsdata.splits target.splits if_splits)

lemma io_bind_lift_Inl: "io_bind (io_lift (Inl e)) f = io_raise e"
  by (rule ext) (simp add: io_bind_def io_lift_def io_raise_def)

lemma write_dataset_plain:
  assumes "dataset_deferred parent b = []"
  shows "io_ref_queue (snd (write_dataset parent b st)) = io_ref_queue st"
proof -
  have s: "store_only m \<Longrightarrow> io_ref_queue (snd (m st)) = io_ref_queue st" for m :: "h5obj option io"
    using store_only_queue[of m st] by (metis prod.collapse)
  show ?thesis
  proof (cases "dataset_view b")
    case None
    then show ?thesis by (simp add: write_dataset_def io_raise_def)
  next
    case (Some v)
    obtain name data attributes dtype region where v: "v = (name, data, attributes, dtype, region)"
      by (cases v) auto
    show ?thesis
    proof (cases "\<exists>fs. dtype = Descriptor (DFields fs)")
      case True
      then obtain fs where fs: "dtype = Descriptor (DFields fs)" by blast
      let ?refs = "filter (\<lambda>i. is_ref (snd (fs ! i))) [0..<length fs]"
      show ?thesis
      proof (cases "length ?refs > 0")
        case T: True
        with assms Some v fs obtain e where "resolve_dtype (DFields fs) (sample_of data) = Inl e"
          by (cases "resolve_dtype (DFields fs) (sample_of data)")
             (simp_all add: dataset_deferred_def Let_def)
        then have "write_dataset parent b = io_raise e"
          using Some v fs T by (simp add: write_dataset_def Let_def io_bind_lift_Inl)
        then show ?thesis by (simp add: io_raise_def)
      next
        case F: False
        then have "write_dataset parent b
            = io_bind (list_fill parent name data dtype)
                (\<lambda>dset. io_bind (set_attributes dset attributes) (\<lambda>u. io_return (Some dset)))"
          using Some v fs by (simp add: write_dataset_def Let_def)
        then show ?thesis by (auto intro!: s)
      qed
    next
      case False
      then have w: "write_dataset parent b = write_plain parent name data attributes dtype region"
        using Some v by (simp add: write_dataset_def split: builder_dtype.splits dtype_desc.splits)
      from False assms Some v have d: "(case data of
                  DataBuilder (TContainer c) \<Rightarrow> []
                | DataBuilder t \<Rightarrow>
                    (case dtypes_index dtype of
                       Inl e \<Rightarrow> []
                     | Inr dt \<Rightarrow>
                         [if dtype = Descriptor (DTag ''region'')
                          then Filler_region parent name t region dt attributes
                          else Filler_object parent name t dt attributes])
                | _ \<Rightarrow> []) = []"
        by (simp add: dataset_deferred_def split: builder_dtype.splits dtype_desc.splits)
      show ?thesis
      proof (cases "\<exists>t. data = DataBuilder t \<and> (\<forall>c. t \<noteq> TContainer c)")
        case True
        then obtain t where t: "data = DataBuilder t" "\<And>c. t \<noteq> TContainer c" by blast
        with d obtain e where "dtypes_index dtype = Inl e"
          by (cases "dtypes_index dtype"; cases t) auto
        then have "write_plain parent name data attributes dtype region = io_raise e"
          using t by (cases t) (auto simp: write_plain_def io_bind_lift_Inl)
        then show ?thesis using w by (simp add: io_raise_def)
      next
        case False
        then have "store_only (write_plain parent name data attributes dtype region)"
          unfolding write_plain_def Let_def
          by (cases data) (auto split: target.splits)
        then show ?thesis using w s by simp
      qed
    qed
  qed
qed

lemma write_dataset_queue:
  "io_ref_queue (snd (write_dataset parent b st)) = io_ref_queue st @ dataset_deferred parent b"
proof (cases "dataset_deferred parent b = []")
  case True
  then show ?thesis using write_dataset_plain[of parent b st] by simp
next
  case False
  then show ?thesis by (simp add: write_dataset_deferred)
qed

lemma queues_write_dataset: "queues (write_dataset parent b) (dataset_deferred parent b)"
  unfolding queues_def using write_dataset_queue[of parent b] by (metis snd_conv)

lemma create_group_result:
  "h5_create_group parent name st = (Inr g, st') \<Longrightarrow> g = child parent name"
  by (auto simp: h5_create_group_def io_bind_def io_return_def split: prod.splits sum.splits)

lemma queues_write_group: "queues (write_group parent b) (group_deferred parent b)"
proof (induction parent b rule: write_group.induct)
  case (1 parent i name attributes groups datasets links src par)
  let ?g = "child parent name"
  have rest: "queues
       (io_bind (io_foreach groups (\<lambda>sub. io_bind (write_group ?g (snd sub)) (\<lambda>g. io_return ())))
          (\<lambda>u. io_bind
                 (io_foreach datasets
                    (\<lambda>sub. io_bind (write_dataset ?g (snd sub)) (\<lambda>d. io_return ())))
                 (\<lambda>u. io_bind
                        (io_foreach links
                           (\<lambda>sub. io_bind (write_link ?g (snd sub)) (\<lambda>l. io_return ())))
                        (\<lambda>u. io_bind (set_attributes ?g attributes) (\<lambda>u. io_return ?g)))))
       (concat (map (\<lambda>sub. group_deferred ?g (snd sub)) groups)
        @ concat (map (\<lambda>sub. dataset_deferred ?g (snd sub)) datasets) @ [])"
  proof (intro queues_bind queues_foreach)
    fix x assume "x \<in> set groups"
    then have "queues (write_group ?g (snd x)) (group_deferred ?g (snd x))" by (rule "1.IH")
    then have "queues (io_bind (write_group ?g (snd x)) (\<lambda>g. io_return ())) (group_deferred ?g (snd x) @ [])"
      by (rule queues_bind) (rule queues_return)
    then show "queues (io_bind (write_group ?g (snd x)) (\<lambda>g. io_return ())) (group_deferred ?g (snd x))"
      by simp
  next
    fix x
    have "queues (io_bind (write_dataset ?g (snd x)) (\<lambda>d. io_return ())) (dataset_deferred ?g (snd x) @ [])"
      by (rule queues_bind) (rule queues_write_dataset, rule queues_return)
    then show "queues (io_bind (write_dataset ?g (snd x)) (\<lambda>d. io_return ())) (dataset_deferred ?g (snd x))"
      by simp
  next
    show "queues (io_bind (io_foreach links (\<lambda>sub. io_bind (write_link ?g (snd sub)) (\<lambda>l. io_return ())))
                    (\<lambda>u. io_bind (set_attributes ?g attributes) (\<lambda>u. io_return ?g))) []"
      by (rule queues_store_only) auto
  qed
  have "queues (io_bind (h5_create_group parent name)
       (\<lambda>group. io_bind (io_foreach groups (\<lambda>sub. io_bind (write_group group (snd sub)) (\<lambda>g. io_return ())))
          (\<lambda>u. io_bind
                 (io_foreach datasets
                    (\<lambda>sub. io_bind (write_dataset group (snd sub)) (\<lambda>d. io_return ())))
                 (\<lambda>u. io_bind
                        (io_foreach links
                           (\<lambda>sub. io_bind (write_link group (snd sub)) (\<lambda>l. io_return ())))
                        (\<lambda>u. io_bind (set_attributes group attributes) (\<lambda>u. io_return group))))))
       ([] @ concat (map (\<lambda>sub. group_deferred ?g (snd sub)) groups)
        @ concat (map (\<lambda>sub. dataset_deferred ?g (snd sub)) datasets) @ [])"
  proof (rule queues_bind)
    show "queues (h5_create_group parent name) []" by (rule queues_store_only) simp
  next
    fix st a st' assume "h5_create_group parent name st = (Inr a, st')"
    then have "a = ?g" by (rule create_group_result)
    then show "queues
       (io_bind (io_foreach groups (\<lambda>sub. io_bind (write_group a (snd sub)) (\<lambda>g. io_return ())))
          (\<lambda>u. io_bind
                 (io_foreach datasets
                    (\<lambda>sub. io_bind (write_dataset a (snd sub)) (\<lambda>d. io_return ())))
                 (\<lambda>u. io_bind
                        (io_foreach links
                           (\<lambda>sub. io_bind (write_link a (snd sub)) (\<lambda>l. io_return ())))
                        (\<lambda>u. io_bind (set_attributes a attributes) (\<lambda>u. io_return a)))))
       (concat (map (\<lambda>sub. group_deferred ?g (snd sub)) groups)
        @ concat (map (\<lambda>sub. dataset_deferred ?g (snd sub)) datasets) @ [])"
      using rest by simp
  qed
  then show ?case by simp
qed (simp_all add: queues_def io_raise_def)

lemma io_open_ok:
  "io_open st = (Inr u, st0) \<Longrightarrow> \<exists>f. io_file st0 = Some f \<and> io_ref_queue st0 = io_ref_queue st"
  by (auto simp: io_open_def h5_File_def Let_def split: prod.splits sum.splits if_splits)

lemma write_structure_queue:
  assumes "write_structure b st = (Inr u, st1)"
  shows "\<exists>f. io_file st1 = Some f \<and> io_ref_queue st1 = io_ref_queue st @ root_deferred (root_of f) b"
proof (cases b)
  case (GroupBuilder i name attributes groups datasets links src par)
  let ?rest = "\<lambda>file. io_bind
                    (io_foreach groups
                       (\<lambda>sub. io_bind (write_group file (snd sub)) (\<lambda>g. io_return ())))
                    (\<lambda>u.
                       io_bind
                         (io_foreach datasets
                            (\<lambda>sub. io_bind (write_dataset file (snd sub)) (\<lambda>d. io_return ())))
                         (\<lambda>u. set_attributes file attributes))"
  have w: "write_structure b = io_bind io_open (\<lambda>u. io_bind io_the_file ?rest)"
    by (simp add: write_structure_def GroupBuilder)
  from assms obtain u0 st0 where o: "io_open st = (Inr u0, st0)"
    and r: "io_bind io_the_file ?rest st0 = (Inr u, st1)"
    unfolding w by (auto simp: io_bind_def split: prod.splits sum.splits)
  from io_open_ok[OF o] obtain f where f: "io_file st0 = Some f"
    and q0: "io_ref_queue st0 = io_ref_queue st" by blast
  from r f have r': "?rest (root_of f) st0 = (Inr u, st1)"
    by (simp add: io_bind_def io_the_file_def)
  have q: "queues (?rest (root_of f))
             (concat (map (\<lambda>sub. group_deferred (root_of f) (snd sub)) groups)
              @ concat (map (\<lambda>sub. dataset_deferred (root_of f) (snd sub)) datasets) @ [])"
  proof (intro queues_bind queues_foreach)
    fix x
    have "queues (io_bind (write_group (root_of f) (snd x)) (\<lambda>g. io_return ()))
            (group_deferred (root_of f) (snd x) @ [])"
      by (rule queues_bind) (rule queues_write_group, rule queues_return)
    then show "queues (io_bind (write_group (root_of f) (snd x)) (\<lambda>g. io_return ()))
            (group_deferred (root_of f) (snd x))" by simp
  next
    fix x
    have "queues (io_bind (write_dataset (root_of f) (snd x)) (\<lambda>d. io_return ()))
            (dataset_deferred (root_of f) (snd x) @ [])"
      by (rule queues_bind) (rule queues_write_dataset, rule queues_return)
    then show "queues (io_bind (write_dataset (root_of f) (snd x)) (\<lambda>d. io_return ()))
            (dataset_deferred (root_of f) (snd x))" by simp
  next
    show "queues (set_attributes (root_of f) attributes) []"
      by (rule queues_store_only) simp
  qed
  have q1: "io_ref_queue st1 = io_ref_queue st0 @ root_deferred (root_of f) b"
    using queuesD[OF q r'] by (simp add: root_deferred_def GroupBuilder)
  have "preserves same_handle (?rest (root_of f))"
    by (intro preserves_bind[OF transp_same_handle]
        preserves_foreach[OF reflp_same_handle transp_same_handle]
        preserves_return[OF reflp_same_handle]
        wi_write_group[OF wi_same_handle] wi_write_dataset[OF wi_same_handle]
        wi_set_attributes[OF wi_same_handle])
  then have "same_handle st0 st1" using r' by (rule preservesD)
  then have "io_file st1 = Some f" using f by (simp add: same_handle_def)
  then show ?thesis using q1 q0 by simp
qed (insert assms, simp_all add: write_structure_def io_raise_def)

subsection \<open>What a queued action writes\<close>

lemma h5_create_dataset_effect:
  assumes "h5_create_dataset parent name d st = (Inr g, st1)"
  shows "g = child parent name
     \<and> (\<exists>rt rt'. files st (filename (obj_file parent)) = Some rt
           \<and> h5_modify (obj_name parent) (add_member name (HardLink (H5Dataset d))) rt = Inr rt'
           \<and> st1 = st\<lparr>files := (files st)(filename (obj_file parent) \<mapsto> rt'),
                       trace := trace st @ [Ev_create_dataset (filename (obj_file parent))
                                              (obj_name parent @ [name])]\<rparr>)"
  using assms
  by (auto simp: h5_create_dataset_def h5_change_def io_bind_def io_return_def io_raise_def
      split: if_splits option.splits sum.splits prod.splits)

lemma get_ref_result: "get_ref c r st = (x, st') \<Longrightarrow> st' = st"
  using get_ref_state[of c r st] by simp

lemma run_filler_reference_effect:
  assumes "io_bind (get_ref c r)
             (\<lambda>ref. io_bind (h5_create_dataset parent name (dataset_of_data (Some dt) (PyRef ref)))
                      (\<lambda>dset. set_attributes dset attributes)) st = (Inr u, st')"
  shows "\<exists>ref rt rt'.
        get_ref c r st = (Inr ref, st)
      \<and> files st (filename (obj_file parent)) = Some rt
      \<and> h5_modify (obj_name parent)
           (add_member name (HardLink (H5Dataset (dataset_of_data (Some dt) (PyRef ref))))) rt = Inr rt'
      \<and> set_attributes (child parent name) attributes
           (st\<lparr>files := (files st)(filename (obj_file parent) \<mapsto> rt'),
               trace := trace st @ [Ev_create_dataset (filename (obj_file parent))
                                      (obj_name parent @ [name])]\<rparr>) = (Inr u, st')"
proof -
  obtain x s0 where g: "get_ref c r st = (x, s0)" by (cases "get_ref c r st")
  then have s0: "s0 = st" by (rule get_ref_result)
  from assms g obtain ref where x: "x = Inr ref" by (cases x) (simp_all add: io_bind_def)
  let ?d = "dataset_of_data (Some dt) (PyRef ref)"
  obtain y s1 where c: "h5_create_dataset parent name ?d st = (y, s1)"
    by (cases "h5_create_dataset parent name ?d st")
  from assms g x s0 c obtain dset where y: "y = Inr dset"
    and a: "set_attributes dset attributes s1 = (Inr u, st')"
    by (cases y) (simp_all add: io_bind_def)
  from h5_create_dataset_effect[OF c[unfolded y]] a g x s0
  show ?thesis by auto
qed

lemma fill_item_result: "fill_item refs item st = (x, st') \<Longrightarrow> st' = st"
proof -
  have R: "reflp (\<lambda>s s'. s' = (s :: hdf5io))" "transp (\<lambda>s s'. s' = (s :: hdf5io))"
    by (simp_all add: reflp_def transp_def)
  have g: "preserves (\<lambda>s s'. s' = s) (get_ref c r)" for c r
    by (simp add: preserves_def get_ref_state)
  have "preserves (\<lambda>s s'. s' = s) (fill_item refs item)"
    unfolding fill_item_def
    by (auto intro!: preserves_bind[OF R(2)] preserves_fold[OF R] preserves_lift[OF R(1)]
          preserves_return[OF R(1)] preserves_raise[OF R(1)] g)
  then show "fill_item refs item st = (x, st') \<Longrightarrow> st' = st"
    by (rule preservesD)
qed

lemma fold_items:
  assumes F: "\<And>item ret. F item ret = io_bind (fill_item refs item) (\<lambda>new_item. io_return (ret @ [new_item]))"
  shows "io_fold items acc F st = (Inr ret, st1) \<Longrightarrow>
   st1 = st \<and> (\<exists>news. ret = acc @ news
                 \<and> list_all2 (\<lambda>item new_item. fill_item refs item st = (Inr new_item, st)) items news)"
proof (induction items arbitrary: acc)
  case Nil
  then show ?case by (simp add: io_return_def)
next
  case (Cons item items)
  obtain x s0 where f: "fill_item refs item st = (x, s0)" by (cases "fill_item refs item st")
  then have s0: "s0 = st" by (rule fill_item_result)
  have e: "io_fold (item # items) acc F st
        = (case F item acc st of (Inl e, s) \<Rightarrow> (Inl e, s) | (Inr a, s) \<Rightarrow> io_fold items a F s)"
    by (simp add: io_bind_def)
  have Fx: "F item acc st = (case x of Inl e \<Rightarrow> (Inl e, st) | Inr n \<Rightarrow> (Inr (acc @ [n]), st))"
    using f s0 by (simp add: F io_bind_def io_return_def split: sum.splits)
  from Cons.prems e Fx obtain new_item where x: "x = Inr new_item"
    by (cases x) simp_all
  from Cons.prems e Fx x have r: "io_fold items (acc @ [new_item]) F st = (Inr ret, st1)"
    by simp
  from Cons.IH[OF r] obtain news where "st1 = st" "ret = (acc @ [new_item]) @ news"
    "list_all2 (\<lambda>item new_item. fill_item refs item st = (Inr new_item, st)) items news" by blast
  then show ?case using f x s0
    by (intro conjI exI[of _ "new_item # news"]) simp_all
qed

lemma run_filler_rows_effect:
  assumes "run_filler (Filler_rows parent name data refs dt attributes) st = (Inr u, st')"
  shows "\<exists>items ret rt rt' st2.
        py_iter data = Inr items
      \<and> list_all2 (\<lambda>item new_item. fill_item refs item st = (Inr new_item, st)) items ret
      \<and> files st (filename (obj_file parent)) = Some rt
      \<and> h5_modify (obj_name parent)
           (add_member name (HardLink (H5Dataset (empty_dataset (Some dt) [length ret] None)))) rt = Inr rt'
      \<and> h5_on_dataset (child parent name) (h5_setitem (SelSlice None None None) (PySeq ret))
           (st\<lparr>files := (files st)(filename (obj_file parent) \<mapsto> rt'),
               trace := trace st @ [Ev_create_dataset (filename (obj_file parent))
                                      (obj_name parent @ [name])]\<rparr>) = (Inr (), st2)
      \<and> set_attributes (child parent name) attributes st2 = (Inr u, st')"
proof -
  let ?fold = "io_fold (case py_iter data of Inr items \<Rightarrow> items | Inl e \<Rightarrow> []) []
                 (\<lambda>item ret. io_bind (fill_item refs item) (\<lambda>new_item. io_return (ret @ [new_item])))"
  from assms obtain items where it: "py_iter data = Inr items"
    by (cases "py_iter data") (simp_all add: io_bind_def io_lift_def)
  obtain x s0 where f: "io_fold items []
       (\<lambda>item ret. io_bind (fill_item refs item) (\<lambda>new_item. io_return (ret @ [new_item]))) st = (x, s0)"
    by (cases "io_fold items []
       (\<lambda>item ret. io_bind (fill_item refs item) (\<lambda>new_item. io_return (ret @ [new_item]))) st")
  from assms it f obtain ret where x: "x = Inr ret"
    by (cases x) (simp_all add: io_bind_def io_lift_def)
  from fold_items[OF refl f[unfolded x]] have s0: "s0 = st"
    and la: "list_all2 (\<lambda>item new_item. fill_item refs item st = (Inr new_item, st)) items ret"
    by auto
  let ?d = "empty_dataset (Some dt) [length ret] None"
  obtain y s1 where c: "h5_create_dataset parent name ?d st = (y, s1)"
    by (cases "h5_create_dataset parent name ?d st")
  from assms it f x s0 c obtain dset where y: "y = Inr dset"
    and rest: "io_bind (h5_on_dataset dset (h5_setitem (SelSlice None None None) (PySeq ret)))
                 (\<lambda>u. set_attributes dset attributes) s1 = (Inr u, st')"
    by (cases y) (simp_all add: io_bind_def io_lift_def)
  from h5_create_dataset_effect[OF c[unfolded y]] obtain rt rt' where
    d: "dset = child parent name" and
    rt: "files st (filename (obj_file parent)) = Some rt" and
    m: "h5_modify (obj_name parent) (add_member name (HardLink (H5Dataset ?d))) rt = Inr rt'" and
    s1: "s1 = st\<lparr>files := (files st)(filename (obj_file parent) \<mapsto> rt'),
                  trace := trace st @ [Ev_create_dataset (filename (obj_file parent))
                                         (obj_name parent @ [name])]\<rparr>"
    by blast
  obtain z s2 where w: "h5_on_dataset dset (h5_setitem (SelSlice None None None) (PySeq ret)) s1 = (z, s2)"
    by (cases "h5_on_dataset dset (h5_setitem (SelSlice None None None) (PySeq ret)) s1")
  from rest w have z: "z = Inr ()" and a: "set_attributes dset attributes s2 = (Inr u, st')"
    by (cases z; simp add: io_bind_def)+
  from it la rt m w z a d s1 show ?thesis by blast
qed

lemma add_refs_drain: "add_refs st = drain (rev (io_ref_queue st)) st"
proof (induction st rule: add_refs.induct)
  case (1 st)
  let ?q = "io_ref_queue st"
  show ?case
  proof (cases "0 < length ?q")
    case False
    then show ?thesis by (simp add: add_refs.simps io_return_def)
  next
    case True
    let ?st1 = "st\<lparr>io_ref_queue := butlast ?q, trace := trace st @ [Ev_call (last ?q)]\<rparr>"
    obtain r1 st2 where f: "run_filler (last ?q) ?st1 = (r1, st2)"
      by (cases "run_filler (last ?q) ?st1")
    have q2: "io_ref_queue st2 = butlast ?q"
      using store_only_queue[OF store_only_run_filler f] by simp
    have rq: "rev ?q = last ?q # rev (butlast ?q)"
      using True by (metis append_butlast_last_id length_greater_0_conv rev.simps(2) rev_eq_Cons_iff rev_rev_ident)
    show ?thesis
    proof (cases r1)
      case (Inl e)
      then show ?thesis using True f by (simp add: add_refs.simps rq io_bind_def)
    next
      case (Inr u)
      have ih: "add_refs st2 = drain (rev (io_ref_queue st2)) st2"
        using "1.IH"[OF True f[symmetric] Inr] .
      have a: "add_refs st = add_refs st2" using True f Inr by (simp add: add_refs.simps)
      have d: "drain (rev ?q) st = drain (rev (butlast ?q)) st2"
        using f Inr by (simp add: rq io_bind_def)
      show ?thesis using a d ih q2 by simp
    qed
  qed
qed

lemmas io_eval = write_builder_def HDF5IO_init_def io_bind_def io_return_def io_raise_def io_lift_def
     io_open_def h5_File_def io_the_file_def root_of_def h5_create_group_def h5_change_def child_def
     add_member_def set_attributes_def write_dataset_def write_plain_def dtypes_index_def dtypes_get_def dtypes_table_def
     queue_ref_def add_refs.simps get_ref_def get_path_def ROOT_NAME_def h5_resolve_def nlinks_def
     h5_create_dataset_def dataset_of_data_def Let_def

lemmas write_eval = io_eval list_fill_def resolve_builder_dtype_def resolve_dtype_def empty_dataset_def
  h5_on_dataset_def h5_setitem_def sel_positions_def dim_selections_def block_rank_def clip_index_def
  REGION_REF_TYPE_def OBJECT_REF_TYPE_def ref_of_def h5_regionref_def h5_set_attr_def io_reraise_def
  write_link_def h5_set_link_def

lemma read_group_numeral:
  "read_group (numeral k) h5o node name = read_group (Suc (pred_numeral k)) h5o node name"
  by (simp add: numeral_eq_Suc)

lemma read_dataset_numeral:
  "read_dataset (numeral k) h5o node name = read_dataset (Suc (pred_numeral k)) h5o node name"
  by (simp add: numeral_eq_Suc)

lemmas read_eval = read_builder_def recursion_limit_def read_group_numeral read_dataset_numeral
  node_at_def h5_get_def h5_deref_def get_built_def set_built_def
  new_oid_def self_path_def basename_def cell_def h5_maxshape_def HDF5IO_init_def io_bind_def
  io_return_def io_raise_def io_lift_def io_open_def h5_File_def io_the_file_def root_of_def
  h5_resolve_def nlinks_def ROOT_NAME_def Let_def




section \<open>The file handle\<close>

lemmas sh_intros =
  preserves_bind[OF transp_same_handle] preserves_return[OF reflp_same_handle]
  preserves_raise[OF reflp_same_handle] preserves_lift[OF reflp_same_handle]
  preserves_foreach[OF reflp_same_handle transp_same_handle]
  preserves_fold[OF reflp_same_handle transp_same_handle] preserves_reraise

lemma add_refs_same_handle: "preserves same_handle add_refs"
  unfolding preserves_def
proof
  fix st
  show "same_handle st (snd (add_refs st))"
  proof (induction st rule: add_refs.induct)
    case (1 st)
    let ?q = "io_ref_queue st"
    show ?case
    proof (cases "0 < length ?q")
      case False
      then show ?thesis by (simp add: add_refs.simps same_handle_def)
    next
      case True
      let ?st1 = "st\<lparr>io_ref_queue := butlast ?q, trace := trace st @ [Ev_call (last ?q)]\<rparr>"
      obtain r1 st2 where f: "run_filler (last ?q) ?st1 = (r1, st2)"
        by (cases "run_filler (last ?q) ?st1")
      have "same_handle ?st1 st2"
        using wi_run_filler[OF wi_same_handle] f by (rule preservesD)
      then have h: "same_handle st st2" by (simp add: same_handle_def)
      show ?thesis
      proof (cases r1)
        case (Inl e)
        then show ?thesis using True f h by (simp add: add_refs.simps)
      next
        case (Inr u)
        then have a: "add_refs st = add_refs st2" using True f by (simp add: add_refs.simps)
        from 1[OF True f[symmetric] Inr] have "same_handle st2 (snd (add_refs st2))" .
        with h a show ?thesis by (simp add: same_handle_def)
      qed
    qed
  qed
qed

lemma get_built_state: "snd (get_built f p st) = st"
  by (simp add: get_built_def split: option.splits)

lemma sh_get_built: "preserves same_handle (get_built f p)"
  by (rule preserves_unchanged[OF reflp_same_handle]) (rule get_built_state)

lemma sh_set_built: "preserves same_handle (set_built f p b)"
  by (simp add: preserves_def same_handle_def set_built_def Let_def)

lemma sh_new_oid: "preserves same_handle new_oid"
  by (simp add: preserves_def same_handle_def new_oid_def)

lemma sh_self_path: "preserves same_handle self_path"
  by (simp add: preserves_def same_handle_def self_path_def)

lemma sh_h5_get: "preserves same_handle (h5_get obj k)"
  by (simp add: preserves_def same_handle_def h5_get_def split: option.splits prod.splits)

lemma sh_h5_deref: "preserves same_handle (h5_deref obj p)"
  by (simp add: preserves_def same_handle_def h5_deref_def split: option.splits prod.splits)

lemma sh_node_at: "preserves same_handle (node_at obj)"
  by (simp add: preserves_def same_handle_def node_at_def split: option.splits prod.splits)

lemma sh_read_dataset: "preserves same_handle (read_dataset depth h5o node name)"
proof (induction depth h5o node name rule: read_dataset.induct)
  case (1 h5o node name)
  then show ?case by (simp add: sh_intros)
next
  case (2 depth h5o attrs members name)
  then show ?case by (simp add: sh_intros)
next
  case (3 depth h5o d name)
  show ?case
    unfolding read_dataset.simps Let_def
    by (intro sh_intros sh_self_path)
       (auto intro!: sh_intros sh_new_oid sh_h5_deref sh_set_built "3.IH" split: pydata.splits h5ref.splits)
qed

lemma sh_read_group: "preserves same_handle (read_group depth h5o node name)"
proof (induction depth h5o node name rule: read_group.induct)
  case (1 h5o node name)
  then show ?case by (simp add: sh_intros)
next
  case (2 depth h5o d name)
  then show ?case by (simp add: sh_intros)
next
  case (3 depth h5o attrs members name)
  have g1: "preserves same_handle (read_group depth xd y None)" if "\<not> is_dataset y" for xd y
    by (rule "3.IH"(1)[OF refl snd_conv refl refl refl that])
  have g2: "preserves same_handle (read_group depth xf y (Some nm))" if "\<not> is_dataset y" for xf y nm
  proof -
    have "preserves same_handle
        (read_group depth xf y
           (Some (basename (case SoftLink [nm] of HardLink n \<Rightarrow> [] | SoftLink p \<Rightarrow> p
                            | ExternalLink f p \<Rightarrow> p))))"
      by (rule "3.IH"(2)[OF refl snd_conv refl refl refl refl refl that])
    then show ?thesis by (simp add: basename_def)
  qed
  have member: "preserves same_handle
      (if is_dataset sub_node then read_dataset depth sub_h5obj sub_node nm
       else read_group depth sub_h5obj sub_node nm)" for sub_node sub_h5obj nm
    by (cases nm) (simp_all add: sh_read_dataset g1 g2)
  show ?case
    unfolding read_group.simps Let_def
    by (intro sh_intros sh_self_path sh_new_oid sh_h5_get)
       (auto intro!: sh_intros sh_new_oid sh_self_path sh_get_built sh_set_built member
          sh_read_dataset g1 g2
          split: h5member.splits option.splits prod.splits)
qed


lemma after_open:
  assumes "\<And>u. preserves same_handle (f u)"
  shows "same_handle (snd (io_open st)) (snd (io_bind io_open f st))"
proof (cases "io_open st")
  case (Pair r0 st0)
  show ?thesis
  proof (cases r0)
    case (Inl e)
    then show ?thesis using Pair by (simp add: io_bind_def same_handle_def)
  next
    case (Inr u)
    have "same_handle st0 (snd (f u st0))" using assms[of u] by (simp add: preserves_def)
    then show ?thesis using Pair Inr by (simp add: io_bind_def)
  qed
qed

lemma sh_write_rest:
  "preserves same_handle
     (io_bind io_the_file
        (\<lambda>file.
           io_bind
             (io_foreach groups (\<lambda>sub. io_bind (write_group file (snd sub)) (\<lambda>g. io_return ())))
             (\<lambda>u.
                io_bind
                  (io_foreach datasets (\<lambda>sub. io_bind (write_dataset file (snd sub)) (\<lambda>d. io_return ())))
                  (\<lambda>u. io_bind (set_attributes file attributes) (\<lambda>u. add_refs)))))"
  by (intro sh_intros preserves_the_file[OF reflp_same_handle] wi_write_group[OF wi_same_handle]
      wi_write_dataset[OF wi_same_handle] wi_set_attributes[OF wi_same_handle] add_refs_same_handle)

lemma sh_read_rest:
  "preserves same_handle
     (io_bind io_the_file
          (\<lambda>file st.
             case map_of (io_read st) (filename (obj_file file)) of
               Some f_builder \<Rightarrow> (Inr f_builder, st)
             | None \<Rightarrow>
                 io_bind (node_at file)
                   (\<lambda>node.
                      io_bind (read_group recursion_limit file node (Some ROOT_NAME))
                        (\<lambda>f_builder st'.
                           (Inr f_builder,
                            st'\<lparr>io_read := dict_set (filename (obj_file file)) f_builder (io_read st')\<rparr>)))
                   st))"
proof (intro sh_intros preserves_the_file[OF reflp_same_handle])
  fix fl
  have store: "preserves same_handle (\<lambda>st'. (Inr (b :: builder), st'\<lparr>io_read := dict_set k b (io_read st')\<rparr>))" for b k
    by (simp add: preserves_def same_handle_def)
  have inner: "preserves same_handle
     (io_bind (node_at fl)
        (\<lambda>node. io_bind (read_group recursion_limit fl node (Some ROOT_NAME))
             (\<lambda>f_builder st'.
                   (Inr f_builder,
                    st'\<lparr>io_read := dict_set (filename (obj_file fl)) f_builder (io_read st')\<rparr>))))"
    by (intro sh_intros sh_node_at sh_read_group store)
  show "preserves same_handle
          (\<lambda>st. case map_of (io_read st) (filename (obj_file fl)) of
                 Some f_builder \<Rightarrow> (Inr f_builder, st)
               | None \<Rightarrow>
                   io_bind (node_at fl)
                     (\<lambda>node. io_bind (read_group recursion_limit fl node (Some ROOT_NAME))
                          (\<lambda>f_builder st'.
                                (Inr f_builder,
                                 st'\<lparr>io_read := dict_set (filename (obj_file fl)) f_builder (io_read st')\<rparr>)))
                     st)"
    unfolding preserves_def
  proof
    fix st
    show "same_handle st (snd (case map_of (io_read st) (filename (obj_file fl)) of
                 Some f_builder \<Rightarrow> (Inr f_builder, st)
               | None \<Rightarrow>
                   io_bind (node_at fl)
                     (\<lambda>node. io_bind (read_group recursion_limit fl node (Some ROOT_NAME))
                          (\<lambda>f_builder st'.
                                (Inr f_builder,
                                 st'\<lparr>io_read := dict_set (filename (obj_file fl)) f_builder (io_read st')\<rparr>)))
                     st))"
      using inner by (cases "map_of (io_read st) (filename (obj_file fl))")
        (simp_all add: preserves_def same_handle_def)
  qed
qed

text \<open>
  C9, as the source has it. Whatever the outcome of \<^verbatim>\<open>write_builder\<close> or of
  \<^verbatim>\<open>read_builder\<close>, the file object and the open handles are those that
  \<^verbatim>\<open>open\<close> left: when \<^verbatim>\<open>open\<close> succeeded, the handle it made is still open on
  every exit. It is released by a call of \<^verbatim>\<open>close\<close>.
\<close>

theorem file_handle_left_open:
  "io_file (snd (write_builder (GroupBuilder i n a gs ds ls s p) st)) = io_file (snd (io_open st))
   \<and> open_handles (snd (write_builder (GroupBuilder i n a gs ds ls s p) st)) = open_handles (snd (io_open st))
   \<and> io_file (snd (read_builder st)) = io_file (snd (io_open st))
   \<and> open_handles (snd (read_builder st)) = open_handles (snd (io_open st))
   \<and> (fst (io_open st) = Inr () \<longrightarrow>
        (\<exists>f. io_file (snd (io_open st)) = Some f \<and> filename f = io_path st)
        \<and> open_handles (snd (io_open st)) = open_handles st @ [io_path st])
   \<and> (io_file st = Some f \<longrightarrow>
        fst (io_close st) = Inr ()
        \<and> open_handles (snd (io_close st)) = remove1 (filename f) (open_handles st))"
proof -
  have w: "same_handle (snd (io_open st)) (snd (write_builder (GroupBuilder i n a gs ds ls s p) st))"
    unfolding write_builder_def builder.case
    by (rule after_open) (rule sh_write_rest)
  have r: "same_handle (snd (io_open st)) (snd (read_builder st))"
    unfolding read_builder_def
    by (rule after_open) (rule sh_read_rest)
  have o: "fst (io_open st) = Inr () \<longrightarrow>
        (\<exists>f. io_file (snd (io_open st)) = Some f \<and> filename f = io_path st)
        \<and> open_handles (snd (io_open st)) = open_handles st @ [io_path st]"
    by (auto simp: io_open_def h5_File_def Let_def split: if_splits)
  have c: "io_file st = Some f \<longrightarrow>
        fst (io_close st) = Inr ()
        \<and> open_handles (snd (io_close st)) = remove1 (filename f) (open_handles st)"
    by (simp add: io_close_def h5_close_def)
  from w r o c show ?thesis
    unfolding same_handle_def by (intro conjI) simp_all
qed

text \<open>A write to a new file, a read of an existing one, and a close after an open.\<close>

theorem file_handle_left_open_witness:
  "open_handles (snd (write_builder
       (GroupBuilder 0 ''root'' [] [(''g'', GroupBuilder 1 ''g'' [] [] [] [] None None)] [] [] None None)
       (HDF5IO_init ''a.h5'' (\<lambda>c. BRef [] None None) ''w'' (\<lambda>f. None)))) = [''a.h5'']
   \<and> open_handles (snd (read_builder
       (HDF5IO_init ''a.h5'' (\<lambda>c. BRef [] None None) ''r'' [''a.h5'' \<mapsto> H5Group [] []]))) = [''a.h5'']
   \<and> open_handles (snd (io_close (snd (io_open
       (HDF5IO_init ''a.h5'' (\<lambda>c. BRef [] None None) ''w'' (\<lambda>f. None)))))) = []"
proof -
  let ?W = "HDF5IO_init ''a.h5'' (\<lambda>c. BRef [] None None) ''w'' (\<lambda>f. None)"
  let ?R = "HDF5IO_init ''a.h5'' (\<lambda>c. BRef [] None None) ''r'' [''a.h5'' \<mapsto> H5Group [] []]"
  let ?f = "\<lparr>filename = ''a.h5'', writable = True\<rparr>"
  note w = file_handle_left_open[where st="?W" and i=0 and n="''root''" and a="[]"
      and gs="[(''g'', GroupBuilder 1 ''g'' [] [] [] [] None None)]" and ds="[]" and ls="[]"
      and s=None and p=None and f="?f"]
  note r = file_handle_left_open[where st="?R" and f="?f"]
  note c = file_handle_left_open[where st="snd (io_open ?W)" and f="?f"]
  have ow: "fst (io_open ?W) = Inr ()" and or: "fst (io_open ?R) = Inr ()"
    by (simp_all add: io_open_def h5_File_def HDF5IO_init_def)
  have pw: "io_path ?W = ''a.h5''" "open_handles ?W = []" "io_path ?R = ''a.h5''" "open_handles ?R = []"
    by (simp_all add: HDF5IO_init_def)
  have fw: "io_file (snd (io_open ?W)) = Some ?f"
    by (simp add: io_open_def h5_File_def HDF5IO_init_def)
  from w ow pw have 1: "open_handles (snd (write_builder
       (GroupBuilder 0 ''root'' [] [(''g'', GroupBuilder 1 ''g'' [] [] [] [] None None)] [] [] None None) ?W)) = [''a.h5'']"
    by simp
  from r or pw have 2: "open_handles (snd (read_builder ?R)) = [''a.h5'']"
    by simp
  from w ow pw have o: "open_handles (snd (io_open ?W)) = [''a.h5'']" by simp
  from c fw o have 3: "open_handles (snd (io_close (snd (io_open ?W)))) = []"
    by simp
  from 1 2 3 show ?thesis by (intro conjI)
qed

text \<open>
  C9 as stated fails: \<^verbatim>\<open>write_builder\<close> returns normally and the handle of the file
  is open.
\<close>

theorem write_builder_leaves_handle_open:
  "fst (write_builder two_refs (HDF5IO_init ''a.h5'' (\<lambda>c. BRef [] None None) ''w'' (\<lambda>f. None))) = Inr ()
   \<and> open_handles (snd (write_builder two_refs
         (HDF5IO_init ''a.h5'' (\<lambda>c. BRef [] None None) ''w'' (\<lambda>f. None)))) = [''a.h5'']"
  by (simp add: two_refs_def io_eval)

section \<open>Properties of round trips\<close>

lemma region_tree_written:
  "fst (write_builder region_tree (HDF5IO_init ''a.h5'' m ''w'' (\<lambda>f. None))) = Inr ()"
  "files (snd (write_builder region_tree (HDF5IO_init ''a.h5'' m ''w'' (\<lambda>f. None))))
     = [''a.h5'' \<mapsto> region_file]"
  by (simp_all add: region_tree_def region_file_def write_eval numeral_3_eq_3 numeral_2_eq_2)

lemma linked_tree_written:
  "fst (write_builder linked_tree (HDF5IO_init ''a.h5'' m ''w'' (\<lambda>f. None))) = Inr ()"
  "files (snd (write_builder linked_tree (HDF5IO_init ''a.h5'' m ''w'' (\<lambda>f. None))))
     = [''a.h5'' \<mapsto> linked_file]"
  by (simp_all add: linked_tree_def linked_file_def write_eval)

text \<open>
  C1, at the tree \<open>linked_tree\<close>: \<^verbatim>\<open>write_builder\<close> returns without an error, and
  reading the file it has written yields a root with the two groups and no link. The
  link \<open>l\<close> of the root is lost, and the same link in the group \<open>h\<close>, written by
  \<^verbatim>\<open>write_group\<close>, is read back (under the last name of its target path).
\<close>

theorem root_links_not_written:
  "fst (write_builder linked_tree (HDF5IO_init ''a.h5'' m ''w'' (\<lambda>f. None))) = Inr ()
   \<and> fst (read_builder
           (HDF5IO_init ''a.h5'' m ''r''
              (files (snd (write_builder linked_tree (HDF5IO_init ''a.h5'' m ''w'' (\<lambda>f. None)))))))
     = Inr (GroupBuilder 2 ''root'' []
              [(''g'', GroupBuilder 0 ''g'' [] [] [] [] (Some ''a.h5'') None),
               (''h'', GroupBuilder 1 ''h'' [] [] []
                         [(''g'', LinkBuilder ''l''
                                    (GroupBuilder 0 ''g'' [] [] [] [] (Some ''a.h5'') None)
                                    (Some ''a.h5''))]
                         (Some ''a.h5'') None)]
              [] [] (Some ''a.h5'') None)"
  unfolding linked_tree_written
  by (simp add: linked_file_def read_eval numeral_2_eq_2 del: Suc_numeral)

text \<open>
  C6, at the file of \<open>region_tree\<close>: one read session constructs two builders for
  the dataset \<open>pos\<close> of the file \<open>a.h5\<close>. The first (identity 0) is cached and is
  the dataset of the root; the second (identity 1) is constructed when the region
  reference \<open>sel\<close> is read, although the first is in the cache, and is the one the
  region builder carries.
\<close>

theorem region_target_built_twice:
  "fst (read_builder
         (HDF5IO_init ''a.h5'' m ''r''
            (files (snd (write_builder region_tree (HDF5IO_init ''a.h5'' m ''w'' (\<lambda>f. None)))))))
     = Inr (GroupBuilder 4 ''root'' []
              [(''grp'', GroupBuilder 0 ''grp'' [] [] [] [] (Some ''a.h5'') None)]
              [(''pos'', DatasetBuilder 1 ''pos'' [] (DataH5 ''a.h5'' [''pos''])
                           (NumpyDtype (Some Np_int32)) (Some [Some 3]) (Some ''a.h5'') None),
               (''sel'', RegionBuilder 3 ''sel'' []
                           (DatasetBuilder 2 ''pos'' [] (DataH5 ''a.h5'' [''pos''])
                              (NumpyDtype (Some Np_int32)) (Some [Some 3]) (Some ''a.h5'') None)
                           (RegionRef (RegionReference [''pos''] (SelSlice (Some 0) (Some 2) None)))
                           (Some ''a.h5'') None)]
              [] (Some ''a.h5'') None)
   \<and> fst (get_built ''a.h5'' [''pos'']
           (snd (read_builder
                   (HDF5IO_init ''a.h5'' m ''r''
                      (files (snd (write_builder region_tree
                                     (HDF5IO_init ''a.h5'' m ''w'' (\<lambda>f. None))))))))) 
     = Inr (Some (DatasetBuilder 1 ''pos'' [] (DataH5 ''a.h5'' [''pos''])
                    (NumpyDtype (Some Np_int32)) (Some [Some 3]) (Some ''a.h5'') None))"
  unfolding region_tree_written
  by (simp add: region_file_def read_eval numeral_2_eq_2 numeral_3_eq_3 eval_nat_numeral
           del: Suc_numeral)

section \<open>Properties of region references\<close>

lemma map_of_dict_set:
  "map_of (dict_set k v ms) k' = (if k' = k then Some v else map_of ms k')"
  by (induction ms) auto

lemma map_of_append_fresh:
  "k \<notin> fst ` set ms \<Longrightarrow> map_of (ms @ [(k, m)]) k' = (if k' = k then Some m else map_of ms k')"
  by (induction ms) auto

lemma grown_dataset: "grown (H5Dataset d) n' \<Longrightarrow> n' = H5Dataset d"
  by (cases rule: grown.cases) auto

lemma modify_add_grown:
  "h5_modify p (add_member name m) n = Inr n' \<Longrightarrow> grown n n'"
proof (induction p "add_member name m" n arbitrary: n' rule: h5_modify.induct)
  case (1 node)
  then show ?case
    by (auto simp: add_member_def intro: grown_add split: h5node.splits if_splits)
next
  case (2 k ks d)
  then show ?case by simp
next
  case (3 k ks attrs members)
  from "3.prems" obtain n0 n1 where m: "map_of members k = Some (HardLink n0)"
    and r: "h5_modify ks (add_member name m) n0 = Inr n1"
    and e: "n' = H5Group attrs (dict_set k (HardLink n1) members)"
    by (auto split: option.splits h5member.splits sum.splits)
  from "3.hyps"[OF m refl r] have "grown n0 n1" .
  then show ?case using m e by (auto intro: grown_in)
qed

lemma modify_add_resolves:
  "h5_modify p (add_member name (HardLink nd)) n = Inr n' \<Longrightarrow>
   h5_walk fuel fs fname cur n' (p @ [name]) = Some (fname, cur @ p @ [name], nd)"
proof (induction p "add_member name (HardLink nd)" n arbitrary: n' cur rule: h5_modify.induct)
  case (1 node)
  then show ?case
    by (auto simp: add_member_def map_of_append_fresh simp del: map_of_append
        split: h5node.splits if_splits)
next
  case (2 k ks d)
  then show ?case by simp
next
  case (3 k ks attrs members)
  from "3.prems" obtain n0 n1 where m: "map_of members k = Some (HardLink n0)"
    and r: "h5_modify ks (add_member name (HardLink nd)) n0 = Inr n1"
    and e: "n' = H5Group attrs (dict_set k (HardLink n1) members)"
    by (auto split: option.splits h5member.splits sum.splits)
  from "3.hyps"[OF m refl r, of "cur @ [k]"] show ?case
    using e by (simp add: map_of_dict_set)
qed

lemma hard_at_walk:
  "hard_at node ks = Some nd \<Longrightarrow> h5_walk fuel fs fname cur node ks = Some (fname, cur @ ks, nd)"
proof (induction node ks arbitrary: cur rule: hard_at.induct)
  case (1 node)
  then show ?case by simp
next
  case (2 d k ks)
  then show ?case by simp
next
  case (3 attrs members k ks)
  from "3.prems" obtain n where m: "map_of members k = Some (HardLink n)"
    and h: "hard_at n ks = Some nd"
    by (auto split: option.splits h5member.splits)
  from "3.IH"[OF m refl h, of "cur @ [k]"] m show ?case by simp
qed

lemma hard_at_append:
  "hard_at r0 cur = Some (H5Group attrs members) \<Longrightarrow> map_of members k = Some (HardLink n) \<Longrightarrow>
   hard_at r0 (cur @ [k]) = Some n"
proof (induction r0 cur rule: hard_at.induct)
  case (1 node)
  then show ?case by simp
next
  case (2 d k ks)
  then show ?case by simp
next
  case (3 attrs' members' k' ks)
  from "3.prems"(1) obtain n' where m: "map_of members' k' = Some (HardLink n')"
    and h: "hard_at n' ks = Some (H5Group attrs members)"
    by (auto split: option.splits h5member.splits)
  from "3.IH"[OF m refl h "3.prems"(2)] m show ?case by simp
qed

lemma walk_hard:
  "fs fname = Some r0 \<Longrightarrow> hard_at r0 cur = Some node \<Longrightarrow>
   h5_walk fuel fs fname cur node ks = Some (fn, p, nd) \<Longrightarrow>
   \<exists>r. fs fn = Some r \<and> hard_at r p = Some nd"
proof (induction fuel fs fname cur node ks arbitrary: r0 rule: h5_walk.induct)
  case (1 fuel files fname cur node)
  then show ?case by auto
next
  case (2 fuel files fname cur d k ks)
  then show ?case by simp
next
  case (3 fuel files fname cur attrs members k ks)
  from "3.prems"(3) obtain x where m: "map_of members k = Some x"
    by (auto split: option.splits)
  show ?case
  proof (cases x)
    case (HardLink n)
    from "3.prems"(3) m HardLink
    have w: "h5_walk fuel files fname (cur @ [k]) n ks = Some (fn, p, nd)" by simp
    have h: "hard_at r0 (cur @ [k]) = Some n"
      using hard_at_append[OF "3.prems"(2)] m HardLink by simp
    from "3.IH"(1)[OF m HardLink "3.prems"(1) h w] show ?thesis .
  next
    case (SoftLink q)
    from "3.prems"(3) m SoftLink obtain f r where f: "fuel = Suc f" and r: "files fname = Some r"
      and w: "h5_walk f files fname [] r (q @ ks) = Some (fn, p, nd)"
      by (auto split: nat.splits option.splits)
    have h: "hard_at r [] = Some r" by simp
    from "3.IH"(2)[OF m SoftLink f r r h w] show ?thesis .
  next
    case (ExternalLink f2 q)
    from "3.prems"(3) m ExternalLink obtain f r where f: "fuel = Suc f" and r: "files f2 = Some r"
      and w: "h5_walk f files f2 [] r (q @ ks) = Some (fn, p, nd)"
      by (auto split: nat.splits option.splits)
    have h: "hard_at r [] = Some r" by simp
    from "3.IH"(3)[OF m ExternalLink f r r h w] show ?thesis .
  qed
qed

lemma resolve_canonical:
  assumes "h5_resolve fs f p0 = Some (fn, p, nd)"
  shows "h5_resolve fs fn p = Some (fn, p, nd)"
proof -
  from assms obtain r0 where r0: "fs f = Some r0"
    and w: "h5_walk nlinks fs f [] r0 p0 = Some (fn, p, nd)"
    by (auto simp: h5_resolve_def split: option.splits)
  have "hard_at r0 [] = Some r0" by simp
  from walk_hard[OF r0 this w] obtain r where r: "fs fn = Some r" and h: "hard_at r p = Some nd"
    by blast
  from hard_at_walk[OF h, of nlinks fs fn "[]"] r show ?thesis
    by (simp add: h5_resolve_def)
qed

lemma grown_member:
  assumes "grown (H5Group a ms) n'" "map_of ms k = Some x"
  shows "\<exists>ms'. n' = H5Group a ms'
     \<and> (case x of
           HardLink n0 \<Rightarrow> \<exists>n1. map_of ms' k = Some (HardLink n1) \<and> grown n0 n1
         | _ \<Rightarrow> map_of ms' k = Some x)"
  using assms(1)
proof (cases rule: grown.cases)
  case grown_refl
  then show ?thesis using assms(2) by (auto intro: grown.grown_refl split: h5member.splits)
next
  case (grown_add k0 m)
  have "k \<in> fst ` set ms" using assms(2) by (force dest: map_of_SomeD)
  then have "k \<noteq> k0" using grown_add by auto
  then have "map_of (ms @ [(k0, m)]) k = Some x"
    using assms(2) grown_add by (simp add: map_of_append_fresh del: map_of_append)
  then show ?thesis using grown_add by (auto intro: grown.grown_refl split: h5member.splits)
next
  case (grown_in k0 n0 n1)
  show ?thesis
  proof (cases "k = k0")
    case True
    then show ?thesis using grown_in assms(2) by (auto simp: map_of_dict_set)
  next
    case False
    then show ?thesis using grown_in assms(2)
      by (auto simp: map_of_dict_set intro: grown.grown_refl split: h5member.splits)
  qed
qed

lemma walk_grown:
  assumes g: "grown rt rt'"
  shows "fs f0 = Some rt \<Longrightarrow> grown node node' \<Longrightarrow>
    h5_walk fuel fs fname cur node ks = Some (fn, p, nd) \<Longrightarrow>
    \<exists>nd'. h5_walk fuel (fs(f0 \<mapsto> rt')) fname cur node' ks = Some (fn, p, nd') \<and> grown nd nd'"
proof (induction fuel fs fname cur node ks arbitrary: node' rule: h5_walk.induct)
  case (1 fuel files fname cur node)
  then show ?case by auto
next
  case (2 fuel files fname cur d k ks)
  then show ?case by simp
next
  case (3 fuel files fname cur attrs members k ks)
  note root = "3.prems"(1)
  from "3.prems"(3) obtain x where m: "map_of members k = Some x"
    by (auto split: option.splits)
  from grown_member[OF "3.prems"(2) m] obtain ms' where n': "node' = H5Group attrs ms'"
    and c: "case x of
           HardLink n0 \<Rightarrow> \<exists>n1. map_of ms' k = Some (HardLink n1) \<and> grown n0 n1
         | _ \<Rightarrow> map_of ms' k = Some x" by blast
  show ?case
  proof (cases x)
    case (HardLink n0)
    from c HardLink obtain n1 where m': "map_of ms' k = Some (HardLink n1)" and g1: "grown n0 n1"
      by auto
    from "3.prems"(3) m HardLink
    have w: "h5_walk fuel files fname (cur @ [k]) n0 ks = Some (fn, p, nd)" by simp
    from "3.IH"(1)[OF m HardLink root g1 w] show ?thesis using n' m' by simp
  next
    case (SoftLink q)
    from c SoftLink have m': "map_of ms' k = Some (SoftLink q)" by simp
    from "3.prems"(3) m SoftLink obtain f r where f: "fuel = Suc f" and r: "files fname = Some r"
      and w: "h5_walk f files fname [] r (q @ ks) = Some (fn, p, nd)"
      by (auto split: nat.splits option.splits)
    let ?r' = "if fname = f0 then rt' else r"
    have gr: "grown r ?r'" using root r g by (auto intro: grown_refl)
    have fr: "(files(f0 \<mapsto> rt')) fname = Some ?r'" using r by simp
    from "3.IH"(2)[OF m SoftLink f r root gr w] show ?thesis
      using n' m' f fr by simp
  next
    case (ExternalLink f2 q)
    from c ExternalLink have m': "map_of ms' k = Some (ExternalLink f2 q)" by simp
    from "3.prems"(3) m ExternalLink obtain f r where f: "fuel = Suc f" and r: "files f2 = Some r"
      and w: "h5_walk f files f2 [] r (q @ ks) = Some (fn, p, nd)"
      by (auto split: nat.splits option.splits)
    let ?r' = "if f2 = f0 then rt' else r"
    have gr: "grown r ?r'" using root r g by (auto intro: grown_refl)
    have fr: "(files(f0 \<mapsto> rt')) f2 = Some ?r'" using r by simp
    from "3.IH"(3)[OF m ExternalLink f r root gr w] show ?thesis
      using n' m' f fr by simp
  qed
qed

lemma resolve_grown:
  assumes "fs f0 = Some rt" "grown rt rt'" "h5_resolve fs fname p0 = Some (fn, p, H5Dataset d)"
  shows "h5_resolve (fs(f0 \<mapsto> rt')) fname p0 = Some (fn, p, H5Dataset d)"
proof -
  from assms(3) obtain r where r: "fs fname = Some r"
    and w: "h5_walk nlinks fs fname [] r p0 = Some (fn, p, H5Dataset d)"
    by (auto simp: h5_resolve_def split: option.splits)
  let ?r' = "if fname = f0 then rt' else r"
  have gr: "grown r ?r'" using assms(1,2) r by (auto intro: grown_refl)
  from walk_grown[OF assms(2) assms(1) gr w] obtain nd' where
    "h5_walk nlinks (fs(f0 \<mapsto> rt')) fname [] ?r' p0 = Some (fn, p, nd')" "grown (H5Dataset d) nd'"
    by blast
  then show ?thesis using r by (auto simp: h5_resolve_def dest: grown_dataset)
qed

lemma region_data:
  "ds_shape (dataset_of_data dt (PyRef r)) = []"
  "cell (dataset_of_data dt (PyRef r)) [] = PyRef r"
  "ds_attrs (dataset_of_data dt (PyRef r)) = []"
  "ds_maxshape (dataset_of_data dt (PyRef r)) = None"
  by (simp_all add: dataset_of_data_def cell_def)

lemma region_deferred:
  "dataset_deferred parent (RegionBuilder i n a tb rg sr pr)
     = [Filler_region parent n (TBuilder (ref_of tb)) (Some rg) Ref_region a]"
  by (simp add: dataset_deferred_def dtypes_index_def dtypes_get_def dtypes_table_def
        REGION_REF_TYPE_def)




end
